(* ===== verification/Prelude.thy ===== *)
theory Prelude
  imports Main "HOL-Library.Word" "HOL-Library.Multiset"
begin

text \<open>
  Shared vocabulary of the development: Go's error values and panics, the widths of Go's
  integers, truncated integer division, and the generic lemmas on lists and maps the
  components use. \<open>go_simps\<close> collects the unfolding rules of the small Go primitives,
  \<open>keyed_simps\<close> the laws of tables with a unique key.
\<close>

named_theorems go_simps
named_theorems keyed_simps

section \<open>Errors, panics and integer widths\<close>

type_synonym int32 = "32 word"
type_synonym int64 = "64 word"
type_synonym uint64 = "64 word"

text \<open>
  A Go \<open>error\<close> that is not nil. \<open>GoErr\<close> carries the text; \<open>RiverCancel\<close> is what
  \<open>river.JobCancel\<close> wraps; then \<open>strconv\<close>'s sentinel errors; \<open>Wrapped\<close> is an error with a text in
  front, as \<open>fmt.Errorf\<close> makes it.
\<close>

datatype goerror = GoErr string | RiverCancel string | ErrSyntax | ErrRange | Wrapped string goerror

text \<open>The outcome of code that may panic: a nil dereference, a write to a nil map, an index
  out of range, an integer division by zero.\<close>

datatype 'a outcome = Returns 'a | Panics string

fun bind_outcome :: "'a outcome \<Rightarrow> ('a \<Rightarrow> 'b outcome) \<Rightarrow> 'b outcome" where
  "bind_outcome (Returns x) f = f x"
| "bind_outcome (Panics m) f = Panics m"

lemma bind_outcome_Returns_iff:
  "bind_outcome m f = Returns y \<longleftrightarrow> (\<exists>x. m = Returns x \<and> f x = Returns y)"
  by (cases m) auto

text \<open>The ranges of Go's \<open>int32\<close> and of PostgreSQL's \<open>INTEGER\<close> column (the same).\<close>

definition int4_range :: "int \<Rightarrow> bool" where
  "int4_range i \<longleftrightarrow> - (2 ^ 31) \<le> i \<and> i < 2 ^ 31"

text \<open>Conversion to \<open>int32\<close> and \<open>int64\<close>: the low bits, read as two's complement.\<close>

definition wrap32 :: "int \<Rightarrow> int" where
  "wrap32 i = sint (word_of_int i :: int32)"

definition wrap64 :: "int \<Rightarrow> int" where
  "wrap64 i = sint (word_of_int i :: int64)"

lemma wrap32_id: "int4_range i \<Longrightarrow> wrap32 i = i"
  unfolding wrap32_def int4_range_def by (simp add: signed_of_int signed_take_bit_int_eq_self)

lemma wrap64_id: "- (2 ^ 63) \<le> i \<Longrightarrow> i < 2 ^ 63 \<Longrightarrow> wrap64 i = i"
  unfolding wrap64_def by (simp add: signed_of_int signed_take_bit_int_eq_self)

text \<open>Go's \<open>/\<close> on signed integers truncates towards zero.\<close>

definition go_div :: "int \<Rightarrow> int \<Rightarrow> int" where
  "go_div a b = sgn a * sgn b * (\<bar>a\<bar> div \<bar>b\<bar>)"

lemma go_div_nonneg: "0 \<le> a \<Longrightarrow> 0 < b \<Longrightarrow> go_div a b = a div b"
  by (cases "a = 0") (auto simp: go_div_def)

lemma go_div_neg: "a \<le> 0 \<Longrightarrow> 0 < b \<Longrightarrow> go_div a b = - ((- a) div b)"
  by (cases "a = 0") (auto simp: go_div_def)

lemma go_div_le_0: "a \<le> 0 \<Longrightarrow> 0 < b \<Longrightarrow> go_div a b \<le> 0"
  by (simp add: go_div_neg pos_imp_zdiv_nonneg_iff)

lemma go_div_mult_self: "0 < b \<Longrightarrow> go_div (k * b) b = k"
  by (simp add: go_div_def sgn_mult abs_mult sgn_mult_abs)

section \<open>Lists and maps\<close>

lemma mset_eq_set: "mset xs = mset ys \<Longrightarrow> set xs = set ys"
  by (metis set_mset_mset)

lemma filter_id_iff: "(\<forall>x \<in> set xs. P x) \<Longrightarrow> filter P xs = xs"
  by (induction xs) auto

lemma distinct_map_filter_key: "distinct (map f xs) \<Longrightarrow> distinct (map f (filter P xs))"
  by (induction xs) auto

lemma distinct_map_mset: "mset xs = mset ys \<Longrightarrow> distinct (map f xs) \<longleftrightarrow> distinct (map f ys)"
  by (metis mset_map mset_eq_imp_distinct_iff)

lemma distinct_key_eq:
  "distinct (map f xs) \<Longrightarrow> x \<in> set xs \<Longrightarrow> y \<in> set xs \<Longrightarrow> f x = f y \<Longrightarrow> x = y"
  by (induction xs) (auto simp: rev_image_eqI)

lemma filter_key_singleton:
  assumes "distinct (map f xs)" and "x \<in> set xs"
  shows "filter (\<lambda>y. f y = f x) xs = [x]"
  using assms
proof (induction xs)
  case Nil
  then show ?case by simp
next
  case (Cons a xs)
  show ?case
  proof (cases "a = x")
    case True
    have "filter (\<lambda>y. f y = f x) xs = []"
      using Cons.prems(1) True by (auto simp: filter_empty_conv image_iff)
    then show ?thesis using True by simp
  next
    case False
    then have mem: "x \<in> set xs" using Cons.prems(2) by simp
    then have "f a \<noteq> f x" using Cons.prems(1) by (auto simp: image_iff)
    then show ?thesis using Cons mem by simp
  qed
qed

lemma nth_map_upt0: "map (\<lambda>i. xs ! i) [0..<length xs] = xs"
  by (rule map_nth)

end
