(* ===== verification/GoStd.thy ===== *)
theory GoStd
  imports Prelude "HOL-Library.Char_ord"
begin

text \<open>
  The parts of Go's standard library that the repository uses on strings: \<open>strings.Split\<close>,
  \<open>strings.Join\<close>, \<open>strings.Contains\<close>, \<open>strings.HasPrefix\<close>, \<open>strconv.ParseInt\<close> in base 10,
  the \<open>%d\<close> and \<open>%s\<close> verbs of \<open>fmt.Sprintf\<close>, and \<open>filepath.Clean\<close>. A Go string is a list of
  bytes, here a \<open>string\<close>.
\<close>

section \<open>Joining and splitting\<close>

fun strings_Join :: "string list \<Rightarrow> string \<Rightarrow> string" where
  "strings_Join [] sep = []"
| "strings_Join [x] sep = x"
| "strings_Join (x # xs) sep = x @ sep @ strings_Join xs sep"

text \<open>\<open>strings.Split\<close> for a separator of one byte.\<close>

fun split_char :: "char \<Rightarrow> string \<Rightarrow> string list" where
  "split_char c [] = [[]]"
| "split_char c (x # xs) =
     (if x = c then [] # split_char c xs
      else (case split_char c xs of [] \<Rightarrow> [[x]] | y # ys \<Rightarrow> (x # y) # ys))"

lemma split_char_nonempty: "split_char c s \<noteq> []"
  by (induction s) (auto split: list.splits)

lemma length_split_char: "length (split_char c s) = Suc (count_list s c)"
proof (induction s)
  case Nil
  then show ?case by simp
next
  case (Cons x xs)
  then show ?case using split_char_nonempty [of c xs] by (auto split: list.splits)
qed

lemma split_char_no_sep: "c \<notin> set s \<Longrightarrow> split_char c s = [s]"
  by (induction s) auto

lemma split_char_append_sep:
  "c \<notin> set x \<Longrightarrow> split_char c (x @ c # ys) = x # split_char c ys"
  by (induction x) auto

lemma split_char_Join:
  "xs \<noteq> [] \<Longrightarrow> (\<forall>x \<in> set xs. c \<notin> set x) \<Longrightarrow> split_char c (strings_Join xs [c]) = xs"
  by (induction xs "[c]" rule: strings_Join.induct)
    (auto simp: split_char_no_sep split_char_append_sep)

text \<open>\<open>strings.HasPrefix s pre\<close>, in the order of Go's arguments, and \<open>strings.Contains\<close>.\<close>

fun strings_HasPrefix :: "string \<Rightarrow> string \<Rightarrow> bool" where
  "strings_HasPrefix s [] = True"
| "strings_HasPrefix [] (p # ps) = False"
| "strings_HasPrefix (x # xs) (p # ps) = (x = p \<and> strings_HasPrefix xs ps)"

fun strings_Contains :: "string \<Rightarrow> string \<Rightarrow> bool" where
  "strings_Contains [] sub = strings_HasPrefix [] sub"
| "strings_Contains (x # xs) sub = (strings_HasPrefix (x # xs) sub \<or> strings_Contains xs sub)"

lemma HasPrefix_iff: "strings_HasPrefix s p \<longleftrightarrow> (\<exists>t. s = p @ t)"
  by (induction s p rule: strings_HasPrefix.induct) auto

lemma Contains_iff: "strings_Contains s sub \<longleftrightarrow> (\<exists>a b. s = a @ sub @ b)"
proof (induction s)
  case Nil
  then show ?case by (auto simp: HasPrefix_iff)
next
  case (Cons x xs)
  have "(\<exists>a b. x # xs = a @ sub @ b) \<longleftrightarrow>
      (\<exists>b. x # xs = sub @ b) \<or> (\<exists>a b. xs = a @ sub @ b)"
    by (metis append_Cons append_Nil list.inject neq_Nil_conv)
  then show ?case using Cons by (simp add: HasPrefix_iff)
qed

section \<open>Decimal numbers\<close>

definition digit_char :: "nat \<Rightarrow> char" where
  "digit_char d = char_of (48 + d)"

fun show_nat :: "nat \<Rightarrow> string" where
  "show_nat n = (if n < 10 then [digit_char n] else show_nat (n div 10) @ [digit_char (n mod 10)])"

declare show_nat.simps [simp del]

text \<open>The \<open>%d\<close> verb.\<close>

definition show_int :: "int \<Rightarrow> string" where
  "show_int i = (if i < 0 then ''-'' @ show_nat (nat (- i)) else show_nat (nat i))"

definition is_digit :: "char \<Rightarrow> bool" where
  "is_digit c \<longleftrightarrow> 48 \<le> (of_char c :: nat) \<and> (of_char c :: nat) \<le> 57"

definition digit_val :: "char \<Rightarrow> nat" where
  "digit_val c = of_char c - 48"

lemma of_char_digit_char: "d < 10 \<Longrightarrow> (of_char (digit_char d) :: nat) = 48 + d"
  by (simp add: digit_char_def)

lemma is_digit_digit_char: "d < 10 \<Longrightarrow> is_digit (digit_char d)"
  by (simp add: is_digit_def of_char_digit_char)

lemma digit_val_digit_char: "d < 10 \<Longrightarrow> digit_val (digit_char d) = d"
  by (simp add: digit_val_def of_char_digit_char)

lemma show_nat_digits: "\<forall>c \<in> set (show_nat n). is_digit c"
proof (induction n rule: show_nat.induct)
  case (1 n)
  then show ?case
    by (cases "n < 10") (auto simp: show_nat.simps [of n] is_digit_digit_char)
qed

lemma show_nat_nonempty: "show_nat n \<noteq> []"
  by (simp add: show_nat.simps [of n])

text \<open>
  \<open>strconv.ParseUint(s, 10, 32)\<close>: the digits are read from the left; the first byte that is no
  digit is a syntax error and the first prefix above the largest value is a range error,
  whichever comes first. \<open>strconv.ParseInt\<close> strips the sign, and treats a range error of the
  unsigned reading as a value that is out of range for its own bound.
\<close>

fun parse_digits :: "nat \<Rightarrow> nat \<Rightarrow> string \<Rightarrow> goerror + nat" where
  "parse_digits maxv acc [] = Inr acc"
| "parse_digits maxv acc (c # cs) =
     (if \<not> is_digit c then Inl ErrSyntax
      else let n = 10 * acc + digit_val c
           in if maxv < n then Inl ErrRange else parse_digits maxv n cs)"

definition ParseUint :: "nat \<Rightarrow> string \<Rightarrow> goerror + nat" where
  "ParseUint bitSize s = (if s = [] then Inl ErrSyntax else parse_digits (2 ^ bitSize - 1) 0 s)"

definition ParseInt :: "nat \<Rightarrow> string \<Rightarrow> goerror + int" where
  "ParseInt bitSize s =
     (if s = [] then Inl ErrSyntax
      else let neg = (hd s = CHR ''-'');
               body = (if hd s = CHR ''+'' \<or> hd s = CHR ''-'' then tl s else s);
               cutoff = 2 ^ (bitSize - 1)
           in case ParseUint bitSize body of
                Inl e \<Rightarrow> Inl e
              | Inr un \<Rightarrow>
                  if \<not> neg \<and> cutoff \<le> un then Inl ErrRange
                  else if neg \<and> cutoff < un then Inl ErrRange
                  else Inr (if neg then - int un else int un))"

lemma parse_digits_append:
  "parse_digits maxv acc (xs @ ys) =
     (case parse_digits maxv acc xs of Inl e \<Rightarrow> Inl e | Inr n \<Rightarrow> parse_digits maxv n ys)"
  by (induction xs arbitrary: acc) (auto simp: Let_def)

lemma parse_digits_show_nat: "n \<le> maxv \<Longrightarrow> parse_digits maxv 0 (show_nat n) = Inr n"
proof (induction n rule: show_nat.induct)
  case (1 n)
  show ?case
  proof (cases "n < 10")
    case True
    then show ?thesis using 1
      by (simp add: show_nat.simps [of n] is_digit_digit_char digit_val_digit_char)
  next
    case False
    have m: "n mod 10 < 10" by simp
    have "n div 10 \<le> maxv" using "1.prems" by (meson div_le_dividend le_trans)
    then have "parse_digits maxv 0 (show_nat (n div 10)) = Inr (n div 10)"
      using "1.IH" False by simp
    then show ?thesis using False m "1.prems"
      by (simp add: show_nat.simps [of n] parse_digits_append Let_def
          is_digit_digit_char digit_val_digit_char)
  qed
qed

lemma digit_not_sign: "is_digit c \<Longrightarrow> c \<noteq> CHR ''-'' \<and> c \<noteq> CHR ''+''"
  by (auto simp: is_digit_def)

lemma hd_show_nat: "hd (show_nat n) \<noteq> CHR ''-'' \<and> hd (show_nat n) \<noteq> CHR ''+''"
  using show_nat_digits [of n] show_nat_nonempty [of n] digit_not_sign hd_in_set by blast

lemma ParseUint_show_nat: "n < 2 ^ b \<Longrightarrow> ParseUint b (show_nat n) = Inr n"
  by (simp add: ParseUint_def show_nat_nonempty parse_digits_show_nat)

lemma two_power_half: "0 < b \<Longrightarrow> (n::nat) \<le> 2 ^ (b - 1) \<Longrightarrow> n < 2 ^ b"
  by (cases b) (auto simp: le_less_trans)

lemma ParseInt_show_int:
  assumes "0 < b" and "- (2 ^ (b - 1)) \<le> i" and "i < 2 ^ (b - 1)"
  shows "ParseInt b (show_int i) = Inr i"
proof (cases "i < 0")
  case True
  have le: "nat (- i) \<le> 2 ^ (b - 1)" using assms(2) True by (simp add: nat_le_iff)
  then have "ParseUint b (show_nat (nat (- i))) = Inr (nat (- i))"
    by (intro ParseUint_show_nat two_power_half assms(1))
  then show ?thesis using True le by (simp add: ParseInt_def show_int_def Let_def)
next
  case False
  have lt: "nat i < 2 ^ (b - 1)" using assms(3) False by (simp add: nat_less_iff)
  then have "ParseUint b (show_nat (nat i)) = Inr (nat i)"
    by (intro ParseUint_show_nat two_power_half assms(1)) simp
  then show ?thesis using False lt hd_show_nat [of "nat i"]
    by (simp add: ParseInt_def show_int_def Let_def show_nat_nonempty)
qed

lemma ParseInt_range:
  assumes "ParseInt b s = Inr i"
  shows "- (2 ^ (b - 1)) \<le> i \<and> i < 2 ^ (b - 1)"
proof -
  have pos: "(0::int) < 2 ^ (b - 1)" by simp
  from assms obtain un where "un \<le> 2 ^ (b - 1) \<and> i = - int un \<or> un < 2 ^ (b - 1) \<and> i = int un"
    by (auto simp: ParseInt_def Let_def not_le not_less split: if_splits sum.splits)
  moreover have "un \<le> 2 ^ (b - 1) \<Longrightarrow> int un \<le> 2 ^ (b - 1)"
    by (metis of_nat_le_iff of_nat_numeral of_nat_power)
  moreover have "un < 2 ^ (b - 1) \<Longrightarrow> int un < 2 ^ (b - 1)"
    by (metis of_nat_less_iff of_nat_numeral of_nat_power)
  ultimately show ?thesis using pos by linarith
qed

lemma show_nat_inj: "show_nat m = show_nat n \<Longrightarrow> m = n"
  by (metis Inr_inject parse_digits_show_nat le_cases)

lemma show_int_inj: "show_int i = show_int j \<Longrightarrow> i = j"
proof -
  assume eq: "show_int i = show_int j"
  have h: "hd (show_nat n) \<noteq> CHR ''-''" for n using hd_show_nat by blast
  have "(i < 0) = (j < 0)" using eq h
    by (metis append_Cons list.sel(1) show_int_def)
  then show "i = j" using eq
    by (cases "i < 0") (auto simp: show_int_def dest!: show_nat_inj)
qed

section \<open>filepath.Clean\<close>

text \<open>
  The elements of a path after cleaning: empty elements and \<open>.\<close> go, \<open>..\<close> removes the
  element before it; at the root it goes too, and in a relative path it stays. The first
  argument says whether the path is rooted; the accumulator holds the elements in reverse.
\<close>

fun clean_elements :: "bool \<Rightarrow> string list \<Rightarrow> string list \<Rightarrow> string list" where
  "clean_elements rooted acc [] = rev acc"
| "clean_elements rooted acc (e # es) =
     (if e = [] \<or> e = ''.'' then clean_elements rooted acc es
      else if e = ''..''
      then (case acc of
              [] \<Rightarrow> clean_elements rooted (if rooted then [] else [''..'']) es
            | a # acc' \<Rightarrow> clean_elements rooted (if a = ''..'' then e # acc else acc') es)
      else clean_elements rooted (e # acc) es)"

definition filepath_Clean :: "string \<Rightarrow> string" where
  "filepath_Clean p =
     (let rooted = strings_HasPrefix p ''/'';
          out = strings_Join (clean_elements rooted [] (split_char (CHR ''/'') p)) ''/''
      in if rooted then ''/'' @ out else if out = [] then ''.'' else out)"

definition plain_element :: "string \<Rightarrow> bool" where
  "plain_element e \<longleftrightarrow> e \<noteq> [] \<and> e \<noteq> ''.'' \<and> e \<noteq> ''..'' \<and> CHR ''/'' \<notin> set e"

lemma clean_elements_plain:
  "\<forall>e \<in> set es. plain_element e \<Longrightarrow> clean_elements r acc es = rev acc @ es"
  by (induction es arbitrary: acc) (auto simp: plain_element_def)

lemma filepath_Clean_plain:
  assumes ne: "es \<noteq> []" and plain: "\<forall>e \<in> set es. plain_element e"
  shows "filepath_Clean (''/'' @ strings_Join es ''/'') = ''/'' @ strings_Join es ''/''"
proof -
  have "split_char (CHR ''/'') (CHR ''/'' # strings_Join es ''/'') = [] # es"
    using split_char_Join [of es "CHR ''/''"] ne plain by (simp add: plain_element_def)
  then show ?thesis using clean_elements_plain [OF plain]
    by (simp add: filepath_Clean_def)
qed

lemma strings_Join_snoc:
  "xs \<noteq> [] \<Longrightarrow> strings_Join (xs @ [y]) sep = strings_Join xs sep @ sep @ y"
proof (induction xs)
  case Nil
  then show ?case by simp
next
  case (Cons x xs)
  then show ?case by (cases xs) auto
qed

lemma slash_not_in_show_int: "CHR ''/'' \<notin> set (show_int i)"
proof -
  have "CHR ''/'' \<notin> set (show_nat n)" for n
    using show_nat_digits [of n] by (auto simp: is_digit_def)
  then show ?thesis by (auto simp: show_int_def)
qed

lemma show_int_not_dots: "show_int i \<noteq> [] \<and> CHR ''.'' \<notin> set (show_int i)"
proof -
  have "CHR ''.'' \<notin> set (show_nat n)" for n
    using show_nat_digits [of n] by (auto simp: is_digit_def)
  then show ?thesis using show_nat_nonempty by (auto simp: show_int_def)
qed

lemma plain_element_indexed: "CHR ''/'' \<notin> set a \<Longrightarrow> plain_element (a @ show_int i)"
proof -
  assume slash: "CHR ''/'' \<notin> set a"
  obtain c cs where c: "show_int i = cs @ [c]" and "c \<noteq> CHR ''.''"
    using show_int_not_dots [of i] by (metis rev_exhaust in_set_conv_decomp)
  then have "last (a @ show_int i) \<noteq> CHR ''.''" by simp
  then have "a @ show_int i \<noteq> ''.''" and "a @ show_int i \<noteq> ''..''" by (metis last.simps list.distinct(1))+
  then show ?thesis using slash slash_not_in_show_int [of i] show_int_not_dots [of i]
    by (auto simp: plain_element_def)
qed

end
