(* ===== verification/Kube.thy ===== *)
theory Kube
  imports GoStd "HOL-Library.AList"
begin

text \<open>
  The fields of the Kubernetes API objects that the code reads (\<open>k8s.io/api/core/v1\<close>), as plain
  data. A Go map from strings is an association list with distinct keys: its order stands for
  the (unspecified) iteration order, and \<open>None\<close> is the nil map, which may be read but not
  written. A pointer field is an option. Timestamps are microseconds, \<open>None\<close> the zero time.
  A \<open>resource.Quantity\<close> enters only through the numbers the code reads from it, so a
  container carries the results of those \<open>Value()\<close> calls.
\<close>

record container =
  cpu_request :: int64        \<comment> \<open>\<open>Resources.Requests.Cpu().Value()\<close>\<close>
  memory_request :: int64     \<comment> \<open>\<open>Resources.Requests.Memory().Value()\<close>\<close>
  storage_request :: int64    \<comment> \<open>\<open>Resources.Requests.StorageEphemeral().Value()\<close>\<close>
  gpu_limit :: int64          \<comment> \<open>\<open>Resources.Limits["nvidia.com/gpu"].Value()\<close>\<close>

record owner_reference =
  owner_Kind :: string
  owner_Name :: string

type_synonym go_map = "(string \<times> string) list option"

record pod =
  Name :: string
  Namespace :: string
  UID :: string
  Labels :: go_map
  CreationTimestamp :: "int option"
  DeletionTimestamp :: "int option"
  ActiveDeadlineSeconds :: "int option"
  Containers :: "container list"
  OwnerReferences :: "owner_reference list"
  Phase :: string
  Priority :: "int option"
  SchedulerName :: string
  NodeName :: string

text \<open>\<open>m[k]\<close> on a string map: the zero value when the key is absent or the map is nil.\<close>

definition map_get :: "go_map \<Rightarrow> string \<Rightarrow> string option" where
  "map_get m k = (case m of None \<Rightarrow> None | Some kvs \<Rightarrow> map_of kvs k)"

definition map_get_zero :: "go_map \<Rightarrow> string \<Rightarrow> string" where
  "map_get_zero m k = (case map_get m k of None \<Rightarrow> [] | Some v \<Rightarrow> v)"

text \<open>\<open>m[k] = v\<close>, which panics on a nil map.\<close>

definition map_put :: "go_map \<Rightarrow> string \<Rightarrow> string \<Rightarrow> go_map outcome" where
  "map_put m k v =
     (case m of
        None \<Rightarrow> Panics ''assignment to entry in nil map''
      | Some kvs \<Rightarrow> Returns (Some (AList.update k v kvs)))"

lemma map_put_get:
  assumes "map_put m k v = Returns m'"
  shows "map_get m' k' = (if k' = k then Some v else map_get m k')"
  using assms by (auto simp: map_put_def map_get_def AList.update_conv' split: option.splits)

lemma map_put_panics_iff: "(\<exists>msg. map_put m k v = Panics msg) \<longleftrightarrow> m = None"
  by (auto simp: map_put_def split: option.splits)

text \<open>The codec for pods (\<open>encoding/json\<close> over the Kubernetes types) is not under src/: it is a
  parameter, and what the code relies on is that decoding undoes encoding.\<close>

record codec =
  marshal :: "pod \<Rightarrow> goerror + string"
  unmarshal :: "string \<Rightarrow> goerror + pod"
  partly :: "string \<Rightarrow> pod"   \<comment> \<open>what a failed \<open>Unmarshal\<close> leaves in the variable\<close>

definition codec_ok :: "codec \<Rightarrow> bool" where
  "codec_ok c \<longleftrightarrow> (\<forall>p s. marshal c p = Inr s \<longrightarrow> unmarshal c s = Inr p)"

end
