(* ===== verification/PodGroups.thy ===== *)
theory PodGroups
  imports Kube
begin

text \<open>
  \<open>kubernetes/pkg/fluxnetes/group/group.go\<close> and \<open>labels/labels.go\<close>: the name, size, duration
  and creation time of the group a pod belongs to, and the enqueue status of
  \<open>types/types.go\<close>.
\<close>

definition PodGroupLabel :: string where
  "PodGroupLabel = ''fluxnetes.group-name''"

definition PodGroupSizeLabel :: string where
  "PodGroupSizeLabel = ''fluxnetes.group-size''"

definition GetPodGroupLabel :: "pod \<Rightarrow> string" where
  "GetPodGroupLabel p = map_get_zero (Labels p) PodGroupLabel"

datatype EnqueueStatus = PodEnqueueSuccess | GroupAlreadyInPending | PodInvalid | Unknown

record PodGroup =
  pg_Name :: string
  pg_Size :: int
  pg_Timestamp :: int
  pg_Duration :: int

definition GetPodGroupName :: "pod \<Rightarrow> string" where
  "GetPodGroupName p =
     (let groupName = GetPodGroupLabel p
      in if groupName = [] then ''fluxnetes-group-'' @ Namespace p @ ''-'' @ Name p
         else groupName)"

definition GetPodGroupFullName :: "pod \<Rightarrow> string" where
  "GetPodGroupFullName p = Namespace p @ ''/'' @ GetPodGroupName p"

text \<open>
  The size comes with the pod, because the function stores the default \<open>"1"\<close> in the pod's own
  label map; the write panics when that map is nil.
\<close>

definition GetPodGroupSize :: "pod \<Rightarrow> ((goerror + int) \<times> pod) outcome" where
  "GetPodGroupSize p =
     bind_outcome
       (case map_get (Labels p) PodGroupSizeLabel of
          Some groupSize \<Rightarrow> Returns (groupSize, p)
        | None \<Rightarrow>
            bind_outcome (map_put (Labels p) PodGroupSizeLabel ''1'')
              (\<lambda>ls. Returns (''1'', p\<lparr>Labels := ls\<rparr>)))
       (\<lambda>(groupSize, p'). Returns (ParseInt 32 groupSize, p'))"

definition GetPodGroupDuration :: "pod \<Rightarrow> int" where
  "GetPodGroupDuration p =
     (case ActiveDeadlineSeconds p of
        Some d \<Rightarrow> if 0 < d then d else 0
      | None \<Rightarrow> 0)"

text \<open>\<open>now\<close> is the result of the \<open>time.Now()\<close> call the function falls back to.\<close>

definition GetPodCreationTimestamp :: "int \<Rightarrow> pod \<Rightarrow> int" where
  "GetPodCreationTimestamp now p =
     (case CreationTimestamp p of Some ts \<Rightarrow> ts | None \<Rightarrow> now)"

text \<open>
  \<open>AddDeadline\<close>: what it asks the API server to patch. \<open>patch\<close> is the whole exchange with the
  cluster (client construction and the merge patch of the named pod), not under src/.
\<close>

definition deadline_payload :: string where
  "deadline_payload = ''{\"spec\": {\"activeDeadlineSeconds\": 3600}''"

definition AddDeadline ::
  "(string \<Rightarrow> string \<Rightarrow> string \<Rightarrow> goerror option) \<Rightarrow> pod \<Rightarrow> goerror option" where
  "AddDeadline patch p =
     (case ActiveDeadlineSeconds p of
        None \<Rightarrow> None
      | Some d \<Rightarrow> if 0 < d then None else patch (Namespace p) (Name p) deadline_payload)"

section \<open>Lemmas\<close>

lemma GetPodGroupName_nonempty: "GetPodGroupName p \<noteq> []"
  by (simp add: GetPodGroupName_def Let_def)

lemma GetPodGroupDuration_nonneg: "0 \<le> GetPodGroupDuration p"
  by (simp add: GetPodGroupDuration_def split: option.splits)

lemma GetPodGroupSize_unlabelled_panics:
  "Labels p = None \<Longrightarrow> GetPodGroupSize p = Panics ''assignment to entry in nil map''"
  by (simp add: GetPodGroupSize_def map_get_def map_put_def)

lemma GetPodGroupSize_labelled:
  "map_get (Labels p) PodGroupSizeLabel = Some s \<Longrightarrow> GetPodGroupSize p = Returns (ParseInt 32 s, p)"
  by (simp add: GetPodGroupSize_def)

lemma ParseInt_one: "ParseInt 32 ''1'' = Inr 1"
  by (simp add: ParseInt_def ParseUint_def is_digit_def digit_val_def Let_def)

lemma GetPodGroupSize_default:
  assumes "Labels p = Some kvs" and "map_get (Labels p) PodGroupSizeLabel = None"
  shows "\<exists>ls. GetPodGroupSize p = Returns (Inr 1, p\<lparr>Labels := ls\<rparr>) \<and>
    map_get ls PodGroupSizeLabel = Some ''1'' \<and>
    (\<forall>k. k \<noteq> PodGroupSizeLabel \<longrightarrow> map_get ls k = map_get (Labels p) k)"
proof -
  obtain ls where put: "map_put (Labels p) PodGroupSizeLabel ''1'' = Returns ls"
    using assms(1) by (simp add: map_put_def)
  then show ?thesis
    using assms map_put_get [OF put] by (auto simp: GetPodGroupSize_def ParseInt_one)
qed

lemma GetPodGroupSize_range:
  "GetPodGroupSize p = Returns (Inr n, p') \<Longrightarrow> int4_range n"
  using ParseInt_range [of 32]
  by (fastforce simp: GetPodGroupSize_def int4_range_def bind_outcome_Returns_iff
      split: option.splits)

lemma GetPodGroupSize_frame:
  "GetPodGroupSize p = Returns (r, p') \<Longrightarrow> p' = p\<lparr>Labels := Labels p'\<rparr>"
  by (auto simp: GetPodGroupSize_def bind_outcome_Returns_iff split: option.splits)

lemma GetPodGroupSize_panics_iff:
  "(\<exists>msg. GetPodGroupSize p = Panics msg) \<longleftrightarrow> Labels p = None"
proof (cases "Labels p")
  case None
  then show ?thesis using GetPodGroupSize_unlabelled_panics by auto
next
  case (Some kvs)
  then show ?thesis
    by (auto simp: GetPodGroupSize_def map_put_def split: option.splits)
qed

end
