(* ===== verification/Proto.thy ===== *)
theory Proto
  imports Kube
begin

text \<open>
  The messages of \<open>fluxion.proto\<close> as the generated Go structs of
  \<open>src/fluxnetes/pkg/fluxion-grpc/fluxion.pb.go\<close> hold them, without the bookkeeping fields of
  the protobuf runtime. An \<open>int32\<close> field that the code computes with is a word.
\<close>

record PodSpec =
  ps_Id :: string
  ps_Container :: string
  ps_Cpu :: int32
  ps_Memory :: int64
  ps_Gpu :: int64
  ps_Storage :: int64
  ps_Labels :: "string list"

record MatchRequest =
  mr_Podspec :: PodSpec
  mr_Count :: int
  mr_Reserve :: bool
  mr_JobName :: string

record NodeAlloc =
  na_NodeID :: string
  na_Tasks :: int

record MatchResponse =
  mp_FluxID :: uint64
  mp_Nodelist :: "NodeAlloc list"
  mp_Reserved :: bool
  mp_ReservedAt :: int
  mp_Allocated :: bool

record CancelRequest =
  cr_FluxID :: uint64
  cr_NoExistOK :: bool

record CancelResponse =
  cp_FluxID :: uint64
  cp_Error :: int

text \<open>The zero \<open>MatchResponse\<close>, which Go writes \<open>&pb.MatchResponse{}\<close>.\<close>

definition empty_MatchResponse :: MatchResponse where
  "empty_MatchResponse =
     \<lparr>mp_FluxID = 0, mp_Nodelist = [], mp_Reserved = False, mp_ReservedAt = 0, mp_Allocated = False\<rparr>"

end
