(* ===== verification/Tables.thy ===== *)
theory Tables
  imports PodGroups Proto
begin

text \<open>
  The database: the tables of \<open>src/build/postgres/create-tables.sql\<close> together with river's job
  table, and the statements of \<open>kubernetes/pkg/fluxnetes/queries/queries.go\<close> as functions on
  them. A table is the list of its rows in physical order. The \<open>INTEGER\<close> columns reject values
  outside 32 bits, as PostgreSQL does, instead of wrapping. \<open>world\<close> adds what the code changes
  outside the database and the script of failures: every call over the network takes the next
  entry of \<open>tape\<close>, and fails without effect when that entry is an error.
\<close>

section \<open>Rows and tables\<close>

record pod_row =
  pr_podspec :: string
  pr_namespace :: string
  pr_name :: string
  pr_duration :: int
  pr_created_at :: int
  pr_group_name :: string

record group_row =
  gr_podspec :: string
  gr_namespace :: string
  gr_duration :: int
  gr_created_at :: int
  gr_group_name :: string
  gr_group_size :: int
  gr_current_size :: int

record reservation_row =
  rv_group_name :: string
  rv_flux_id :: int

record pending_row =
  pq_group_name :: string
  pq_namespace :: string
  pq_group_size :: int
  pq_flux_id :: "int option"

text \<open>A JSON document; the members of an object in order.\<close>

datatype json = JNull | JBool bool | JInt int | JStr string | JArr "json list" | JObj "(string \<times> json) list"

type_synonym json_object = "(string \<times> json) list"

text \<open>A row of river's \<open>river_job\<close> table: the columns the code sets or reads.\<close>

record river_row =
  rj_id :: nat
  rj_kind :: string
  rj_args :: json_object
  rj_queue :: string
  rj_tags :: "string list"
  rj_max_attempts :: int
  rj_scheduled_at :: "int option"

record tables =
  pods_provisional :: "pod_row list"
  groups_provisional :: "group_row list"
  reservations :: "reservation_row list"
  pending_queue :: "pending_row list"
  river_job :: "river_row list"

text \<open>The requests that ask for a change: a deletion by the API server (kind, namespace, name), a cancel
  by Fluxion.\<close>

datatype request = SentDelete string string string | SentCancel CancelRequest

record world =
  tables :: tables
  tape :: "goerror option list"
  sent :: "request list"        \<comment> \<open>those that reached the other end, granted or refused, oldest first\<close>

text \<open>The columns of the three unique indexes.\<close>

definition pod_key :: "pod_row \<Rightarrow> string \<times> string \<times> string" where
  "pod_key r = (pr_group_name r, pr_namespace r, pr_name r)"

definition group_key :: "group_row \<Rightarrow> string \<times> string" where
  "group_key r = (gr_group_name r, gr_namespace r)"

definition pending_key :: "pending_row \<Rightarrow> string \<times> string" where
  "pending_key r = (pq_group_name r, pq_namespace r)"

section \<open>Statement texts\<close>

text \<open>
  The statements that are completed with \<open>fmt.Sprintf\<close>, and the two that the code sends in a
  form PostgreSQL's driver does not take (see \<open>Workers\<close> and \<open>Strategy\<close>).
\<close>

definition InsertIntoProvisionalQuery :: string where
  "InsertIntoProvisionalQuery = ''insert into pods_provisional (podspec, namespace, name, duration, group_name, created_at) select '%s', '%s', '%s', %d, '%s', $1 where not exists (select (group_name, name, namespace) from pods_provisional where group_name = '%s' and namespace = '%s' and name = '%s');''"

definition InsertIntoGroupProvisional :: string where
  "InsertIntoGroupProvisional = ''insert into groups_provisional (group_name, namespace, group_size, duration, podspec, current_size, created_at) select '%s', '%s', '%d', '%d', '%s', '1', $1 WHERE NOT EXISTS (SELECT (group_name, namespace) FROM groups_provisional WHERE group_name = '%s' and namespace = '%s');''"

definition IncrementGroupProvisional :: string where
  "IncrementGroupProvisional = ''update groups_provisional set current_size = current_size + 1 where group_name = '%s' and namespace = '%s';''"

definition InsertIntoPending :: string where
  "InsertIntoPending = ''insert into pending_queue (group_name, namespace, group_size) SELECT '%s', '%s', '%d' WHERE NOT EXISTS (SELECT (group_name, namespace) FROM pending_queue WHERE group_name = '%s' and namespace = '%s');''"

definition DeleteProvisionalGroupsQuery :: string where
  "DeleteProvisionalGroupsQuery = ''delete from groups_provisional where %s;''"

definition DeleteReservationsQuery :: string where
  "DeleteReservationsQuery = ''truncate reservations; delete from reservations;''"

text \<open>\<open>fmt.Sprintf\<close> for \<open>%s\<close> and \<open>%d\<close>, the arguments already printed.\<close>

fun sprintf :: "string \<Rightarrow> string list \<Rightarrow> string" where
  "sprintf [] args = []"
| "sprintf [c] args = [c]"
| "sprintf (c # v # rest) args =
     (if c = CHR ''%'' \<and> (v = CHR ''s'' \<or> v = CHR ''d'')
      then (case args of
              [] \<Rightarrow> ''%!'' @ [v] @ ''(MISSING)'' @ sprintf rest []
            | a # as \<Rightarrow> a @ sprintf rest as)
      else c # sprintf (v # rest) args)"

text \<open>How many parameters \<open>$1\<close>, \<open>$2\<close>, \<open>...\<close> a statement text has: the largest index in it (one digit).\<close>

fun placeholders :: "string \<Rightarrow> nat" where
  "placeholders [] = 0"
| "placeholders [c] = 0"
| "placeholders (c # d # rest) =
     (if c = CHR ''$'' \<and> is_digit d then max (digit_val d) (placeholders (d # rest))
      else placeholders (d # rest))"

text \<open>
  A value between quotes in a statement text denotes itself exactly when it holds no quote
  (\<open>standard_conforming_strings\<close> is on by default, so a backslash is an ordinary character).
  \<open>lex_literal\<close> reads a quoted constant the way PostgreSQL does: a doubled quote is one quote.
\<close>

definition lit_ok :: "string \<Rightarrow> bool" where
  "lit_ok v \<longleftrightarrow> CHR 0x27 \<notin> set v"

fun lex_body :: "string \<Rightarrow> (string \<times> string) option" where
  "lex_body [] = None"
| "lex_body (c # cs) =
     (if c \<noteq> CHR 0x27 then map_option (\<lambda>(v, r). (c # v, r)) (lex_body cs)
      else (case cs of
              [] \<Rightarrow> Some ([], [])
            | d # ds \<Rightarrow> if d = CHR 0x27 then map_option (\<lambda>(v, r). (d # v, r)) (lex_body ds)
                        else Some ([], cs)))"

definition lex_literal :: "string \<Rightarrow> (string \<times> string) option" where
  "lex_literal s = (case s of [] \<Rightarrow> None | c # cs \<Rightarrow> if c = CHR 0x27 then lex_body cs else None)"

definition quoted :: "string \<Rightarrow> string" where
  "quoted v = CHR 0x27 # v @ [CHR 0x27]"

lemma lex_body_plain:
  assumes "lit_ok v" and "rest = [] \<or> hd rest \<noteq> CHR 0x27"
  shows "lex_body (v @ CHR 0x27 # rest) = Some (v, rest)"
  using assms
proof (induction v)
  case Nil
  then show ?case by (cases rest) auto
next
  case (Cons c v)
  then show ?case by (auto simp: lit_ok_def)
qed

lemma lex_quoted:
  "lit_ok v \<Longrightarrow> rest = [] \<or> hd rest \<noteq> CHR 0x27 \<Longrightarrow> lex_literal (quoted v @ rest) = Some (v, rest)"
  by (simp add: lex_literal_def quoted_def lex_body_plain)

section \<open>Statements and their effect\<close>

text \<open>
  \<open>stmt\<close> is what a completed template denotes when its values are plain literals. \<open>run_stmt\<close> is
  its effect; the casts of the integer constants are made when the statement is planned, so an
  integer out of range is an error even where the \<open>NOT EXISTS\<close> leaves nothing to insert.
\<close>

datatype stmt =
    InsertProvisional string string string int string int
      \<comment> \<open>podspec, namespace, name, duration, group name, created at\<close>
  | IncrementGroup string string
  | InsertGroup string string int int string int
      \<comment> \<open>group name, namespace, group size, duration, podspec, created at\<close>
  | InsertPendingGroup string string int
  | DeleteGroups "(string \<times> string) list"

fun where_clause :: "(string \<times> string) list \<Rightarrow> string" where
  "where_clause [] = []"
| "where_clause [(g, ns)] = ''(group_name = '' @ quoted g @ '' and namespace='' @ quoted ns @ '')''"
| "where_clause ((g, ns) # rest) =
     ''(group_name = '' @ quoted g @ '' and namespace='' @ quoted ns @ '')'' @ '' or '' @ where_clause rest"

fun stmt_text :: "stmt \<Rightarrow> string" where
  "stmt_text (InsertProvisional podspec ns name dur g ts) =
     sprintf InsertIntoProvisionalQuery [podspec, ns, name, show_int dur, g, g, ns, name]"
| "stmt_text (IncrementGroup g ns) = sprintf IncrementGroupProvisional [g, ns]"
| "stmt_text (InsertGroup g ns sz dur podspec ts) =
     sprintf InsertIntoGroupProvisional [g, ns, show_int sz, show_int dur, podspec, g, ns]"
| "stmt_text (InsertPendingGroup g ns sz) =
     sprintf InsertIntoPending [g, ns, show_int sz, g, ns]"
| "stmt_text (DeleteGroups ks) = sprintf DeleteProvisionalGroupsQuery [where_clause ks]"

fun stmt_literals :: "stmt \<Rightarrow> string list" where
  "stmt_literals (InsertProvisional podspec ns name dur g ts) = [podspec, ns, name, g]"
| "stmt_literals (IncrementGroup g ns) = [g, ns]"
| "stmt_literals (InsertGroup g ns sz dur podspec ts) = [g, ns, podspec]"
| "stmt_literals (InsertPendingGroup g ns sz) = [g, ns]"
| "stmt_literals (DeleteGroups ks) = concat (map (\<lambda>(g, ns). [g, ns]) ks)"

text \<open>A statement is well formed when its literals are plain and a delete names a group.\<close>

definition stmt_ok :: "stmt \<Rightarrow> bool" where
  "stmt_ok st \<longleftrightarrow> list_all lit_ok (stmt_literals st) \<and> st \<noteq> DeleteGroups []"

definition out_of_range :: goerror where
  "out_of_range = GoErr ''integer out of range''"

definition insert_pod :: "pod_row \<Rightarrow> pod_row list \<Rightarrow> pod_row list" where
  "insert_pod r t = (if \<exists>x \<in> set t. pod_key x = pod_key r then t else t @ [r])"

definition insert_group :: "group_row \<Rightarrow> group_row list \<Rightarrow> group_row list" where
  "insert_group r t = (if \<exists>x \<in> set t. group_key x = group_key r then t else t @ [r])"

definition insert_pending :: "pending_row \<Rightarrow> pending_row list \<Rightarrow> pending_row list" where
  "insert_pending r t = (if \<exists>x \<in> set t. pending_key x = pending_key r then t else t @ [r])"

definition increment_group :: "string \<times> string \<Rightarrow> group_row list \<Rightarrow> group_row list" where
  "increment_group k t =
     map (\<lambda>r. if group_key r = k then r\<lparr>gr_current_size := gr_current_size r + 1\<rparr> else r) t"

definition delete_groups :: "(string \<times> string) set \<Rightarrow> group_row list \<Rightarrow> group_row list" where
  "delete_groups ks t = filter (\<lambda>r. group_key r \<notin> ks) t"

definition delete_pending :: "(string \<times> string) set \<Rightarrow> pending_row list \<Rightarrow> pending_row list" where
  "delete_pending ks t = filter (\<lambda>r. pending_key r \<notin> ks) t"

definition set_flux_id :: "string \<times> string \<Rightarrow> int \<Rightarrow> pending_row list \<Rightarrow> pending_row list" where
  "set_flux_id k i t = map (\<lambda>r. if pending_key r = k then r\<lparr>pq_flux_id := Some i\<rparr> else r) t"

fun run_stmt :: "stmt \<Rightarrow> tables \<Rightarrow> goerror + tables" where
  "run_stmt (InsertProvisional podspec ns name dur g ts) t =
     (if \<not> int4_range dur then Inl out_of_range
      else Inr (t\<lparr>pods_provisional :=
             insert_pod \<lparr>pr_podspec = podspec, pr_namespace = ns, pr_name = name,
                 pr_duration = dur, pr_created_at = ts, pr_group_name = g\<rparr> (pods_provisional t)\<rparr>))"
| "run_stmt (IncrementGroup g ns) t =
     (if \<exists>r \<in> set (groups_provisional t). group_key r = (g, ns) \<and> \<not> int4_range (gr_current_size r + 1)
      then Inl out_of_range
      else Inr (t\<lparr>groups_provisional := increment_group (g, ns) (groups_provisional t)\<rparr>))"
| "run_stmt (InsertGroup g ns sz dur podspec ts) t =
     (if \<not> int4_range sz \<or> \<not> int4_range dur then Inl out_of_range
      else Inr (t\<lparr>groups_provisional :=
             insert_group \<lparr>gr_podspec = podspec, gr_namespace = ns, gr_duration = dur,
                 gr_created_at = ts, gr_group_name = g, gr_group_size = sz,
                 gr_current_size = 1\<rparr> (groups_provisional t)\<rparr>))"
| "run_stmt (InsertPendingGroup g ns sz) t =
     (if \<not> int4_range sz then Inl out_of_range
      else Inr (t\<lparr>pending_queue :=
             insert_pending \<lparr>pq_group_name = g, pq_namespace = ns, pq_group_size = sz,
                 pq_flux_id = None\<rparr> (pending_queue t)\<rparr>))"
| "run_stmt (DeleteGroups ks) t =
     Inr (t\<lparr>groups_provisional := delete_groups (set ks) (groups_provisional t)\<rparr>)"

text \<open>
  What the model takes from PostgreSQL and its driver without defining it: the command tag of a
  \<open>select\<close> of so many rows, the effect of a text that is not one of the statements above (with
  its parameters), and the order in which rows come when the statement does not say. The order
  of a \<open>select\<close> is any permutation of the rows it selects.
\<close>

record dbenv =
  select_tag :: "nat \<Rightarrow> string"
  raw_sql :: "string \<Rightarrow> string list \<Rightarrow> tables \<Rightarrow> goerror option \<times> tables"
  scan_pods :: "pod_row list \<Rightarrow> pod_row list"
  scan_groups :: "group_row list \<Rightarrow> group_row list"
  scan_created :: "int \<Rightarrow> goerror + int"   \<comment> \<open>a timestamp read into a \<open>metav1.MicroTime\<close>\<close>

definition scans_ok :: "dbenv \<Rightarrow> bool" where
  "scans_ok E \<longleftrightarrow> (\<forall>rs. mset (scan_pods E rs) = mset rs) \<and> (\<forall>rs. mset (scan_groups E rs) = mset rs)"

text \<open>The documented tag of a \<open>select\<close>: the word and the number of rows.\<close>

definition tag_documented :: "dbenv \<Rightarrow> bool" where
  "tag_documented E \<longleftrightarrow> (\<forall>n. select_tag E n = ''SELECT '' @ show_nat n)"

text \<open>The driver refuses a call with another number of arguments than the text has parameters.\<close>

definition arity_checked :: "dbenv \<Rightarrow> bool" where
  "arity_checked E \<longleftrightarrow>
     (\<forall>q args t. placeholders q \<noteq> length args \<longrightarrow> (\<exists>e. raw_sql E q args t = (Some e, t)))"

section \<open>Calls over the network\<close>

text \<open>One call: it takes the next entry of the tape; an error there means it had no effect.\<close>

definition net_call :: "(world \<Rightarrow> (goerror + 'a) \<times> world) \<Rightarrow> world \<Rightarrow> (goerror + 'a) \<times> world" where
  "net_call f w =
     (case tape w of
        [] \<Rightarrow> f w
      | None # rest \<Rightarrow> f (w\<lparr>tape := rest\<rparr>)
      | Some e # rest \<Rightarrow> (Inl e, w\<lparr>tape := rest\<rparr>))"

definition lift_tables :: "(tables \<Rightarrow> goerror + (tables \<times> 'a)) \<Rightarrow> world \<Rightarrow> (goerror + 'a) \<times> world" where
  "lift_tables f w =
     (case f (tables w) of
        Inl e \<Rightarrow> (Inl e, w)
      | Inr (t, x) \<Rightarrow> (Inr x, w\<lparr>tables := t\<rparr>))"

text \<open>\<open>pgxpool.New\<close> and other calls with no result beyond success.\<close>

definition call_ok :: "world \<Rightarrow> (goerror + unit) \<times> world" where
  "call_ok = net_call (\<lambda>w. (Inr (), w))"

text \<open>A query that reads the tables.\<close>

definition query :: "(tables \<Rightarrow> goerror + 'a) \<Rightarrow> world \<Rightarrow> (goerror + 'a) \<times> world" where
  "query f = net_call (\<lambda>w. (f (tables w), w))"

text \<open>\<open>pool.Exec\<close> of a formatted statement, and of a text the model gives no meaning to.\<close>

definition exec_raw :: "dbenv \<Rightarrow> string \<Rightarrow> string list \<Rightarrow> tables \<Rightarrow> goerror + (tables \<times> unit)" where
  "exec_raw E q args t =
     (case raw_sql E q args t of (None, t') \<Rightarrow> Inr (t', ()) | (Some e, t') \<Rightarrow> Inl e)"

definition exec_stmt :: "dbenv \<Rightarrow> stmt \<Rightarrow> tables \<Rightarrow> goerror + (tables \<times> unit)" where
  "exec_stmt E st t =
     (if stmt_ok st
      then (case run_stmt st t of Inl e \<Rightarrow> Inl e | Inr t' \<Rightarrow> Inr (t', ()))
      else exec_raw E (stmt_text st) [] t)"

definition pool_exec :: "dbenv \<Rightarrow> stmt \<Rightarrow> world \<Rightarrow> (goerror + unit) \<times> world" where
  "pool_exec E st = net_call (lift_tables (exec_stmt E st))"

definition pool_exec_raw :: "dbenv \<Rightarrow> string \<Rightarrow> string list \<Rightarrow> world \<Rightarrow> (goerror + unit) \<times> world" where
  "pool_exec_raw E q args = net_call (lift_tables (exec_raw E q args))"

text \<open>An update of the tables whose statement carries its values as parameters.\<close>

definition pool_update :: "(tables \<Rightarrow> goerror + tables) \<Rightarrow> world \<Rightarrow> (goerror + unit) \<times> world" where
  "pool_update f =
     net_call (lift_tables (\<lambda>t. case f t of Inl e \<Rightarrow> Inl e | Inr t' \<Rightarrow> Inr (t', ())))"

end
