(* ===== verification/TableLaws.thy ===== *)
theory TableLaws
  imports Tables
begin

text \<open>
  What a table with a unique key promises, as a contract over the finite map from keys to rows
  it stands for: \<open>keyed_store\<close> for insert-unless-present and delete, \<open>updatable_store\<close> for an
  update of the row of one key besides. The three tables with a unique index implement it;
  the components above use the map and never the list of rows.
\<close>

definition row_of :: "('r \<Rightarrow> 'k) \<Rightarrow> 'r list \<Rightarrow> ('k \<rightharpoonup> 'r)" where
  "row_of key t = map_of (map (\<lambda>r. (key r, r)) t)"

section \<open>The contracts\<close>

locale keyed_store =
  fixes key :: "'r \<Rightarrow> 'k"
    and inv :: "'t \<Rightarrow> bool"
    and lookup :: "'t \<Rightarrow> 'k \<Rightarrow> 'r option"
    and ins :: "'r \<Rightarrow> 't \<Rightarrow> 't"
    and del :: "'k set \<Rightarrow> 't \<Rightarrow> 't"
  assumes inv_ins: "inv t \<Longrightarrow> inv (ins r t)"
    and inv_del: "inv t \<Longrightarrow> inv (del K t)"
    and lookup_key: "lookup t k = Some r \<Longrightarrow> key r = k"
    and lookup_ins: "lookup (ins r t) =
      (case lookup t (key r) of None \<Rightarrow> (lookup t)(key r \<mapsto> r) | Some _ \<Rightarrow> lookup t)"
    and lookup_del: "inv t \<Longrightarrow> lookup (del K t) = lookup t |` (- K)"
begin

lemma ins_fresh: "lookup t (key r) = None \<Longrightarrow> lookup (ins r t) = (lookup t)(key r \<mapsto> r)"
  by (simp add: lookup_ins)

lemma ins_present: "lookup t (key r) \<noteq> None \<Longrightarrow> lookup (ins r t) = lookup t"
  by (auto simp: lookup_ins)

lemma dom_ins: "dom (lookup (ins r t)) = insert (key r) (dom (lookup t))"
  by (auto simp: lookup_ins split: option.splits)

lemma ins_keeps: "lookup t k = Some x \<Longrightarrow> lookup (ins r t) k = Some x"
  by (auto simp: lookup_ins split: option.splits)

lemma ins_twice: "lookup (ins r (ins r t)) = lookup (ins r t)"
  by (auto simp: lookup_ins split: option.splits)

lemma inv_fold_ins: "inv t \<Longrightarrow> inv (fold ins rs t)"
  by (induction rs arbitrary: t) (auto intro: inv_ins)

lemma dom_fold_ins: "dom (lookup (fold ins rs t)) = key ` set rs \<union> dom (lookup t)"
  by (induction rs arbitrary: t) (auto simp: dom_ins)

lemma fold_ins_keeps: "lookup t k = Some x \<Longrightarrow> lookup (fold ins rs t) k = Some x"
  by (induction rs arbitrary: t) (auto intro: ins_keeps)

lemma dom_del: "inv t \<Longrightarrow> dom (lookup (del K t)) = dom (lookup t) - K"
  by (auto simp: lookup_del restrict_map_def split: if_splits)

lemma ins_after_del:
  "inv t \<Longrightarrow> key r \<in> K \<Longrightarrow> lookup (ins r (del K t)) (key r) = Some r"
  by (simp add: lookup_ins lookup_del restrict_map_def)

end

locale updatable_store = keyed_store key inv lookup ins del
  for key :: "'r \<Rightarrow> 'k"
    and inv :: "'t \<Rightarrow> bool"
    and lookup :: "'t \<Rightarrow> 'k \<Rightarrow> 'r option"
    and ins :: "'r \<Rightarrow> 't \<Rightarrow> 't"
    and del :: "'k set \<Rightarrow> 't \<Rightarrow> 't" +
  fixes change :: "'r \<Rightarrow> 'r"
    and upd :: "'k \<Rightarrow> 't \<Rightarrow> 't"
  assumes inv_upd: "inv t \<Longrightarrow> inv (upd k t)"
    and lookup_upd: "lookup (upd k t) = (lookup t)(k := map_option change (lookup t k))"
begin

lemma dom_upd: "dom (lookup (upd k t)) = dom (lookup t)"
  by (auto simp: lookup_upd dom_def)

lemma upd_other: "k' \<noteq> k \<Longrightarrow> lookup (upd k t) k' = lookup t k'"
  by (simp add: lookup_upd)

text \<open>Updating the row of a key and then inserting one for it unless present: the row is
  changed when it exists and created otherwise, never both.\<close>

lemma lookup_upd_ins:
  "lookup (ins r (upd (key r) t)) =
     (lookup t)(key r \<mapsto> (case lookup t (key r) of None \<Rightarrow> r | Some x \<Rightarrow> change x))"
  by (auto simp: lookup_ins lookup_upd fun_eq_iff split: option.splits)

lemma inv_upd_ins: "inv t \<Longrightarrow> inv (ins r (upd k t))"
  by (intro inv_ins inv_upd)

end

section \<open>Rows as maps\<close>

lemma row_of_Some: "row_of key t k = Some r \<Longrightarrow> r \<in> set t \<and> key r = k"
  by (auto simp: row_of_def dest!: map_of_SomeD)

lemma row_of_None: "row_of key t k = None \<longleftrightarrow> (\<forall>r \<in> set t. key r \<noteq> k)"
  by (auto simp: row_of_def map_of_eq_None_iff image_image)

lemma row_of_iff:
  "distinct (map key t) \<Longrightarrow> row_of key t k = Some r \<longleftrightarrow> r \<in> set t \<and> key r = k"
  by (induction t) (auto simp: row_of_def rev_image_eqI dest: map_of_SomeD)

lemma dom_row_of: "dom (row_of key t) = key ` set t"
  by (simp add: row_of_def dom_map_of_conv_image_fst image_image)

lemma row_of_fresh: "row_of key t (key r) = None \<Longrightarrow> key r \<notin> key ` set t"
  by (auto simp: row_of_None)

lemma row_of_append1:
  "row_of key (t @ [r]) =
     (case row_of key t (key r) of None \<Rightarrow> (row_of key t)(key r \<mapsto> r) | Some _ \<Rightarrow> row_of key t)"
  by (auto simp: row_of_def map_add_def fun_eq_iff split: option.splits)

lemma row_of_ex: "(\<exists>x \<in> set t. key x = key r) \<longleftrightarrow> row_of key t (key r) \<noteq> None"
  using row_of_None [of key t "key r"] by auto

lemma row_of_filter:
  "distinct (map key t) \<Longrightarrow> row_of key (filter (\<lambda>r. key r \<notin> K) t) = row_of key t |` (- K)"
  by (induction t) (auto simp: row_of_def restrict_map_def fun_eq_iff map_of_eq_None_iff
      split: if_splits)

lemma row_of_map_update:
  assumes "\<And>r. key (f r) = key r"
  shows "row_of key (map (\<lambda>r. if key r = k then f r else r) t) =
    (row_of key t)(k := map_option f (row_of key t k))"
  by (induction t) (auto simp: row_of_def fun_eq_iff assms)

section \<open>The tables implement the contracts\<close>

definition unique_pods :: "pod_row list \<Rightarrow> bool" where
  "unique_pods t \<longleftrightarrow> distinct (map pod_key t)"

definition unique_groups :: "group_row list \<Rightarrow> bool" where
  "unique_groups t \<longleftrightarrow> distinct (map group_key t)"

definition unique_pending :: "pending_row list \<Rightarrow> bool" where
  "unique_pending t \<longleftrightarrow> distinct (map pending_key t)"

definition delete_pods :: "(string \<times> string \<times> string) set \<Rightarrow> pod_row list \<Rightarrow> pod_row list" where
  "delete_pods ks t = filter (\<lambda>r. pod_key r \<notin> ks) t"

text \<open>No \<open>DELETE\<close> on the pods table is ever sent (\<open>DeleteProvisionalPodsQuery\<close> has no use), so
  \<open>delete_pods\<close> only completes the contract.\<close>

interpretation podt: keyed_store pod_key unique_pods "row_of pod_key" insert_pod delete_pods
  by unfold_locales
    (auto simp: unique_pods_def insert_pod_def delete_pods_def row_of_append1 row_of_ex
      row_of_filter distinct_map_filter_key dest: row_of_Some row_of_fresh split: option.splits)

interpretation groupt: updatable_store group_key unique_groups "row_of group_key"
  insert_group delete_groups "\<lambda>r. r\<lparr>gr_current_size := gr_current_size r + 1\<rparr>" increment_group
proof unfold_locales
  fix t k
  show "row_of group_key (increment_group k t) = (row_of group_key t)(k :=
      map_option (\<lambda>r. r\<lparr>gr_current_size := gr_current_size r + 1\<rparr>) (row_of group_key t k))"
    unfolding increment_group_def by (rule row_of_map_update) (simp add: group_key_def)
  have "map group_key (increment_group k t) = map group_key t"
    by (auto simp: increment_group_def group_key_def)
  then show "unique_groups t \<Longrightarrow> unique_groups (increment_group k t)"
    by (simp add: unique_groups_def)
qed (auto simp: unique_groups_def insert_group_def delete_groups_def row_of_append1 row_of_ex
      row_of_filter distinct_map_filter_key dest: row_of_Some row_of_fresh split: option.splits)

interpretation pendt: updatable_store pending_key unique_pending "row_of pending_key"
  insert_pending delete_pending "\<lambda>r. r\<lparr>pq_flux_id := Some i\<rparr>" "\<lambda>k. set_flux_id k i" for i
proof unfold_locales
  fix t k
  show "row_of pending_key (set_flux_id k i t) = (row_of pending_key t)(k :=
      map_option (\<lambda>r. r\<lparr>pq_flux_id := Some i\<rparr>) (row_of pending_key t k))"
    unfolding set_flux_id_def by (rule row_of_map_update) (simp add: pending_key_def)
  have "map pending_key (set_flux_id k i t) = map pending_key t"
    by (auto simp: set_flux_id_def pending_key_def)
  then show "unique_pending t \<Longrightarrow> unique_pending (set_flux_id k i t)"
    by (simp add: unique_pending_def)
qed (auto simp: unique_pending_def insert_pending_def delete_pending_def row_of_append1 row_of_ex
      row_of_filter distinct_map_filter_key dest: row_of_Some row_of_fresh split: option.splits)

section \<open>The unique indexes as an invariant of the tables\<close>

definition tables_ok :: "tables \<Rightarrow> bool" where
  "tables_ok t \<longleftrightarrow> unique_pods (pods_provisional t) \<and> unique_groups (groups_provisional t) \<and>
     unique_pending (pending_queue t)"

lemma run_stmt_tables_ok: "run_stmt st t = Inr t' \<Longrightarrow> tables_ok t \<Longrightarrow> tables_ok t'"
  by (cases st)
    (auto simp: tables_ok_def podt.inv_ins groupt.inv_ins groupt.inv_upd groupt.inv_del
      pendt.inv_ins split: if_splits)

text \<open>PostgreSQL keeps its own unique indexes whatever the text.\<close>

definition raw_keeps :: "dbenv \<Rightarrow> bool" where
  "raw_keeps E \<longleftrightarrow>
     (\<forall>q args t. tables_ok t \<longrightarrow> tables_ok (snd (raw_sql E q args t)))"

lemma exec_stmt_tables_ok:
  "raw_keeps E \<Longrightarrow> exec_stmt E st t = Inr (t', u) \<Longrightarrow> tables_ok t \<Longrightarrow> tables_ok t'"
  unfolding exec_stmt_def exec_raw_def raw_keeps_def
  by (fastforce split: if_splits sum.splits prod.splits option.splits dest: run_stmt_tables_ok
      simp: prod_eq_iff)

section \<open>What a call over the network can do\<close>

text \<open>
  Each call either fails and leaves everything but the tape, or has its effect on the tables.
  These are the elimination rules every proof about a handler uses.
\<close>

definition put :: "goerror option list \<Rightarrow> tables \<Rightarrow> world \<Rightarrow> world" where
  "put ts t w = w\<lparr>tape := ts, tables := t\<rparr>"

lemma put_simps [simp]:
  "tables (put ts t w) = t"
  "tape (put ts t w) = ts"
  "sent (put ts t w) = sent w"
  "put ts t (put ts' t' w) = put ts t w"
  by (simp_all add: put_def)

lemma put_same: "put (tape w) (tables w) w = w"
  by (simp add: put_def)

lemma put_tape: "w\<lparr>tape := ts\<rparr> = put ts (tables w) w"
  by (simp add: put_def)

lemma put_tables: "w\<lparr>tables := t\<rparr> = put (tape w) t w"
  by (simp add: put_def)

lemma net_call_cases:
  assumes "net_call f w = (r, w')"
  obtains (failed) e ts where "r = Inl e" "w' = put ts (tables w) w"
    | (ok) ts where "f (put ts (tables w) w) = (r, w')"
proof (cases "tape w")
  case Nil
  then have "f (put [] (tables w) w) = f w" by (metis put_same)
  also have "\<dots> = (r, w')" using assms Nil by (simp add: net_call_def)
  finally have "f (put [] (tables w) w) = (r, w')" .
  then show ?thesis by (rule ok)
next
  case (Cons x rest)
  then show ?thesis using assms failed ok by (cases x) (auto simp: net_call_def put_tape)
qed

lemma call_ok_cases:
  assumes "call_ok w = (r, w')"
  obtains ts where "w' = put ts (tables w) w"
  using assms unfolding call_ok_def by (auto elim!: net_call_cases)

lemma query_cases:
  assumes "query f w = (r, w')"
  obtains (failed) e ts where "r = Inl e" "w' = put ts (tables w) w"
    | (ok) ts where "r = f (tables w)" "w' = put ts (tables w) w"
  using assms unfolding query_def by (auto elim!: net_call_cases)

lemma pool_update_cases:
  assumes "pool_update f w = (r, w')"
  obtains (failed) e ts where "r = Inl e" "w' = put ts (tables w) w"
    | (ok) t' ts where "r = Inr ()" "f (tables w) = Inr t'" "w' = put ts t' w"
  using assms unfolding pool_update_def
  by (auto elim!: net_call_cases simp: lift_tables_def put_tables split: sum.splits)

lemma pool_exec_cases:
  assumes "pool_exec E st w = (r, w')"
  obtains (failed) e ts where "r = Inl e" "w' = put ts (tables w) w"
    | (ok) t' ts where "r = Inr ()" "exec_stmt E st (tables w) = Inr (t', ())" "w' = put ts t' w"
  using assms unfolding pool_exec_def
  by (auto elim!: net_call_cases simp: lift_tables_def put_tables split: sum.splits prod.splits)

lemma exec_stmt_ok: "stmt_ok st \<Longrightarrow> exec_stmt E st t = Inr (t', ()) \<longleftrightarrow> run_stmt st t = Inr t'"
  by (auto simp: exec_stmt_def split: sum.splits)

text \<open>With an empty tape no call fails.\<close>

lemma quiet_calls [simp]:
  "tape w = [] \<Longrightarrow> net_call f w = f w"
  "tape w = [] \<Longrightarrow> call_ok w = (Inr (), w)"
  "tape w = [] \<Longrightarrow> query g w = (g (tables w), w)"
  by (simp_all add: net_call_def call_ok_def query_def)

lemma quiet_pool_exec:
  "tape w = [] \<Longrightarrow> stmt_ok st \<Longrightarrow> run_stmt st (tables w) = Inr t' \<Longrightarrow>
   pool_exec E st w = (Inr (), put [] t' w)"
  by (simp add: pool_exec_def lift_tables_def exec_stmt_def put_tables)

lemma quiet_pool_update:
  "tape w = [] \<Longrightarrow> f (tables w) = Inr t' \<Longrightarrow> pool_update f w = (Inr (), put [] t' w)"
  by (simp add: pool_update_def lift_tables_def put_tables)

end
