(* ===== verification/JobTypes.thy ===== *)
theory JobTypes
  imports TableLaws
begin

text \<open>
  The arguments of river jobs and their JSON form: \<open>JobArgs\<close> of
  \<open>kubernetes/pkg/fluxnetes/strategy/workers/job.go\<close>, \<open>CleanupArgs\<close> of \<open>workers/cleanup.go\<close>,
  and \<open>JobResult\<close> of \<open>kubernetes/pkg/fluxnetes/fluxnetes.go\<close>, which reads the arguments of a
  finished job back. A JSON object is its list of members; decoding goes by member name.
\<close>

record JobArgs =
  ja_Jobspec :: string
  ja_Podspec :: string
  ja_GroupName :: string
  ja_GroupSize :: int
  ja_Duration :: int
  ja_Namespace :: string
  ja_Reservation :: bool
  ja_Nodes :: string
  ja_Names :: string

definition JobArgs_Kind :: string where
  "JobArgs_Kind = ''job''"

definition encode_JobArgs :: "JobArgs \<Rightarrow> json_object" where
  "encode_JobArgs a =
     [(''jobspec'', JStr (ja_Jobspec a)), (''podspec'', JStr (ja_Podspec a)),
      (''groupName'', JStr (ja_GroupName a)), (''groupSize'', JInt (ja_GroupSize a)),
      (''duration'', JInt (ja_Duration a)), (''namespace'', JStr (ja_Namespace a)),
      (''reservation'', JBool (ja_Reservation a)), (''nodes'', JStr (ja_Nodes a)),
      (''names'', JStr (ja_Names a))]"

record CleanupArgs =
  ca_GroupName :: string
  ca_FluxID :: int
  ca_Podspec :: string
  ca_Kubernetes :: bool

definition CleanupArgs_Kind :: string where
  "CleanupArgs_Kind = ''cleanup''"

definition encode_CleanupArgs :: "CleanupArgs \<Rightarrow> json_object" where
  "encode_CleanupArgs a =
     [(''groupName'', JStr (ca_GroupName a)), (''fluxid'', JInt (ca_FluxID a)),
      (''podspec'', JStr (ca_Podspec a)), (''kubernetes'', JBool (ca_Kubernetes a))]"

record JobResult =
  jr_JobID :: int
  jr_Nodes :: string
  jr_PodID :: string
  jr_PodSpec :: string
  jr_Names :: string
  jr_Namespace :: string
  jr_GroupName :: string

definition type_error :: goerror where
  "type_error = GoErr ''json: cannot unmarshal value''"

fun str_member :: "json_object \<Rightarrow> string \<Rightarrow> goerror + string" where
  "str_member obj k =
     (case map_of obj k of None \<Rightarrow> Inr [] | Some (JStr s) \<Rightarrow> Inr s | Some _ \<Rightarrow> Inl type_error)"

fun int32_member :: "json_object \<Rightarrow> string \<Rightarrow> goerror + int" where
  "int32_member obj k =
     (case map_of obj k of
        None \<Rightarrow> Inr 0
      | Some (JInt i) \<Rightarrow> if int4_range i then Inr i else Inl type_error
      | Some _ \<Rightarrow> Inl type_error)"

definition decode_JobResult :: "json_object \<Rightarrow> goerror + JobResult" where
  "decode_JobResult obj =
     (case (int32_member obj ''jobid'', str_member obj ''nodes'', str_member obj ''podid'',
            str_member obj ''podspec'', str_member obj ''names'', str_member obj ''namespace'',
            str_member obj ''groupName'') of
        (Inr i, Inr nodes, Inr pid, Inr spec, Inr names, Inr ns, Inr g) \<Rightarrow>
          Inr \<lparr>jr_JobID = i, jr_Nodes = nodes, jr_PodID = pid, jr_PodSpec = spec,
               jr_Names = names, jr_Namespace = ns, jr_GroupName = g\<rparr>
      | _ \<Rightarrow> Inl type_error)"

definition GetNodes :: "JobResult \<Rightarrow> string list" where
  "GetNodes j = split_char (CHR '','') (jr_Nodes j)"

definition GetPodNames :: "JobResult \<Rightarrow> string list" where
  "GetPodNames j = split_char (CHR '','') (jr_Names j)"

text \<open>\<open>UpdateNodesQuery\<close>: \<open>jsonb_set(args, '{nodes}', to_jsonb($1::text)) where id=$2\<close>.\<close>

definition UpdateNodes :: "string \<Rightarrow> nat \<Rightarrow> river_row list \<Rightarrow> river_row list" where
  "UpdateNodes nodes jobid rows =
     map (\<lambda>r. if rj_id r = jobid
              then r\<lparr>rj_args := AList.update ''nodes'' (JStr nodes) (rj_args r)\<rparr> else r) rows"

section \<open>River's job table\<close>

text \<open>
  One entry of a river insert: the kind and encoded arguments of the job and the options the code
  sets. \<open>riverClient.InsertMany\<close> adds one row per entry, in order, with new ids; an insert of no
  entries is an error in river. \<open>MaxAttempts\<close> is \<open>defaults.MaxAttempts\<close>.
\<close>

record InsertParams =
  ip_kind :: string
  ip_args :: json_object
  ip_max_attempts :: int
  ip_tags :: "string list"
  ip_queue :: string
  ip_scheduled_at :: "int option"

definition MaxAttempts :: int where
  "MaxAttempts = 2 ^ 15 - 1"

definition next_job_id :: "river_row list \<Rightarrow> nat" where
  "next_job_id rows = Suc (Max (insert 0 (rj_id ` set rows)))"

fun insert_jobs :: "InsertParams list \<Rightarrow> river_row list \<Rightarrow> river_row list" where
  "insert_jobs [] rows = rows"
| "insert_jobs (p # ps) rows =
     insert_jobs ps (rows @ [\<lparr>rj_id = next_job_id rows, rj_kind = ip_kind p, rj_args = ip_args p,
       rj_queue = ip_queue p, rj_tags = ip_tags p, rj_max_attempts = ip_max_attempts p,
       rj_scheduled_at = ip_scheduled_at p\<rparr>])"

definition InsertMany :: "InsertParams list \<Rightarrow> tables \<Rightarrow> goerror + tables" where
  "InsertMany ps t =
     (if ps = [] then Inl (GoErr ''no jobs to insert'')
      else Inr (t\<lparr>river_job := insert_jobs ps (river_job t)\<rparr>))"

section \<open>Lemmas\<close>

lemma next_job_id_fresh: "r \<in> set rows \<Longrightarrow> rj_id r < next_job_id rows"
  by (auto simp: next_job_id_def less_Suc_eq_le intro: Max_ge)

lemma insert_jobs_extends: "\<exists>new. insert_jobs ps rows = rows @ new \<and> length new = length ps"
proof (induction ps arbitrary: rows)
  case Nil
  then show ?case by simp
next
  case (Cons p ps)
  obtain new where "insert_jobs (p # ps) rows = rows @ new" "length new = Suc (length ps)"
    using Cons [of "rows @ [\<lparr>rj_id = next_job_id rows, rj_kind = ip_kind p, rj_args = ip_args p,
       rj_queue = ip_queue p, rj_tags = ip_tags p, rj_max_attempts = ip_max_attempts p,
       rj_scheduled_at = ip_scheduled_at p\<rparr>]"] by auto
  then show ?case by auto
qed

lemma insert_jobs_args: "map rj_args (insert_jobs ps rows) = map rj_args rows @ map ip_args ps"
  by (induction ps arbitrary: rows) auto

lemma insert_jobs_queue: "map rj_queue (insert_jobs ps rows) = map rj_queue rows @ map ip_queue ps"
  by (induction ps arbitrary: rows) auto

lemma insert_jobs_kind: "map rj_kind (insert_jobs ps rows) = map rj_kind rows @ map ip_kind ps"
  by (induction ps arbitrary: rows) auto

text \<open>A job table that only had jobs added.\<close>

definition jobs_grow :: "river_row list \<Rightarrow> river_row list \<Rightarrow> bool" where
  "jobs_grow rows rows' \<longleftrightarrow> (\<exists>ps. rows' = insert_jobs ps rows)"

lemma insert_jobs_append: "insert_jobs ps (insert_jobs qs rows) = insert_jobs (qs @ ps) rows"
  by (induction qs arbitrary: rows) auto

lemma jobs_grow_refl [simp]: "jobs_grow rows rows"
  unfolding jobs_grow_def by (metis insert_jobs.simps(1))

lemma jobs_grow_insert [simp]: "jobs_grow rows (insert_jobs ps rows)"
  by (auto simp: jobs_grow_def)

lemma jobs_grow_trans: "jobs_grow a b \<Longrightarrow> jobs_grow b c \<Longrightarrow> jobs_grow a c"
  by (auto simp: jobs_grow_def insert_jobs_append)

lemma insert_jobs_ids:
  "distinct (map rj_id rows) \<Longrightarrow> distinct (map rj_id (insert_jobs ps rows))"
proof (induction ps arbitrary: rows)
  case Nil
  then show ?case by simp
next
  case (Cons p ps)
  have "next_job_id rows \<notin> rj_id ` set rows"
    using next_job_id_fresh by fastforce
  then show ?case using Cons by simp
qed

lemma GetNodes_nonempty: "GetNodes j \<noteq> []"
  by (simp add: GetNodes_def split_char_nonempty)

lemma decode_after_update:
  "decode_JobResult (AList.update ''nodes'' (JStr nodes) (encode_JobArgs a)) =
     Inr \<lparr>jr_JobID = 0, jr_Nodes = nodes, jr_PodID = [], jr_PodSpec = ja_Podspec a,
          jr_Names = ja_Names a, jr_Namespace = ja_Namespace a, jr_GroupName = ja_GroupName a\<rparr>"
  by (simp add: decode_JobResult_def encode_JobArgs_def)

lemma decode_encoded:
  "decode_JobResult (encode_JobArgs a) =
     Inr \<lparr>jr_JobID = 0, jr_Nodes = ja_Nodes a, jr_PodID = [], jr_PodSpec = ja_Podspec a,
          jr_Names = ja_Names a, jr_Namespace = ja_Namespace a, jr_GroupName = ja_GroupName a\<rparr>"
  by (simp add: decode_JobResult_def encode_JobArgs_def)

end
