(* ===== verification/Provisional.thy ===== *)
theory Provisional
  imports JobTypes
begin

text \<open>
  \<open>kubernetes/pkg/fluxnetes/strategy/provisional/provisional.go\<close>: the provisional queue, which
  collects single pods until their group has enough of them, and then hands whole groups over
  to the pending table and the worker queue. Every handler takes the world and returns it with
  its result; a Go pair of value and error is a pair whose second part is \<open>None\<close> for nil.
\<close>

section \<open>Enqueue\<close>

definition incrementGroupProvisional ::
  "dbenv \<Rightarrow> pod \<Rightarrow> PodGroup \<Rightarrow> world \<Rightarrow> (goerror + unit) \<times> world" where
  "incrementGroupProvisional E p g = pool_exec E (IncrementGroup (pg_Name g) (Namespace p))"

text \<open>\<open>IsPendingQuery\<close> run with \<open>Exec\<close>: only its command tag is looked at.\<close>

definition IsPendingQuery :: "dbenv \<Rightarrow> string \<Rightarrow> string \<Rightarrow> tables \<Rightarrow> goerror + string" where
  "IsPendingQuery E g ns t =
     Inr (select_tag E (length (filter (\<lambda>r. pending_key r = (g, ns)) (pending_queue t))))"

definition Enqueue ::
  "dbenv \<Rightarrow> codec \<Rightarrow> pod \<Rightarrow> PodGroup \<Rightarrow> world \<Rightarrow> (EnqueueStatus \<times> goerror option) \<times> world" where
  "Enqueue E C p g w0 =
     (case call_ok w0 of
        (Inl e, w1) \<Rightarrow> ((Unknown, Some e), w1)
      | (Inr _, w1) \<Rightarrow>
     (case query (IsPendingQuery E (pg_Name g) (Namespace p)) w1 of
        (Inl e, w2) \<Rightarrow> ((Unknown, Some e), w2)
      | (Inr result, w2) \<Rightarrow>
     if strings_Contains result ''INSERT 1'' then ((GroupAlreadyInPending, None), w2)
     else
     (case marshal C p of
        Inl e \<Rightarrow> ((PodInvalid, Some e), w2)
      | Inr podspec \<Rightarrow>
     (case pool_exec E (InsertProvisional podspec (Namespace p) (Name p) (pg_Duration g)
                          (pg_Name g) (pg_Timestamp g)) w2 of
        (Inl e, w3) \<Rightarrow> ((Unknown, Some e), w3)
      | (Inr _, w3) \<Rightarrow>
     (case incrementGroupProvisional E p g w3 of
        (Inl e, w4) \<Rightarrow> ((Unknown, Some e), w4)
      | (Inr _, w4) \<Rightarrow>
     (case pool_exec E (InsertGroup (pg_Name g) (Namespace p) (pg_Size g) (pg_Duration g)
                          podspec (pg_Timestamp g)) w4 of
        (Inl e, w5) \<Rightarrow> ((Unknown, Some e), w5)
      | (Inr _, w5) \<Rightarrow> ((PodEnqueueSuccess, None), w5)))))))"

section \<open>Ready groups\<close>

text \<open>\<open>SelectGroupsAtSizeQuery\<close>: newest group first, groups of equal age in any order.\<close>

definition SelectGroupsAtSize :: "dbenv \<Rightarrow> tables \<Rightarrow> goerror + group_row list" where
  "SelectGroupsAtSize E t =
     Inr (sort_key (\<lambda>r. - gr_created_at r)
           (scan_groups E (filter (\<lambda>r. gr_group_size r \<le> gr_current_size r) (groups_provisional t))))"

definition SelectPods :: "dbenv \<Rightarrow> string \<Rightarrow> string \<Rightarrow> tables \<Rightarrow> goerror + pod_row list" where
  "SelectPods E g ns t =
     Inr (scan_pods E (filter (\<lambda>r. pr_group_name r = g \<and> pr_namespace r = ns) (pods_provisional t)))"

text \<open>The job of one group: the last pod's spec stands for all, and the names are kept in order.\<close>

definition job_of :: "group_row \<Rightarrow> pod_row list \<Rightarrow> JobArgs" where
  "job_of m pods =
     \<lparr>ja_Jobspec = [], ja_Podspec = fold (\<lambda>p _. pr_podspec p) pods [],
      ja_GroupName = gr_group_name m, ja_GroupSize = gr_group_size m,
      ja_Duration = gr_duration m, ja_Namespace = gr_namespace m, ja_Reservation = False,
      ja_Nodes = [], ja_Names = strings_Join (map pr_name pods) '',''\<rparr>"

definition lookup_key :: "group_row \<Rightarrow> string" where
  "lookup_key m = gr_group_name m @ ''-'' @ gr_namespace m"

fun collect_jobs ::
  "dbenv \<Rightarrow> group_row list \<Rightarrow> (string \<times> JobArgs) list \<Rightarrow> world \<Rightarrow>
   (goerror + (string \<times> JobArgs) list) \<times> world" where
  "collect_jobs E [] lookup w = (Inr lookup, w)"
| "collect_jobs E (m # ms) lookup w =
     (case query (SelectPods E (gr_group_name m) (gr_namespace m)) w of
        (Inl e, w') \<Rightarrow> (Inl e, w')
      | (Inr pods, w') \<Rightarrow>
          collect_jobs E ms (AList.update (lookup_key m) (job_of m pods) lookup) w')"

text \<open>\<open>iter\<close> is the order in which Go happens to walk the map.\<close>

definition getReadyGroups ::
  "dbenv \<Rightarrow> (JobArgs list \<Rightarrow> JobArgs list) \<Rightarrow> world \<Rightarrow> (goerror + JobArgs list) \<times> world" where
  "getReadyGroups E iter w =
     (case query (SelectGroupsAtSize E) w of
        (Inl e, w1) \<Rightarrow> (Inl e, w1)
      | (Inr models, w1) \<Rightarrow>
          (case collect_jobs E models [] w1 of
             (Inl e, w2) \<Rightarrow> (Inl e, w2)
           | (Inr lookup, w2) \<Rightarrow> (Inr (iter (map snd lookup)), w2)))"

definition job_key :: "JobArgs \<Rightarrow> string \<times> string" where
  "job_key a = (ja_GroupName a, ja_Namespace a)"

definition deleteGroups ::
  "dbenv \<Rightarrow> JobArgs list \<Rightarrow> world \<Rightarrow> (goerror + unit) \<times> world" where
  "deleteGroups E groups = pool_exec E (DeleteGroups (map job_key groups))"

text \<open>A batch runs in one implicit transaction: the first error undoes all of it.\<close>

fun exec_batch :: "dbenv \<Rightarrow> stmt list \<Rightarrow> tables \<Rightarrow> goerror + tables" where
  "exec_batch E [] t = Inr t"
| "exec_batch E (st # sts) t =
     (case exec_stmt E st t of Inl e \<Rightarrow> Inl e | Inr (t', _) \<Rightarrow> exec_batch E sts t')"

definition pending_stmt :: "JobArgs \<Rightarrow> stmt" where
  "pending_stmt a = InsertPendingGroup (ja_GroupName a) (ja_Namespace a) (ja_GroupSize a)"

definition insertPending ::
  "dbenv \<Rightarrow> JobArgs list \<Rightarrow> world \<Rightarrow> (goerror + unit) \<times> world" where
  "insertPending E groups = pool_update (exec_batch E (map pending_stmt groups))"

definition ReadyJobs ::
  "dbenv \<Rightarrow> (JobArgs list \<Rightarrow> JobArgs list) \<Rightarrow> world \<Rightarrow> (JobArgs list \<times> goerror option) \<times> world" where
  "ReadyJobs E iter w =
     (case getReadyGroups E iter w of
        (Inl e, w1) \<Rightarrow> (([], Some e), w1)
      | (Inr jobs, w1) \<Rightarrow>
          if jobs = [] then ((jobs, None), w1)
          else (case insertPending E jobs w1 of
                  (Inl e, w2) \<Rightarrow> (([], Some e), w2)
                | (Inr _, w2) \<Rightarrow>
                    (case deleteGroups E jobs w2 of
                       (Inl e, w3) \<Rightarrow> ((jobs, Some e), w3)
                     | (Inr _, w3) \<Rightarrow> ((jobs, None), w3))))"

end
