(* ===== verification/ProvisionalLaws.thy ===== *)
theory ProvisionalLaws
  imports Provisional
begin

text \<open>
  What the provisional queue does, over the finite maps its tables stand for: an abstract
  specification of \<open>Enqueue\<close> that the handler refines, the count invariant that makes a group
  ready only once enough distinct pods have come, and the conservation of groups when they move
  from provisional to pending, on every path, failures included.
\<close>

section \<open>The abstract queue\<close>

record provisional_spec =
  sp_pods :: "string \<times> string \<times> string \<rightharpoonup> pod_row"
  sp_groups :: "string \<times> string \<rightharpoonup> group_row"
  sp_pending :: "string \<times> string \<rightharpoonup> pending_row"

definition abs_tables :: "tables \<Rightarrow> provisional_spec" where
  "abs_tables t =
     \<lparr>sp_pods = row_of pod_key (pods_provisional t),
      sp_groups = row_of group_key (groups_provisional t),
      sp_pending = row_of pending_key (pending_queue t)\<rparr>"

definition new_pod_row :: "string \<Rightarrow> pod \<Rightarrow> PodGroup \<Rightarrow> pod_row" where
  "new_pod_row spec p g =
     \<lparr>pr_podspec = spec, pr_namespace = Namespace p, pr_name = Name p,
      pr_duration = pg_Duration g, pr_created_at = pg_Timestamp g, pr_group_name = pg_Name g\<rparr>"

definition new_group_row :: "string \<Rightarrow> pod \<Rightarrow> PodGroup \<Rightarrow> group_row" where
  "new_group_row spec p g =
     \<lparr>gr_podspec = spec, gr_namespace = Namespace p, gr_duration = pg_Duration g,
      gr_created_at = pg_Timestamp g, gr_group_name = pg_Name g, gr_group_size = pg_Size g,
      gr_current_size = 1\<rparr>"

text \<open>A pod is remembered once; its group counts one more, or starts at one.\<close>

definition spec_enqueue :: "string \<Rightarrow> pod \<Rightarrow> PodGroup \<Rightarrow> provisional_spec \<Rightarrow> provisional_spec" where
  "spec_enqueue spec p g a =
     (let pk = (pg_Name g, Namespace p, Name p); gk = (pg_Name g, Namespace p)
      in a\<lparr>sp_pods := (sp_pods a)(pk \<mapsto> (case sp_pods a pk of None \<Rightarrow> new_pod_row spec p g | Some r \<Rightarrow> r)),
           sp_groups := (sp_groups a)(gk \<mapsto>
             (case sp_groups a gk of
                None \<Rightarrow> new_group_row spec p g
              | Some r \<Rightarrow> r\<lparr>gr_current_size := gr_current_size r + 1\<rparr>))\<rparr>)"

text \<open>The values of a request that go between quotes.\<close>

definition plain_request :: "string \<Rightarrow> pod \<Rightarrow> PodGroup \<Rightarrow> bool" where
  "plain_request spec p g \<longleftrightarrow>
     lit_ok spec \<and> lit_ok (Namespace p) \<and> lit_ok (Name p) \<and> lit_ok (pg_Name g)"

definition request_stmts :: "string \<Rightarrow> pod \<Rightarrow> PodGroup \<Rightarrow> stmt list" where
  "request_stmts spec p g =
     [InsertProvisional spec (Namespace p) (Name p) (pg_Duration g) (pg_Name g) (pg_Timestamp g),
      IncrementGroup (pg_Name g) (Namespace p),
      InsertGroup (pg_Name g) (Namespace p) (pg_Size g) (pg_Duration g) spec (pg_Timestamp g)]"

lemma plain_request_stmts:
  "plain_request spec p g \<Longrightarrow> st \<in> set (request_stmts spec p g) \<Longrightarrow> stmt_ok st"
  by (auto simp: plain_request_def request_stmts_def stmt_ok_def)

lemma keys_of_new [simp]:
  "pod_key (new_pod_row spec p g) = (pg_Name g, Namespace p, Name p)"
  "group_key (new_group_row spec p g) = (pg_Name g, Namespace p)"
  by (simp_all add: pod_key_def group_key_def new_pod_row_def new_group_row_def)

text \<open>The tables after the first, the second and the third statement of a request.\<close>

definition after_pod :: "string \<Rightarrow> pod \<Rightarrow> PodGroup \<Rightarrow> tables \<Rightarrow> tables" where
  "after_pod spec p g t =
     t\<lparr>pods_provisional := insert_pod (new_pod_row spec p g) (pods_provisional t)\<rparr>"

definition after_increment :: "string \<Rightarrow> pod \<Rightarrow> PodGroup \<Rightarrow> tables \<Rightarrow> tables" where
  "after_increment spec p g t =
     (after_pod spec p g t)\<lparr>groups_provisional :=
        increment_group (pg_Name g, Namespace p) (groups_provisional t)\<rparr>"

definition after_request :: "string \<Rightarrow> pod \<Rightarrow> PodGroup \<Rightarrow> tables \<Rightarrow> tables" where
  "after_request spec p g t =
     (after_increment spec p g t)\<lparr>groups_provisional :=
        insert_group (new_group_row spec p g)
          (increment_group (pg_Name g, Namespace p) (groups_provisional t))\<rparr>"

lemma after_request_refines:
  "abs_tables (after_request spec p g t) = spec_enqueue spec p g (abs_tables t)"
proof -
  have "row_of pod_key (insert_pod (new_pod_row spec p g) (pods_provisional t)) =
    (row_of pod_key (pods_provisional t))((pg_Name g, Namespace p, Name p) \<mapsto>
       (case row_of pod_key (pods_provisional t) (pg_Name g, Namespace p, Name p) of
          None \<Rightarrow> new_pod_row spec p g | Some r \<Rightarrow> r))"
    by (auto simp: podt.lookup_ins fun_eq_iff split: option.splits)
  moreover have "row_of group_key (insert_group (new_group_row spec p g)
        (increment_group (pg_Name g, Namespace p) (groups_provisional t))) =
    (row_of group_key (groups_provisional t))((pg_Name g, Namespace p) \<mapsto>
       (case row_of group_key (groups_provisional t) (pg_Name g, Namespace p) of
          None \<Rightarrow> new_group_row spec p g
        | Some r \<Rightarrow> r\<lparr>gr_current_size := gr_current_size r + 1\<rparr>))"
    using groupt.lookup_upd_ins [of "new_group_row spec p g" "groups_provisional t"] by simp
  ultimately show ?thesis
    by (simp add: abs_tables_def spec_enqueue_def after_request_def after_increment_def
        after_pod_def Let_def)
qed

lemma after_tables_ok:
  "tables_ok t \<Longrightarrow> tables_ok (after_pod spec p g t)"
  "tables_ok t \<Longrightarrow> tables_ok (after_increment spec p g t)"
  "tables_ok t \<Longrightarrow> tables_ok (after_request spec p g t)"
  by (auto simp: tables_ok_def after_pod_def after_increment_def after_request_def
      podt.inv_ins groupt.inv_upd_ins groupt.inv_upd)

section \<open>Every outcome of Enqueue\<close>

text \<open>The three statements of a request, run until the first error.\<close>

fun exec_seq :: "dbenv \<Rightarrow> stmt list \<Rightarrow> world \<Rightarrow> (goerror + unit) \<times> world" where
  "exec_seq E [] w = (Inr (), w)"
| "exec_seq E (st # sts) w =
     (case pool_exec E st w of (Inl e, w1) \<Rightarrow> (Inl e, w1) | (Inr _, w1) \<Rightarrow> exec_seq E sts w1)"

fun run_all :: "stmt list \<Rightarrow> tables \<Rightarrow> goerror + tables" where
  "run_all [] t = Inr t"
| "run_all (st # sts) t = (case run_stmt st t of Inl e \<Rightarrow> Inl e | Inr t' \<Rightarrow> run_all sts t')"

lemma exec_seq_cases:
  assumes "exec_seq E sts w = (r, w')" and "list_all stmt_ok sts"
  shows "\<exists>k ts t. run_all (take k sts) (tables w) = Inr t \<and> w' = put ts t w \<and>
    (if r = Inr () then k = length sts else k < length sts)"
  using assms
proof (induction sts arbitrary: w)
  case Nil
  then have "w' = put (tape w) (tables w) w \<and> r = Inr ()" by (simp add: put_same)
  then show ?case by (metis length_0_conv run_all.simps(1) take_Nil)
next
  case (Cons st sts)
  obtain r1 w1 where c: "pool_exec E st w = (r1, w1)" by (cases "pool_exec E st w")
  then show ?case
  proof (cases rule: pool_exec_cases)
    case (failed e ts)
    then have "r = Inl e" and "w' = put ts (tables w) w" using Cons.prems c by simp_all
    then show ?thesis by (intro exI [of _ 0] exI [of _ ts] exI [of _ "tables w"]) simp
  next
    case (ok t1 ts1)
    then have rest: "exec_seq E sts w1 = (r, w')" and st: "run_stmt st (tables w) = Inr t1"
      using Cons.prems c by (auto simp: exec_stmt_ok)
    then obtain k ts t where "run_all (take k sts) (tables w1) = Inr t"
      "w' = put ts t w1" "if r = Inr () then k = length sts else k < length sts"
      using Cons.IH [OF rest] Cons.prems(2) by auto
    then show ?thesis using st ok(3)
      by (intro exI [of _ "Suc k"] exI [of _ ts] exI [of _ t]) auto
  qed
qed

lemma run_request:
  assumes "run_all (take k (request_stmts spec p g)) t = Inr t'" and "k \<le> 3"
  shows "t' = (if k = 0 then t else if k = 1 then after_pod spec p g t
    else if k = 2 then after_increment spec p g t else after_request spec p g t)"
proof -
  have "k = 0 \<or> k = 1 \<or> k = 2 \<or> k = 3" using assms(2) by arith
  then show ?thesis using assms(1)
    by (auto simp: request_stmts_def after_pod_def after_increment_def after_request_def
        new_pod_row_def new_group_row_def split: if_splits)
qed

lemma length_request_stmts [simp]: "length (request_stmts spec p g) = 3"
  by (simp add: request_stmts_def)

lemma Enqueue_unfold:
  "Enqueue E C p g w0 =
     (case call_ok w0 of
        (Inl e, w1) \<Rightarrow> ((Unknown, Some e), w1)
      | (Inr _, w1) \<Rightarrow>
     (case query (IsPendingQuery E (pg_Name g) (Namespace p)) w1 of
        (Inl e, w2) \<Rightarrow> ((Unknown, Some e), w2)
      | (Inr result, w2) \<Rightarrow>
     if strings_Contains result ''INSERT 1'' then ((GroupAlreadyInPending, None), w2)
     else
     (case marshal C p of
        Inl e \<Rightarrow> ((PodInvalid, Some e), w2)
      | Inr spec \<Rightarrow>
     (case exec_seq E (request_stmts spec p g) w2 of
        (Inl e, w) \<Rightarrow> ((Unknown, Some e), w)
      | (Inr _, w) \<Rightarrow> ((PodEnqueueSuccess, None), w)))))"
  by (simp add: Enqueue_def request_stmts_def incrementGroupProvisional_def
      split: prod.splits sum.splits)

text \<open>The result a caller sees, and how far the tables got, in each of the ways it can end.\<close>

datatype enqueue_end = Stopped | Rejected | Invalid | Partly nat | Complete

definition enqueue_ends ::
  "dbenv \<Rightarrow> codec \<Rightarrow> pod \<Rightarrow> PodGroup \<Rightarrow> tables \<Rightarrow> EnqueueStatus \<Rightarrow> goerror option \<Rightarrow> tables \<Rightarrow>
   enqueue_end \<Rightarrow> bool" where
  "enqueue_ends E C p g t st err t' en \<longleftrightarrow>
     (case en of
        Stopped \<Rightarrow> st = Unknown \<and> err \<noteq> None \<and> t' = t
      | Rejected \<Rightarrow> st = GroupAlreadyInPending \<and> err = None \<and> t' = t \<and>
          strings_Contains (select_tag E (length (filter
            (\<lambda>r. pending_key r = (pg_Name g, Namespace p)) (pending_queue t)))) ''INSERT 1''
      | Invalid \<Rightarrow> st = PodInvalid \<and> err \<noteq> None \<and> t' = t \<and> (\<exists>e. marshal C p = Inl e)
      | Partly k \<Rightarrow> st = Unknown \<and> err \<noteq> None \<and> (\<exists>spec. marshal C p = Inr spec \<and>
          (k = 1 \<and> t' = after_pod spec p g t \<or> k = 2 \<and> t' = after_increment spec p g t))
      | Complete \<Rightarrow> st = PodEnqueueSuccess \<and> err = None \<and>
          (\<exists>spec. marshal C p = Inr spec \<and> t' = after_request spec p g t))"

lemma request_ends:
  assumes spec: "marshal C p = Inr spec" and plain: "plain_request spec p g"
    and run: "exec_seq E (request_stmts spec p g) w = (r, w')"
  shows "\<exists>ts t' en. w' = put ts t' w \<and>
    (case r of Inl e \<Rightarrow> enqueue_ends E C p g (tables w) Unknown (Some e) t' en
     | Inr _ \<Rightarrow> enqueue_ends E C p g (tables w) PodEnqueueSuccess None t' en)"
proof -
  have "list_all stmt_ok (request_stmts spec p g)"
    using plain by (auto simp: list_all_iff intro: plain_request_stmts)
  then obtain k ts t where k: "run_all (take k (request_stmts spec p g)) (tables w) = Inr t"
    "w' = put ts t w" "if r = Inr () then k = 3 else k < 3"
    using exec_seq_cases [OF run] unfolding length_request_stmts by blast
  then have t: "t = (if k = 0 then tables w else if k = 1 then after_pod spec p g (tables w)
      else if k = 2 then after_increment spec p g (tables w) else after_request spec p g (tables w))"
    by (intro run_request) (auto split: if_splits)
  show ?thesis
  proof (cases r)
    case (Inl e)
    then have "k = 0 \<or> k = 1 \<or> k = 2" using k(3) by auto
    then show ?thesis using Inl t k(2) spec
      by (intro exI [of _ ts] exI [of _ t] exI [of _ "if k = 0 then Stopped else Partly k"])
        (auto simp: enqueue_ends_def)
  next
    case (Inr u)
    then show ?thesis using t k spec
      by (intro exI [of _ ts] exI [of _ t] exI [of _ Complete]) (auto simp: enqueue_ends_def)
  qed
qed

lemma Enqueue_ends:
  assumes run: "Enqueue E C p g w = ((st, err), w')"
    and plain: "\<And>spec. marshal C p = Inr spec \<Longrightarrow> plain_request spec p g"
  shows "\<exists>ts t' en. w' = put ts t' w \<and> enqueue_ends E C p g (tables w) st err t' en"
proof -
  obtain r1 w1 where c1: "call_ok w = (r1, w1)" by (cases "call_ok w")
  then obtain ts1 where w1: "w1 = put ts1 (tables w) w" by (elim call_ok_cases)
  obtain r2 w2 where c2: "query (IsPendingQuery E (pg_Name g) (Namespace p)) w1 = (r2, w2)"
    by (meson surj_pair)
  then obtain ts2 where w2: "w2 = put ts2 (tables w) w"
    and r2: "(\<exists>e. r2 = Inl e) \<or> r2 = IsPendingQuery E (pg_Name g) (Namespace p) (tables w)"
    by (elim query_cases) (auto simp: w1)
  note un = run [unfolded Enqueue_unfold c1 c2 prod.case]
  consider (err1) "\<exists>e. r1 = Inl e" | (err2) "r1 = Inr ()" "\<exists>e. r2 = Inl e"
    | (tag) tag where "r1 = Inr ()" "r2 = Inr tag" by (cases r1; cases r2) auto
  then show ?thesis
  proof cases
    case err1
    then show ?thesis using un w1
      by (intro exI [of _ ts1] exI [of _ "tables w"] exI [of _ Stopped]) (auto simp: enqueue_ends_def)
  next
    case err2
    then show ?thesis using un c2 w2
      by (intro exI [of _ ts2] exI [of _ "tables w"] exI [of _ Stopped]) (auto simp: enqueue_ends_def)
  next
    case (tag tag)
    note un2 = un [unfolded tag sum.case c2 prod.case]
    show ?thesis
    proof (cases "strings_Contains tag ''INSERT 1'' \<or> (\<exists>e. marshal C p = Inl e)")
      case True
      then show ?thesis using un2 w2 r2 tag
        by (intro exI [of _ ts2] exI [of _ "tables w"]
            exI [of _ "if strings_Contains tag ''INSERT 1'' then Rejected else Invalid"])
          (auto simp: enqueue_ends_def IsPendingQuery_def)
    next
      case False
      then obtain spec where spec: "marshal C p = Inr spec" by (cases "marshal C p") auto
      obtain r3 w3 where c3: "exec_seq E (request_stmts spec p g) w2 = (r3, w3)" by (meson surj_pair)
      then show ?thesis using un2 False spec request_ends [OF spec plain [OF spec] c3] w2
        by (cases r3) auto
    qed
  qed
qed

end
