(* ===== verification/ReadyLaws.thy ===== *)
theory ReadyLaws
  imports ProvisionalLaws
begin

text \<open>
  What \<open>ReadyJobs\<close> selects and how it moves groups: the selected jobs are those of the groups
  that have enough pods, one job per lookup key, and the tables change in two steps (pending
  first, then the delete), so a failure in between never loses a group.
\<close>

section \<open>Selection\<close>

definition ready_rows :: "tables \<Rightarrow> group_row list" where
  "ready_rows t = filter (\<lambda>r. gr_group_size r \<le> gr_current_size r) (groups_provisional t)"

definition group_pods :: "dbenv \<Rightarrow> tables \<Rightarrow> group_row \<Rightarrow> pod_row list" where
  "group_pods E t m = scan_pods E (filter (\<lambda>r. pr_group_name r = gr_group_name m \<and>
     pr_namespace r = gr_namespace m) (pods_provisional t))"

definition group_job :: "dbenv \<Rightarrow> tables \<Rightarrow> group_row \<Rightarrow> JobArgs" where
  "group_job E t m = job_of m (group_pods E t m)"

definition job_lookup :: "dbenv \<Rightarrow> tables \<Rightarrow> group_row list \<Rightarrow> (string \<times> JobArgs) list \<Rightarrow> (string \<times> JobArgs) list" where
  "job_lookup E t ms l = fold (\<lambda>m. AList.update (lookup_key m) (group_job E t m)) ms l"

lemma job_key_group_job [simp]: "job_key (group_job E t m) = group_key m"
  by (simp add: job_key_def group_key_def group_job_def job_of_def)

lemma collect_jobs_cases:
  assumes "collect_jobs E ms l w = (r, w')"
  shows "\<exists>ts. w' = put ts (tables w) w \<and> ((\<exists>e. r = Inl e) \<or> r = Inr (job_lookup E (tables w) ms l))"
  using assms
proof (induction ms arbitrary: l w)
  case Nil
  then have "w' = put (tape w) (tables w) w" by (simp add: put_same)
  then show ?case using Nil by (auto simp: job_lookup_def)
next
  case (Cons m ms)
  obtain r1 w1 where c: "query (SelectPods E (gr_group_name m) (gr_namespace m)) w = (r1, w1)"
    by (meson surj_pair)
  then show ?case
  proof (cases rule: query_cases)
    case (failed e ts)
    then show ?thesis using Cons.prems c by auto
  next
    case (ok ts)
    then have "collect_jobs E ms (AList.update (lookup_key m) (group_job E (tables w) m) l)
        (put ts (tables w) w) = (r, w')"
      using Cons.prems c by (auto simp: SelectPods_def group_job_def group_pods_def)
    from Cons.IH [OF this] show ?thesis by (auto simp: job_lookup_def)
  qed
qed

lemma job_lookup_sound:
  "(k, a) \<in> set (job_lookup E t ms l) \<Longrightarrow>
   (k, a) \<in> set l \<or> (\<exists>m \<in> set ms. k = lookup_key m \<and> a = group_job E t m)"
proof (induction ms arbitrary: l)
  case Nil
  then show ?case by (simp add: job_lookup_def)
next
  case (Cons m ms)
  have "(k, a) \<in> set (AList.update (lookup_key m) (group_job E t m) l) \<Longrightarrow>
      (k, a) \<in> set l \<or> k = lookup_key m \<and> a = group_job E t m"
    by (induction l) (auto split: if_splits)
  then show ?case using Cons.IH [of "AList.update (lookup_key m) (group_job E t m) l"] Cons.prems
    by (auto simp: job_lookup_def)
qed

lemma job_lookup_keys:
  "set (map fst (job_lookup E t ms l)) = set (map fst l) \<union> lookup_key ` set ms"
proof (induction ms arbitrary: l)
  case Nil
  then show ?case by (simp add: job_lookup_def)
next
  case (Cons m ms)
  have "fst ` set (AList.update k v l) = insert k (fst ` set l)" for k and v :: JobArgs
    using dom_update [of k v l] by simp
  then show ?case using Cons [of "AList.update (lookup_key m) (group_job E t m) l"]
    by (auto simp: job_lookup_def)
qed

lemma job_lookup_distinct:
  "distinct (map fst l) \<Longrightarrow> distinct (map fst (job_lookup E t ms l))"
  by (induction ms arbitrary: l) (simp_all add: job_lookup_def distinct_update)

definition iter_ok :: "(JobArgs list \<Rightarrow> JobArgs list) \<Rightarrow> bool" where
  "iter_ok iter \<longleftrightarrow> (\<forall>xs. mset (iter xs) = mset xs)"

text \<open>What a list of jobs selected from tables \<open>t\<close> is.\<close>

definition selected :: "dbenv \<Rightarrow> tables \<Rightarrow> JobArgs list \<Rightarrow> bool" where
  "selected E t jobs \<longleftrightarrow>
     (\<forall>a \<in> set jobs. \<exists>m \<in> set (ready_rows t). a = group_job E t m) \<and>
     (\<forall>m \<in> set (ready_rows t). \<exists>m' \<in> set (ready_rows t).
        lookup_key m' = lookup_key m \<and> group_job E t m' \<in> set jobs) \<and>
     distinct (map (\<lambda>a. ja_GroupName a @ ''-'' @ ja_Namespace a) jobs)"

lemma set_scan_groups: "scans_ok E \<Longrightarrow> set (scan_groups E rs) = set rs"
  by (metis mset_eq_set scans_ok_def)

lemma set_scan_pods: "scans_ok E \<Longrightarrow> set (scan_pods E rs) = set rs"
  by (metis mset_eq_set scans_ok_def)

lemma group_job_lookup_key: "ja_GroupName (group_job E t m) @ ''-'' @ ja_Namespace (group_job E t m) = lookup_key m"
  by (simp add: group_job_def job_of_def lookup_key_def)

lemma selected_job_lookup:
  assumes "scans_ok E" and iter: "iter_ok iter"
    and ms: "Inr ms = SelectGroupsAtSize E t"
  shows "selected E t (iter (map snd (job_lookup E t ms [])))"
proof -
  let ?l = "job_lookup E t ms []"
  have ms: "set ms = set (ready_rows t)"
    using ms set_scan_groups [OF assms(1)] by (simp add: SelectGroupsAtSize_def ready_rows_def)
  have mset: "mset (iter (map snd ?l)) = mset (map snd ?l)" using iter by (simp add: iter_ok_def)
  then have set: "set (iter (map snd ?l)) = snd ` set ?l" by (metis mset_eq_set set_map)
  have key: "ja_GroupName a @ ''-'' @ ja_Namespace a = k" if "(k, a) \<in> set ?l" for k a
    using job_lookup_sound [OF that] group_job_lookup_key by auto
  have "map (\<lambda>a. ja_GroupName a @ ''-'' @ ja_Namespace a) (map snd ?l) = map fst ?l"
    using key by auto
  then have "distinct (map (\<lambda>a. ja_GroupName a @ ''-'' @ ja_Namespace a) (iter (map snd ?l)))"
    using job_lookup_distinct [of "[]" E t ms] distinct_map_mset [OF mset] by (metis distinct.simps(1) list.simps(8))
  moreover have "\<exists>m \<in> set (ready_rows t). a = group_job E t m" if "a \<in> snd ` set ?l" for a
    using that job_lookup_sound ms by fastforce
  moreover have "\<exists>m' \<in> set (ready_rows t). lookup_key m' = lookup_key m \<and> group_job E t m' \<in> snd ` set ?l"
    if m: "m \<in> set (ready_rows t)" for m
  proof -
    have "lookup_key m \<in> set (map fst ?l)" using job_lookup_keys [of E t ms "[]"] m ms by auto
    then obtain a where a: "(lookup_key m, a) \<in> set ?l" by auto
    then obtain m' where "m' \<in> set ms" "lookup_key m = lookup_key m'" "a = group_job E t m'"
      using job_lookup_sound [OF a] by auto
    then show ?thesis using a ms by (force simp: image_iff)
  qed
  ultimately show ?thesis by (simp add: selected_def set)
qed

lemma getReadyGroups_cases:
  assumes run: "getReadyGroups E iter w = (r, w')" and "scans_ok E" and "iter_ok iter"
  obtains (failed) e ts where "r = Inl e" "w' = put ts (tables w) w"
    | (ok) jobs ts where "r = Inr jobs" "w' = put ts (tables w) w" "selected E (tables w) jobs"
proof -
  obtain r1 w1 where c: "query (SelectGroupsAtSize E) w = (r1, w1)" by (meson surj_pair)
  then show ?thesis
  proof (cases rule: query_cases)
    case (failed e ts)
    then show ?thesis using run c that(1) by (auto simp: getReadyGroups_def)
  next
    case (ok ts)
    obtain ms where ms: "SelectGroupsAtSize E (tables w) = Inr ms" by (simp add: SelectGroupsAtSize_def)
    obtain r2 w2 where c2: "collect_jobs E ms [] w1 = (r2, w2)" by (meson surj_pair)
    then obtain ts2 where w2: "w2 = put ts2 (tables w) w"
      and r2: "(\<exists>e. r2 = Inl e) \<or> r2 = Inr (job_lookup E (tables w) ms [])"
      using collect_jobs_cases [OF c2] ok(2) by auto
    have eq: "(r, w') = (case r2 of Inl e \<Rightarrow> (Inl e, w2) | Inr l \<Rightarrow> (Inr (iter (map snd l)), w2))"
      using run c c2 ok(1) ms by (auto simp: getReadyGroups_def split: sum.splits)
    show ?thesis
    proof (cases r2)
      case (Inl e)
      then show ?thesis using eq w2 that(1) by auto
    next
      case (Inr l)
      then show ?thesis using eq w2 r2 that(2) selected_job_lookup [OF assms(2,3) ms [symmetric]] by auto
    qed
  qed
qed

section \<open>The move to pending\<close>

definition plain_keys :: "(string \<times> string) set \<Rightarrow> bool" where
  "plain_keys ks \<longleftrightarrow> (\<forall>(g, ns) \<in> ks. lit_ok g \<and> lit_ok ns)"

definition pending_of :: "JobArgs \<Rightarrow> pending_row" where
  "pending_of a = \<lparr>pq_group_name = ja_GroupName a, pq_namespace = ja_Namespace a,
     pq_group_size = ja_GroupSize a, pq_flux_id = None\<rparr>"

definition mark_pending :: "JobArgs list \<Rightarrow> tables \<Rightarrow> tables" where
  "mark_pending jobs t =
     t\<lparr>pending_queue := fold insert_pending (map pending_of jobs) (pending_queue t)\<rparr>"

definition move_groups :: "JobArgs list \<Rightarrow> tables \<Rightarrow> tables" where
  "move_groups jobs t =
     (mark_pending jobs t)\<lparr>groups_provisional :=
        delete_groups (job_key ` set jobs) (groups_provisional t)\<rparr>"

lemma pending_key_pending_of [simp]: "pending_key (pending_of a) = job_key a"
  by (simp add: pending_key_def pending_of_def job_key_def)

lemma exec_batch_pending:
  "plain_keys (job_key ` set jobs) \<Longrightarrow> exec_batch E (map pending_stmt jobs) t = Inr t' \<Longrightarrow>
   t' = mark_pending jobs t"
proof (induction jobs arbitrary: t)
  case Nil
  then show ?case by (simp add: mark_pending_def)
next
  case (Cons a jobs)
  have ok: "stmt_ok (pending_stmt a)"
    using Cons.prems(1) by (auto simp: plain_keys_def stmt_ok_def pending_stmt_def job_key_def)
  obtain t1 where t1: "exec_stmt E (pending_stmt a) t = Inr (t1, ())"
    and rest: "exec_batch E (map pending_stmt jobs) t1 = Inr t'"
    using Cons.prems(2) by (auto split: sum.splits)
  have "t1 = t\<lparr>pending_queue := insert_pending (pending_of a) (pending_queue t)\<rparr>"
    using t1 exec_stmt_ok [OF ok] by (auto simp: pending_stmt_def pending_of_def split: if_splits)
  moreover have "plain_keys (job_key ` set jobs)" using Cons.prems(1) by (auto simp: plain_keys_def)
  ultimately show ?case using Cons.IH [OF _ rest] by (simp add: mark_pending_def)
qed

lemma insertPending_cases:
  assumes "insertPending E jobs w = (r, w')" and "plain_keys (job_key ` set jobs)"
  obtains (failed) e ts where "r = Inl e" "w' = put ts (tables w) w"
    | (ok) ts where "r = Inr ()" "w' = put ts (mark_pending jobs (tables w)) w"
  using assms unfolding insertPending_def
  by (auto elim!: pool_update_cases dest: exec_batch_pending)

lemma deleteGroups_stmt_ok:
  assumes "plain_keys (job_key ` set jobs)" and "jobs \<noteq> []"
  shows "stmt_ok (DeleteGroups (map job_key jobs))"
  using assms by (fastforce simp: plain_keys_def stmt_ok_def list_all_iff)

lemma deleteGroups_cases:
  assumes "deleteGroups E jobs w = (r, w')" and "plain_keys (job_key ` set jobs)" and "jobs \<noteq> []"
  obtains (failed) e ts where "r = Inl e" "w' = put ts (tables w) w"
    | (ok) ts where "r = Inr ()" "w' = put ts ((tables w)\<lparr>groups_provisional :=
        delete_groups (job_key ` set jobs) (groups_provisional (tables w))\<rparr>) w"
  using assms(1) deleteGroups_stmt_ok [OF assms(2,3)] unfolding deleteGroups_def
  by (auto elim!: pool_exec_cases simp: exec_stmt_ok)

lemma selected_keys:
  "selected E t jobs \<Longrightarrow> job_key ` set jobs \<subseteq> group_key ` set (ready_rows t)"
  by (fastforce simp: selected_def)

definition plain_groups :: "tables \<Rightarrow> bool" where
  "plain_groups t \<longleftrightarrow> plain_keys (group_key ` set (groups_provisional t))"

lemma selected_plain:
  "selected E t jobs \<Longrightarrow> plain_groups t \<Longrightarrow> plain_keys (job_key ` set jobs)"
  using selected_keys [of E t jobs] by (fastforce simp: plain_groups_def plain_keys_def ready_rows_def)

text \<open>The three ways \<open>ReadyJobs\<close> can leave the tables.\<close>

lemma ReadyJobs_cases:
  assumes run: "ReadyJobs E iter w = ((jobs, err), w')"
    and "scans_ok E" and "iter_ok iter" and plain: "plain_groups (tables w)"
  obtains
    (unchanged) ts where "w' = put ts (tables w) w" "jobs = []" "err = None \<Longrightarrow> ready_rows (tables w) = []"
  | (marked) ts e where "w' = put ts (mark_pending jobs (tables w)) w"
      "err = Some e" "selected E (tables w) jobs" "jobs \<noteq> []"
  | (moved) ts where "w' = put ts (move_groups jobs (tables w)) w"
      "err = None" "selected E (tables w) jobs" "jobs \<noteq> []"
proof -
  obtain r1 w1 where c1: "getReadyGroups E iter w = (r1, w1)" by (meson surj_pair)
  from c1 assms(2,3) show ?thesis
  proof (cases rule: getReadyGroups_cases)
    case (failed e ts)
    then show ?thesis using run c1 unchanged by (auto simp: ReadyJobs_def)
  next
    case (ok js ts)
    have pk: "plain_keys (job_key ` set js)" using selected_plain [OF ok(3) plain] .
    obtain r2 w2 where c2: "insertPending E js w1 = (r2, w2)" by (meson surj_pair)
    obtain r3 w3 where c3: "deleteGroups E js w2 = (r3, w3)" by (meson surj_pair)
    note un = run [unfolded ReadyJobs_def c1 ok(1) prod.case sum.case c2]
    show ?thesis
    proof (cases "js = []")
      case True
      then have "ready_rows (tables w) = []" using ok(3) by (auto simp: selected_def)
      then show ?thesis using un True ok(2) unchanged by auto
    next
      case False
      note un2 = un [unfolded if_not_P [OF False]]
      from c2 pk show ?thesis
      proof (cases rule: insertPending_cases)
        case (failed e ts2)
        then show ?thesis using un2 ok(2) unchanged [of ts2] by auto
      next
        case insok: (ok ts2)
        from c3 pk False show ?thesis
          by (cases rule: deleteGroups_cases)
            (use un2 insok ok c3 False in \<open>auto simp: move_groups_def mark_pending_def
              intro: marked moved\<close>)
      qed
    qed
  qed
qed

end
