(* ===== verification/Strategy.thy ===== *)
theory Strategy
  imports ReadyLaws
begin

text \<open>
  The queue strategies, \<open>kubernetes/pkg/fluxnetes/strategy/strategy.go\<close> and \<open>easy.go\<close>. The Go
  interface \<open>QueueStrategy\<close> is a record of operations; what the queue relies on is the contract
  \<open>queue_strategy\<close>, and \<open>EasyBackfill\<close> is shown to keep it.
\<close>

record strategy =
  st_Name :: string
  st_Schedule :: "int \<Rightarrow> world \<Rightarrow> (goerror + InsertParams list) \<times> world"
  st_Enqueue :: "pod \<Rightarrow> PodGroup \<Rightarrow> world \<Rightarrow> (EnqueueStatus \<times> goerror option) \<times> world"
  st_PostSubmit :: "world \<Rightarrow> goerror option \<times> world"
  st_GetReservationDepth :: int

section \<open>Easy with backfill\<close>

definition easy_Name :: string where
  "easy_Name = ''easy''"

definition easy_GetReservationDepth :: int where
  "easy_GetReservationDepth = 1"

definition QueueDefault :: string where
  "QueueDefault = ''default''"

text \<open>The kinds of jobs the client of a queue can work: those registered, and those of the strategy.\<close>

definition easy_AddWorkers :: "string list \<Rightarrow> string list" where
  "easy_AddWorkers workers = workers @ [JobArgs_Kind] @ [CleanupArgs_Kind]"

text \<open>
  The loop that fills the batch. Go copies the job's arguments into the entry before the
  reservation flag is set on the loop variable, so the entry keeps the copy without the flag.
\<close>

fun schedule_loop :: "nat \<Rightarrow> int \<Rightarrow> JobArgs list \<Rightarrow> InsertParams list \<Rightarrow> InsertParams list" where
  "schedule_loop i depth [] batch = batch"
| "schedule_loop i depth (jobArgs # rest) batch =
     (let args = \<lparr>ip_kind = JobArgs_Kind, ip_args = encode_JobArgs jobArgs,
                  ip_max_attempts = MaxAttempts, ip_tags = [easy_Name],
                  ip_queue = QueueDefault, ip_scheduled_at = None\<rparr>;
          jobArgs = (if int i < depth then jobArgs\<lparr>ja_Reservation := True\<rparr> else jobArgs)
      in schedule_loop (Suc i) depth rest (batch @ [args]))"

definition easy_Schedule ::
  "dbenv \<Rightarrow> (JobArgs list \<Rightarrow> JobArgs list) \<Rightarrow> int \<Rightarrow> world \<Rightarrow> (goerror + InsertParams list) \<times> world" where
  "easy_Schedule E iter reservationDepth w =
     (case ReadyJobs E iter w of
        ((jobs, Some e), w1) \<Rightarrow> (Inl e, w1)
      | ((jobs, None), w1) \<Rightarrow> (Inr (schedule_loop 0 reservationDepth jobs []), w1))"

text \<open>
  \<open>collect\<close> is \<open>pgx.CollectRows\<close> with \<open>RowToStructByName[ReservationModel]\<close> on the rows of
  \<open>GetReservationsQuery\<close>, which selects one composite column; its error is not looked at, and
  leaves no models.
\<close>

record ReservationModel =
  rm_GroupName :: string
  rm_FluxID :: int

definition cleanup_params :: "ReservationModel \<Rightarrow> InsertParams" where
  "cleanup_params m =
     \<lparr>ip_kind = CleanupArgs_Kind,
      ip_args = encode_CleanupArgs \<lparr>ca_GroupName = rm_GroupName m, ca_FluxID = rm_FluxID m,
                  ca_Podspec = [], ca_Kubernetes = False\<rparr>,
      ip_max_attempts = MaxAttempts, ip_tags = [easy_Name], ip_queue = ''cleanup_queue'',
      ip_scheduled_at = None\<rparr>"

definition easy_PostSubmit ::
  "dbenv \<Rightarrow> (reservation_row list \<Rightarrow> goerror + ReservationModel list) \<Rightarrow> world \<Rightarrow> goerror option \<times> world" where
  "easy_PostSubmit E collect w0 =
     (case query (\<lambda>t. Inr (reservations t)) w0 of
        (Inl e, w1) \<Rightarrow> (Some e, w1)
      | (Inr rows, w1) \<Rightarrow>
          (let models = (case collect rows of Inl _ \<Rightarrow> [] | Inr ms \<Rightarrow> ms);
               batch = map cleanup_params models
           in if 0 < length batch
              then (case pool_update (InsertMany batch) w1 of
                      (Inl e, w2) \<Rightarrow> (Some e, w2)
                    | (Inr _, w2) \<Rightarrow>
                        (case pool_exec_raw E DeleteReservationsQuery [] w2 of
                           (Inl e, w3) \<Rightarrow> (Some e, w3)
                         | (Inr _, w3) \<Rightarrow> (None, w3)))
              else (None, w1)))"

definition EasyBackfill ::
  "dbenv \<Rightarrow> codec \<Rightarrow> (JobArgs list \<Rightarrow> JobArgs list) \<Rightarrow>
   (reservation_row list \<Rightarrow> goerror + ReservationModel list) \<Rightarrow> strategy" where
  "EasyBackfill E C iter collect =
     \<lparr>st_Name = easy_Name, st_Schedule = easy_Schedule E iter, st_Enqueue = Enqueue E C,
      st_PostSubmit = easy_PostSubmit E collect,
      st_GetReservationDepth = easy_GetReservationDepth\<rparr>"

section \<open>The contract\<close>

text \<open>
  What the queue expects of its strategy: a depth it accepts, an invariant of the tables that
  every operation keeps and that says nothing of the job table, and that only \<open>PostSubmit\<close> and
  the queue itself add jobs.
\<close>

locale queue_strategy =
  fixes S :: strategy and inv :: "tables \<Rightarrow> bool" and accepts :: "pod \<Rightarrow> PodGroup \<Rightarrow> bool"
  assumes depth_valid: "0 \<le> st_GetReservationDepth S"
    and schedule_inv: "st_Schedule S d w = (r, w') \<Longrightarrow> inv (tables w) \<Longrightarrow> inv (tables w')"
    and schedule_jobs: "st_Schedule S d w = (r, w') \<Longrightarrow> inv (tables w) \<Longrightarrow>
      river_job (tables w') = river_job (tables w)"
    and enqueue_inv: "st_Enqueue S p g w = (sr, w') \<Longrightarrow> accepts p g \<Longrightarrow> inv (tables w) \<Longrightarrow> inv (tables w')"
    and enqueue_jobs: "st_Enqueue S p g w = (sr, w') \<Longrightarrow> accepts p g \<Longrightarrow> inv (tables w) \<Longrightarrow>
      river_job (tables w') = river_job (tables w)"
    and post_inv: "st_PostSubmit S w = (er, w') \<Longrightarrow> inv (tables w) \<Longrightarrow> inv (tables w')"
    and post_jobs: "st_PostSubmit S w = (er, w') \<Longrightarrow> inv (tables w) \<Longrightarrow>
      jobs_grow (river_job (tables w)) (river_job (tables w'))"
    and inv_jobs: "inv t \<Longrightarrow> inv (t\<lparr>river_job := js\<rparr>)"

section \<open>Lemmas\<close>

lemma schedule_loop_eq:
  "schedule_loop i depth jobs batch =
     batch @ map (\<lambda>a. \<lparr>ip_kind = JobArgs_Kind, ip_args = encode_JobArgs a,
                      ip_max_attempts = MaxAttempts, ip_tags = [easy_Name],
                      ip_queue = QueueDefault, ip_scheduled_at = None\<rparr>) jobs"
  by (induction i depth jobs batch rule: schedule_loop.induct) (simp_all add: Let_def)

text \<open>PostgreSQL's side of the truncation: it either fails or empties the one table.\<close>

definition clears_reservations :: "dbenv \<Rightarrow> bool" where
  "clears_reservations E \<longleftrightarrow>
     (\<forall>t. case raw_sql E DeleteReservationsQuery [] t of
            (None, t') \<Rightarrow> t' = t\<lparr>reservations := []\<rparr>
          | (Some e, t') \<Rightarrow> True)"

definition strategy_env :: "dbenv \<Rightarrow> (JobArgs list \<Rightarrow> JobArgs list) \<Rightarrow> bool" where
  "strategy_env E iter \<longleftrightarrow> scans_ok E \<and> iter_ok iter \<and> clears_reservations E"

definition queue_inv :: "dbenv \<Rightarrow> (JobArgs list \<Rightarrow> JobArgs list) \<Rightarrow> tables \<Rightarrow> bool" where
  "queue_inv E iter t \<longleftrightarrow> strategy_env E iter \<and> tables_ok t \<and> plain_groups t"

text \<open>The request's literals are plain, its pod's encoding included.\<close>

definition plain_pod :: "codec \<Rightarrow> pod \<Rightarrow> PodGroup \<Rightarrow> bool" where
  "plain_pod C p g \<longleftrightarrow> (\<forall>spec. marshal C p = Inr spec \<longrightarrow> plain_request spec p g) \<and>
     lit_ok (pg_Name g) \<and> lit_ok (Namespace p)"

lemma pool_exec_raw_cases:
  assumes "pool_exec_raw E q args w = (r, w')"
  obtains (failed) e ts where "r = Inl e" "w' = put ts (tables w) w"
    | (ok) t' ts where "r = Inr ()" "raw_sql E q args (tables w) = (None, t')" "w' = put ts t' w"
  using assms unfolding pool_exec_raw_def
  by (auto elim!: net_call_cases simp: lift_tables_def exec_raw_def put_tables
      split: sum.splits prod.splits option.splits)

lemma keys_increment: "group_key ` set (increment_group k t) = group_key ` set t"
  by (simp only: dom_row_of [symmetric] groupt.dom_upd)

lemma keys_insert_group: "group_key ` set (insert_group r t) = insert (group_key r) (group_key ` set t)"
  by (simp only: dom_row_of [symmetric] groupt.dom_ins)

lemma plain_keys_insert: "plain_keys (insert (g, ns) ks) \<longleftrightarrow> lit_ok g \<and> lit_ok ns \<and> plain_keys ks"
  by (auto simp: plain_keys_def)

lemma keys_delete_groups: "group_key ` set (delete_groups ks t) = group_key ` set t - ks"
  by (auto simp: delete_groups_def)

lemma plain_after:
  "plain_groups (after_pod spec p g t) \<longleftrightarrow> plain_groups t"
  "plain_groups (after_increment spec p g t) \<longleftrightarrow> plain_groups t"
  "plain_groups (after_request spec p g t) \<longleftrightarrow>
     lit_ok (pg_Name g) \<and> lit_ok (Namespace p) \<and> plain_groups t"
  by (simp_all add: plain_groups_def after_pod_def after_increment_def after_request_def
      keys_increment keys_insert_group plain_keys_insert)

lemma enqueue_ends_inv:
  assumes "enqueue_ends E C p g t st err t' en" and "plain_pod C p g" and "queue_inv E iter t"
  shows "queue_inv E iter t' \<and> river_job t' = river_job t \<and> pending_queue t' = pending_queue t"
  using assms after_tables_ok
  by (cases en)
    (auto simp: enqueue_ends_def queue_inv_def plain_pod_def plain_after,
      auto simp: after_pod_def after_increment_def after_request_def)

lemma mark_pending_inv: "queue_inv E iter t \<Longrightarrow> queue_inv E iter (mark_pending jobs t)"
  by (auto simp: queue_inv_def mark_pending_def tables_ok_def plain_groups_def pendt.inv_fold_ins)

lemma move_groups_inv: "queue_inv E iter t \<Longrightarrow> queue_inv E iter (move_groups jobs t)"
  by (auto simp: queue_inv_def move_groups_def mark_pending_def tables_ok_def plain_groups_def
      pendt.inv_fold_ins groupt.inv_del keys_delete_groups plain_keys_def)

lemma ReadyJobs_inv:
  assumes "ReadyJobs E iter w = (r, w')" and "queue_inv E iter (tables w)"
  shows "queue_inv E iter (tables w') \<and> river_job (tables w') = river_job (tables w)"
proof -
  obtain jobs err where r: "r = (jobs, err)" by (cases r)
  have "scans_ok E" "iter_ok iter" "plain_groups (tables w)"
    using assms(2) by (auto simp: queue_inv_def strategy_env_def)
  from assms(1) [unfolded r] this show ?thesis
    by (cases rule: ReadyJobs_cases)
      (use assms(2) in \<open>auto simp: mark_pending_inv move_groups_inv, auto simp: mark_pending_def move_groups_def\<close>)
qed

lemma easy_Schedule_inv:
  assumes "easy_Schedule E iter d w = (r, w')" and "queue_inv E iter (tables w)"
  shows "queue_inv E iter (tables w') \<and> river_job (tables w') = river_job (tables w)"
proof -
  obtain rj w1 where c: "ReadyJobs E iter w = (rj, w1)" by (meson surj_pair)
  then have "w1 = w'" using assms(1)
    by (auto simp: easy_Schedule_def split: prod.splits option.splits)
  then show ?thesis using ReadyJobs_inv [OF c assms(2)] by simp
qed

lemma easy_PostSubmit_inv:
  assumes run: "easy_PostSubmit E collect w = (r, w')" and inv: "queue_inv E iter (tables w)"
  shows "queue_inv E iter (tables w') \<and> jobs_grow (river_job (tables w)) (river_job (tables w'))"
proof -
  have clear: "raw_sql E DeleteReservationsQuery [] t = (None, t') \<Longrightarrow> t' = t\<lparr>reservations := []\<rparr>" for t t'
    using inv by (auto simp: queue_inv_def strategy_env_def clears_reservations_def split: prod.splits)
      (metis (mono_tags, lifting) old.prod.case option.simps(4))
  have frame: "queue_inv E iter (t\<lparr>river_job := js\<rparr>) \<and> queue_inv E iter (t\<lparr>river_job := js, reservations := []\<rparr>)"
    if "queue_inv E iter t" for t js
    using that by (auto simp: queue_inv_def tables_ok_def plain_groups_def)
  obtain r1 w1 where c: "query (\<lambda>t. Inr (reservations t)) w = (r1, w1)" by (meson surj_pair)
  then have t1: "tables w1 = tables w" by (auto elim: query_cases)
  show ?thesis
  proof (cases "\<exists>rows. r1 = Inr rows \<and> (case collect rows of Inl _ \<Rightarrow> [] | Inr ms \<Rightarrow> ms) \<noteq> []")
    case False
    then show ?thesis using run c t1 inv by (cases r1) (auto simp: easy_PostSubmit_def Let_def)
  next
    case True
    then obtain rows where rows: "r1 = Inr rows" by blast
    let ?b = "map cleanup_params (case collect rows of Inl _ \<Rightarrow> [] | Inr ms \<Rightarrow> ms)"
    have b: "?b \<noteq> []" using True rows by simp
    obtain r2 w2 where c2: "pool_update (InsertMany ?b) w1 = (r2, w2)" by (meson surj_pair)
    obtain r3 w3 where c3: "pool_exec_raw E DeleteReservationsQuery [] w2 = (r3, w3)" by (meson surj_pair)
    have "w' = (case r2 of Inl _ \<Rightarrow> w2 | Inr _ \<Rightarrow> w3)"
      using run c rows c2 c3 b by (auto simp: easy_PostSubmit_def Let_def split: sum.splits)
    moreover have "queue_inv E iter (tables w2) \<and> jobs_grow (river_job (tables w)) (river_job (tables w2))"
      using c2 inv frame t1 b by (auto elim!: pool_update_cases simp: InsertMany_def)
    moreover have "queue_inv E iter (tables w3) \<and> river_job (tables w3) = river_job (tables w2)"
      if "queue_inv E iter (tables w2)"
      using c3 that
      by (auto elim!: pool_exec_raw_cases dest!: clear simp: queue_inv_def tables_ok_def plain_groups_def)
    ultimately show ?thesis by (cases r2) auto
  qed
qed

interpretation easy: queue_strategy "EasyBackfill E C iter collect" "queue_inv E iter" "plain_pod C"
  for E C iter collect
proof unfold_locales
  fix p g w sr w'
  assume run: "st_Enqueue (EasyBackfill E C iter collect) p g w = (sr, w')"
    and plain: "plain_pod C p g" and inv: "queue_inv E iter (tables w)"
  obtain st err where sr: "sr = (st, err)" by (cases sr)
  obtain ts t' en where "w' = put ts t' w" "enqueue_ends E C p g (tables w) st err t' en"
    using Enqueue_ends [of E C p g w st err w'] run plain sr
    by (auto simp: EasyBackfill_def plain_pod_def)
  then show "queue_inv E iter (tables w')" and "river_job (tables w') = river_job (tables w)"
    using enqueue_ends_inv [OF _ plain inv] by auto
qed (auto simp: EasyBackfill_def easy_GetReservationDepth_def queue_inv_def tables_ok_def
      plain_groups_def dest: easy_Schedule_inv easy_PostSubmit_inv)

end
