(* ===== verification/Resources.thy ===== *)
theory Resources
  imports Proto
begin

text \<open>
  \<open>kubernetes/pkg/fluxnetes/resources/resources.go\<close>: the resource request of a pod, summed over
  its containers in Go's fixed-width arithmetic.
\<close>

fun getPodJobspecLabels_loop :: "(string \<times> string) list \<Rightarrow> string list \<Rightarrow> string list" where
  "getPodJobspecLabels_loop [] labels = labels"
| "getPodJobspecLabels_loop ((label, v) # rest) labels =
     getPodJobspecLabels_loop rest (if strings_Contains label ''jobspec'' then labels @ [v] else labels)"

definition getPodJobspecLabels :: "pod \<Rightarrow> string list" where
  "getPodJobspecLabels p =
     getPodJobspecLabels_loop (case Labels p of None \<Rightarrow> [] | Some kvs \<Rightarrow> kvs) []"

record totals =
  cpus :: int32
  memory :: int64
  gpus :: int64
  storage :: int64

fun sum_containers :: "container list \<Rightarrow> totals \<Rightarrow> totals" where
  "sum_containers [] t = t"
| "sum_containers (c # cs) t =
     sum_containers cs
       \<lparr>cpus = cpus t + ucast (cpu_request c), memory = memory t + memory_request c,
        gpus = gpus t + gpu_limit c, storage = storage t + storage_request c\<rparr>"

definition PreparePodJobSpec :: "pod \<Rightarrow> string \<Rightarrow> PodSpec" where
  "PreparePodJobSpec p groupName =
     (let t = sum_containers (Containers p) \<lparr>cpus = 0, memory = 0, gpus = 0, storage = 0\<rparr>
      in \<lparr>ps_Id = groupName, ps_Container = groupName,
          ps_Cpu = (if cpus t = 0 then 1 else cpus t), ps_Memory = memory t,
          ps_Gpu = gpus t, ps_Storage = storage t, ps_Labels = getPodJobspecLabels p\<rparr>)"

section \<open>Lemmas\<close>

lemma getPodJobspecLabels_loop_eq:
  "getPodJobspecLabels_loop kvs acc =
     acc @ map snd (filter (\<lambda>(l, v). strings_Contains l ''jobspec'') kvs)"
  by (induction kvs acc rule: getPodJobspecLabels_loop.induct) auto

lemma sum_containers_eq:
  "sum_containers cs t =
     \<lparr>cpus = cpus t + (\<Sum>c\<leftarrow>cs. ucast (cpu_request c)),
      memory = memory t + (\<Sum>c\<leftarrow>cs. memory_request c),
      gpus = gpus t + (\<Sum>c\<leftarrow>cs. gpu_limit c),
      storage = storage t + (\<Sum>c\<leftarrow>cs. storage_request c)\<rparr>"
  by (induction cs t rule: sum_containers.induct) (simp_all add: add.assoc)

lemma PreparePodJobSpec_cpu_nonzero: "ps_Cpu (PreparePodJobSpec p g) \<noteq> 0"
  by (simp add: PreparePodJobSpec_def Let_def)

text \<open>Sums that stay in range are the sums over the integers.\<close>

lemma sum_list_sint32:
  assumes "\<forall>c \<in> set cs. 0 \<le> sint (f c :: int64)" and "(\<Sum>c\<leftarrow>cs. sint (f c)) < 2 ^ 31"
  shows "sint (\<Sum>c\<leftarrow>cs. (ucast (f c) :: int32)) = (\<Sum>c\<leftarrow>cs. sint (f c))"
proof -
  have "word_of_int (\<Sum>c\<leftarrow>cs. sint (f c)) = (\<Sum>c\<leftarrow>cs. (ucast (f c) :: int32))"
  proof (induction cs)
    case Nil
    then show ?case by simp
  next
    case (Cons c cs)
    have "(word_of_int (sint (f c)) :: int32) = ucast (f c)"
      by (rule bit_word_eqI) (auto simp: bit_simps min_def)
    then show ?case using Cons by simp
  qed
  moreover have "0 \<le> (\<Sum>c\<leftarrow>cs. sint (f c))" using assms(1)
    by (intro sum_list_nonneg) auto
  ultimately show ?thesis
    using assms(2) wrap32_id [of "\<Sum>c\<leftarrow>cs. sint (f c)"]
    by (simp add: wrap32_def int4_range_def)
qed

end
