(* ===== verification/Workers.thy ===== *)
theory Workers
  imports JobTypes Resources
begin

text \<open>
  The river workers: \<open>kubernetes/pkg/fluxnetes/strategy/workers/job.go\<close> asks Fluxion for an
  allocation and records it, \<open>workers/cleanup.go\<close> cancels a job and deletes its objects. The
  Kubernetes API server and the Fluxion service on the other end of gRPC are parameters.
\<close>

section \<open>The other ends\<close>

record kube_api =
  k_delete :: "string \<Rightarrow> string \<Rightarrow> string \<Rightarrow> goerror option" \<comment> \<open>kind, namespace, name\<close>
  k_get_job :: "string \<Rightarrow> string \<Rightarrow> goerror + string"         \<comment> \<open>the name of the job found\<close>
  is_not_found :: "goerror \<Rightarrow> bool"                            \<comment> \<open>\<open>errors.IsNotFound\<close>\<close>

record flux_client =
  match_rpc :: "MatchRequest \<Rightarrow> goerror + MatchResponse"
  cancel_rpc :: "CancelRequest \<Rightarrow> goerror option"

definition delete_call :: "kube_api \<Rightarrow> string \<Rightarrow> string \<Rightarrow> string \<Rightarrow> world \<Rightarrow> (goerror + unit) \<times> world" where
  "delete_call K kind ns name =
     net_call (\<lambda>w. case k_delete K kind ns name of
                     Some e \<Rightarrow> (Inl e, w\<lparr>sent := sent w @ [SentDelete kind ns name]\<rparr>)
                   | None \<Rightarrow> (Inr (), w\<lparr>sent := sent w @ [SentDelete kind ns name]\<rparr>))"

definition get_job_call :: "kube_api \<Rightarrow> string \<Rightarrow> string \<Rightarrow> world \<Rightarrow> (goerror + string) \<times> world" where
  "get_job_call K ns name = net_call (\<lambda>w. (k_get_job K ns name, w))"

definition match_call :: "flux_client \<Rightarrow> MatchRequest \<Rightarrow> world \<Rightarrow> (goerror + MatchResponse) \<times> world" where
  "match_call F req = net_call (\<lambda>w. (match_rpc F req, w))"

definition cancel_call :: "flux_client \<Rightarrow> CancelRequest \<Rightarrow> world \<Rightarrow> (goerror + unit) \<times> world" where
  "cancel_call F req =
     net_call (\<lambda>w. case cancel_rpc F req of
                     Some e \<Rightarrow> (Inl e, w\<lparr>sent := sent w @ [SentCancel req]\<rparr>)
                   | None \<Rightarrow> (Inr (), w\<lparr>sent := sent w @ [SentCancel req]\<rparr>))"

section \<open>Cleanup\<close>

text \<open>\<open>now\<close> is what \<open>time.Now()\<close> gives; a duration counts nanoseconds in 64 bits, times are in
  nanoseconds here.\<close>

definition scheduled_at :: "int \<Rightarrow> int \<Rightarrow> int" where
  "scheduled_at now secs = now + wrap64 (10 ^ 9 * secs)"

definition SubmitCleanup ::
  "int \<Rightarrow> int option \<Rightarrow> string \<Rightarrow> int \<Rightarrow> bool \<Rightarrow> string list \<Rightarrow> world \<Rightarrow> goerror option outcome \<times> world" where
  "SubmitCleanup now seconds podspec fluxID inKubernetes tags w0 =
     (case call_ok w0 of
        (Inl e, w1) \<Rightarrow> (Returns (Some (GoErr ''error getting client from context'')), w1)
      | (Inr _, w1) \<Rightarrow>
     (case call_ok w1 of
        (Inl e, w2) \<Rightarrow> (Returns (Some e), w2)
      | (Inr _, w2) \<Rightarrow>
     (case seconds of
        None \<Rightarrow> (Panics ''nil pointer dereference'', w2)
      | Some secs \<Rightarrow>
          let args = \<lparr>ca_GroupName = [], ca_FluxID = fluxID, ca_Podspec = podspec,
                      ca_Kubernetes = inKubernetes\<rparr>;
              params = \<lparr>ip_kind = CleanupArgs_Kind, ip_args = encode_CleanupArgs args,
                        ip_max_attempts = MaxAttempts, ip_tags = tags, ip_queue = ''cancel_queue'',
                        ip_scheduled_at = Some (scheduled_at now secs)\<rparr>
          in (case call_ok w2 of
                (Inl e, w3) \<Rightarrow> (Returns (Some e), w3)
              | (Inr _, w3) \<Rightarrow>
             (case pool_update (InsertMany [params]) w3 of
                (Inl e, w4) \<Rightarrow> (Returns (Some e), w4)
              | (Inr _, w4) \<Rightarrow> (Returns None, w4))))))"

definition deleteJob :: "kube_api \<Rightarrow> string \<Rightarrow> owner_reference \<Rightarrow> world \<Rightarrow> goerror option \<times> world" where
  "deleteJob K ns own w =
     (case get_job_call K ns (owner_Name own) w of
        (Inl e, w1) \<Rightarrow> (Some e, w1)
      | (Inr name, w1) \<Rightarrow>
          (case delete_call K ''Job'' ns name w1 of
             (Inl e, w2) \<Rightarrow> (Some e, w2)
           | (Inr _, w2) \<Rightarrow> (None, w2)))"

fun delete_owners :: "kube_api \<Rightarrow> string \<Rightarrow> owner_reference list \<Rightarrow> world \<Rightarrow> goerror option \<times> world" where
  "delete_owners K ns [] w = (None, w)"
| "delete_owners K ns (own # rest) w =
     (if owner_Kind own = ''Job'' then deleteJob K ns own w else delete_owners K ns rest w)"

definition deleteObjects :: "codec \<Rightarrow> kube_api \<Rightarrow> string \<Rightarrow> world \<Rightarrow> goerror option \<times> world" where
  "deleteObjects C K podspec w0 =
     (case call_ok w0 of
        (Inl e, w1) \<Rightarrow> (Some e, w1)
      | (Inr _, w1) \<Rightarrow>
     (case call_ok w1 of
        (Inl e, w2) \<Rightarrow> (Some e, w2)
      | (Inr _, w2) \<Rightarrow>
     (case unmarshal C podspec of
        Inl e \<Rightarrow> (Some e, w2)
      | Inr p \<Rightarrow>
          if OwnerReferences p = []
          then (case delete_call K ''Pod'' (Namespace p) (Name p) w2 of
                  (Inl e, w3) \<Rightarrow> (Some e, w3)
                | (Inr _, w3) \<Rightarrow> (None, w3))
          else delete_owners K (Namespace p) (OwnerReferences p) w2)))"

text \<open>A cancel of a job that is not there is no error (\<open>NoExistOK\<close>).\<close>

definition deleteFluxion :: "flux_client \<Rightarrow> int \<Rightarrow> world \<Rightarrow> goerror option \<times> world" where
  "deleteFluxion F fluxID w0 =
     (case call_ok w0 of
        (Inl e, w1) \<Rightarrow> (Some (GoErr ''[Fluxnetes] AskFlux error connecting to server''), w1)
      | (Inr _, w1) \<Rightarrow>
     (case cancel_call F \<lparr>cr_FluxID = word_of_int fluxID, cr_NoExistOK = True\<rparr> w1 of
        (Inl e, w2) \<Rightarrow> (Some (GoErr ''[Fluxnetes] Issue with cancel''), w2)
      | (Inr _, w2) \<Rightarrow> (None, w2)))"

text \<open>
  The first delete of \<open>Cleanup\<close> sends \<open>DeleteProvisionalGroupsQuery\<close> as it stands, its \<open>%s\<close> not
  filled in, with two arguments; the second is \<open>DeleteFromPendingQuery\<close>.
\<close>

definition cleanup_tables :: "dbenv \<Rightarrow> string \<Rightarrow> string \<Rightarrow> world \<Rightarrow> goerror option \<times> world" where
  "cleanup_tables E groupName ns w0 =
     (case call_ok w0 of
        (Inl e, w1) \<Rightarrow> (Some e, w1)
      | (Inr _, w1) \<Rightarrow>
     (case pool_exec_raw E DeleteProvisionalGroupsQuery [groupName, ns] w1 of
        (Inl e, w2) \<Rightarrow> (Some e, w2)
      | (Inr _, w2) \<Rightarrow>
     (case pool_update (\<lambda>t. Inr (t\<lparr>pending_queue := delete_pending {(groupName, ns)} (pending_queue t)\<rparr>)) w2 of
        (Inl e, w3) \<Rightarrow> (Some e, w3)
      | (Inr _, w3) \<Rightarrow> (None, w3))))"

definition Cleanup ::
  "dbenv \<Rightarrow> codec \<Rightarrow> kube_api \<Rightarrow> flux_client \<Rightarrow> string \<Rightarrow> int \<Rightarrow> bool \<Rightarrow> string \<Rightarrow> world \<Rightarrow> goerror option \<times> world" where
  "Cleanup E C K F podspec fluxID inKubernetes groupName w0 =
     (let (err, w1) = (if inKubernetes then deleteObjects C K podspec w0 else (None, w0))
      in if (case err of None \<Rightarrow> False | Some e \<Rightarrow> \<not> is_not_found K e) then (err, w1)
         else if - 1 < fluxID then deleteFluxion F fluxID w1
         else (case unmarshal C podspec of
                 Inl e \<Rightarrow> (Some e, w1)
               | Inr p \<Rightarrow> cleanup_tables E groupName (Namespace p) w1))"

definition CleanupWorker_Work ::
  "dbenv \<Rightarrow> codec \<Rightarrow> kube_api \<Rightarrow> flux_client \<Rightarrow> CleanupArgs \<Rightarrow> world \<Rightarrow> goerror option \<times> world" where
  "CleanupWorker_Work E C K F a =
     Cleanup E C K F (ca_Podspec a) (ca_FluxID a) (ca_Kubernetes a) (ca_GroupName a)"

section \<open>The job worker\<close>

text \<open>Every node once for each of its tasks; a loop from 0 to a negative bound does nothing.\<close>

fun expand_nodes :: "NodeAlloc list \<Rightarrow> string list \<Rightarrow> string list" where
  "expand_nodes [] nodes = nodes"
| "expand_nodes (n # ns) nodes = expand_nodes ns (nodes @ replicate (nat (na_Tasks n)) (na_NodeID n))"

text \<open>The driver encodes a \<open>uint64\<close> for an \<open>INTEGER\<close> parameter only when it fits.\<close>

definition AddReservation :: "string \<Rightarrow> uint64 \<Rightarrow> tables \<Rightarrow> goerror + tables" where
  "AddReservation g fluxID t =
     (if int4_range (uint fluxID)
      then Inr (t\<lparr>reservations := reservations t @ [\<lparr>rv_group_name = g, rv_flux_id = uint fluxID\<rparr>]\<rparr>)
      else Inl out_of_range)"

definition UpdatingPendingWithFluxID :: "uint64 \<Rightarrow> string \<Rightarrow> string \<Rightarrow> tables \<Rightarrow> goerror + tables" where
  "UpdatingPendingWithFluxID fluxID g ns t =
     (if int4_range (uint fluxID)
      then Inr (t\<lparr>pending_queue := set_flux_id (g, ns) (uint fluxID) (pending_queue t)\<rparr>)
      else Inl out_of_range)"

definition cannot_allocate :: "string \<Rightarrow> string" where
  "cannot_allocate g = ''Fluxion could not allocate nodes for '' @ g @ '', likely Unsatisfiable''"

definition not_allocated :: "string \<Rightarrow> int \<Rightarrow> string" where
  "not_allocated g at = ''Fluxion could not allocate nodes for '' @ g @ '', ETA '' @ show_int at"

text \<open>What the worker does with an allocation: the nodes, the flux id, the cleanup.\<close>

definition record_allocation ::
  "int \<Rightarrow> pod \<Rightarrow> nat \<Rightarrow> JobArgs \<Rightarrow> MatchResponse \<Rightarrow> world \<Rightarrow> goerror option outcome \<times> world" where
  "record_allocation now p jobid a resp w0 =
     (let nodeStr = strings_Join (expand_nodes (mp_Nodelist resp) []) '',''
      in case pool_update (\<lambda>t. Inr (t\<lparr>river_job := UpdateNodes nodeStr jobid (river_job t)\<rparr>)) w0 of
           (Inl e, w1) \<Rightarrow> (Returns (Some e), w1)
         | (Inr _, w1) \<Rightarrow>
        (case pool_update (UpdatingPendingWithFluxID (mp_FluxID resp) (ja_GroupName a) (ja_Namespace a)) w1 of
           (Inl e, w2) \<Rightarrow> (Returns (Some e), w2)
         | (Inr _, w2) \<Rightarrow>
             if 0 < ja_Duration a
             then SubmitCleanup now (ActiveDeadlineSeconds p) (ja_Podspec a)
                    (sint (mp_FluxID resp)) True [] w2
             else (Returns None, w2)))"

definition Work ::
  "int \<Rightarrow> codec \<Rightarrow> flux_client \<Rightarrow> nat \<Rightarrow> JobArgs \<Rightarrow> world \<Rightarrow> goerror option outcome \<times> world" where
  "Work now C F jobid a w0 =
     (case unmarshal C (ja_Podspec a) of
        Inl e \<Rightarrow> (Returns (Some e), w0)
      | Inr p \<Rightarrow>
     (let jobspec = PreparePodJobSpec p (ja_GroupName a)
      in case call_ok w0 of
        (Inl e, w1) \<Rightarrow> (Returns (Some e), w1)
      | (Inr _, w1) \<Rightarrow>
     (case match_call F \<lparr>mr_Podspec = jobspec, mr_Count = ja_GroupSize a,
                         mr_Reserve = ja_Reservation a, mr_JobName = ja_GroupName a\<rparr> w1 of
        (Inl e, w2) \<Rightarrow> (Returns (Some e), w2)
      | (Inr resp, w2) \<Rightarrow>
     (case call_ok w2 of
        (Inl e, w3) \<Rightarrow> (Returns (Some e), w3)
      | (Inr _, w3) \<Rightarrow>
     if \<not> mp_Reserved resp \<and> \<not> mp_Allocated resp
     then (Returns (Some (RiverCancel (cannot_allocate (ja_GroupName a)))), w3)
     else
     (case (if mp_Reserved resp then pool_update (AddReservation (ja_GroupName a) (mp_FluxID resp)) w3
            else (Inr (), w3)) of
        (Inl e, w4) \<Rightarrow> (Returns (Some e), w4)
      | (Inr _, w4) \<Rightarrow>
     if \<not> mp_Allocated resp
     then (Returns (Some (GoErr (not_allocated (ja_GroupName a) (mp_ReservedAt resp)))), w4)
     else record_allocation now p jobid a resp w4)))))"

section \<open>Lemmas\<close>

lemma expand_nodes_eq:
  "expand_nodes ns acc = acc @ concat (map (\<lambda>n. replicate (nat (na_Tasks n)) (na_NodeID n)) ns)"
  by (induction ns acc rule: expand_nodes.induct) auto

lemma length_expand_nodes:
  "length (expand_nodes ns []) = (\<Sum>n\<leftarrow>ns. nat (na_Tasks n))"
  by (simp add: expand_nodes_eq length_concat comp_def)

lemma scheduled_at_in_range:
  "0 \<le> secs \<Longrightarrow> secs < 2 ^ 31 \<Longrightarrow> scheduled_at now secs = now + 10 ^ 9 * secs"
  by (simp add: scheduled_at_def wrap64_id)

end
