(* ===== verification/QueueManager.thy ===== *)
theory QueueManager
  imports Strategy Workers
begin

text \<open>
  The queue, \<open>kubernetes/pkg/fluxnetes/queue.go\<close>, over any strategy, and its pod events,
  \<open>kubernetes/pkg/fluxnetes/events.go\<close>. The live pods the event handler looks at come from the
  Kubernetes API, a parameter.
\<close>

record queue =
  q_Strategy :: strategy
  q_ReservationDepth :: int
  q_worker_queues :: "string list"   \<comment> \<open>the river queues this client works, \<open>Config.Queues\<close>\<close>

definition NewQueue :: "strategy \<Rightarrow> world \<Rightarrow> (goerror + queue) \<times> world" where
  "NewQueue strategy w0 =
     (case call_ok w0 of
        (Inl e, w1) \<Rightarrow> (Inl e, w1)
      | (Inr _, w1) \<Rightarrow>
     (case call_ok w1 of
        (Inl e, w2) \<Rightarrow> (Inl e, w2)
      | (Inr _, w2) \<Rightarrow>
     (case call_ok w2 of
        (Inl e, w3) \<Rightarrow> (Inl e, w3)
      | (Inr _, w3) \<Rightarrow>
          let depth = st_GetReservationDepth strategy
          in if depth < 0
             then (Inl (GoErr ''Reservation depth of a strategy must be >= -1''), w3)
             else (Inr \<lparr>q_Strategy = strategy, q_ReservationDepth = depth,
                        q_worker_queues = [QueueDefault, ''cancel_queue'']\<rparr>, w3))))"

section \<open>Queries shared by the strategies\<close>

definition no_rows :: goerror where
  "no_rows = GoErr ''no rows in result set''"

definition select_flux_id :: "string \<Rightarrow> string \<Rightarrow> tables \<Rightarrow> goerror + int" where
  "select_flux_id groupName ns t =
     (case row_of pending_key (pending_queue t) (groupName, ns) of
        None \<Rightarrow> Inl no_rows
      | Some r \<Rightarrow> (case pq_flux_id r of
                     None \<Rightarrow> Inl (GoErr ''cannot scan NULL into *int32'')
                   | Some i \<Rightarrow> Inr i))"

definition GetFluxID :: "string \<Rightarrow> string \<Rightarrow> world \<Rightarrow> (int \<times> goerror option) \<times> world" where
  "GetFluxID ns groupName w0 =
     (case call_ok w0 of
        (Inl e, w1) \<Rightarrow> ((- 1, Some e), w1)
      | (Inr _, w1) \<Rightarrow>
     (case query (select_flux_id groupName ns) w1 of
        (Inl e, w2) \<Rightarrow> ((- 1, Some e), w2)
      | (Inr fluxID, w2) \<Rightarrow> ((fluxID, None), w2)))"

text \<open>
  \<open>get_pod\<close> is the API server's answer for a pod: the object the client returns and the error.
  For a pod that is not there the client returns the zero object with a not-found error.
\<close>

record live_pods =
  get_pod :: "string \<Rightarrow> string \<Rightarrow> pod \<times> goerror option"
  pod_not_found :: "goerror \<Rightarrow> bool"
  IsPodPhaseTerminal :: "string \<Rightarrow> bool"

fun live_loop :: "live_pods \<Rightarrow> string \<Rightarrow> pod_row list \<Rightarrow> pod list \<Rightarrow> pod list" where
  "live_loop L ns [] podlist = podlist"
| "live_loop L ns (item # rest) podlist =
     (let (p, err) = get_pod L ns (pr_name item)
      in live_loop L ns rest
           (if (case err of None \<Rightarrow> False | Some e \<Rightarrow> \<not> pod_not_found L e) then podlist
            else podlist @ [p]))"

definition GetGroupPods ::
  "dbenv \<Rightarrow> live_pods \<Rightarrow> string \<Rightarrow> string \<Rightarrow> world \<Rightarrow> (pod list \<times> goerror option) \<times> world" where
  "GetGroupPods E L ns groupName w0 =
     (case call_ok w0 of
        (Inl e, w1) \<Rightarrow> (([], Some e), w1)
      | (Inr _, w1) \<Rightarrow>
     (case query (SelectPods E groupName ns) w1 of
        (Inl e, w2) \<Rightarrow> (([], Some e), w2)
      | (Inr pods, w2) \<Rightarrow>
     (case call_ok w2 of
        (Inl e, w3) \<Rightarrow> (([], Some e), w3)
      | (Inr _, w3) \<Rightarrow>
     (case call_ok w3 of
        (Inl e, w4) \<Rightarrow> (([], Some e), w4)
      | (Inr _, w4) \<Rightarrow> ((live_loop L ns pods [], None), w4)))))"

definition select_podspec :: "string \<Rightarrow> string \<Rightarrow> string \<Rightarrow> tables \<Rightarrow> goerror + string" where
  "select_podspec groupName name ns t =
     (case row_of pod_key (pods_provisional t) (groupName, ns, name) of
        None \<Rightarrow> Inl no_rows
      | Some r \<Rightarrow> Inr (pr_podspec r))"

text \<open>The pod is returned by reference: nil when the query fails, and together with the error when
  the stored text cannot be decoded.\<close>

definition GetPodSpec ::
  "codec \<Rightarrow> string \<Rightarrow> string \<Rightarrow> string \<Rightarrow> world \<Rightarrow> (pod option \<times> goerror option) \<times> world" where
  "GetPodSpec C ns name groupName w0 =
     (case call_ok w0 of
        (Inl e, w1) \<Rightarrow> ((None, Some e), w1)
      | (Inr _, w1) \<Rightarrow>
     (case query (select_podspec groupName name ns) w1 of
        (Inl e, w2) \<Rightarrow> ((None, Some e), w2)
      | (Inr podspec, w2) \<Rightarrow>
     (case unmarshal C podspec of
        Inl e \<Rightarrow> ((Some (partly C podspec), Some e), w2)
      | Inr p \<Rightarrow> ((Some p, None), w2))))"

definition select_created_at :: "dbenv \<Rightarrow> string \<Rightarrow> string \<Rightarrow> tables \<Rightarrow> goerror + int" where
  "select_created_at E groupName ns t =
     (case scan_pods E (filter (\<lambda>r. pr_group_name r = groupName \<and> pr_namespace r = ns)
             (pods_provisional t)) of
        [] \<Rightarrow> Inl no_rows
      | r # _ \<Rightarrow> scan_created E (pr_created_at r))"

definition GetCreationTimestamp :: "dbenv \<Rightarrow> int \<Rightarrow> pod \<Rightarrow> string \<Rightarrow> world \<Rightarrow> int \<times> world" where
  "GetCreationTimestamp E now p groupName w =
     (case query (select_created_at E groupName (Namespace p)) w of
        (Inr ts, w1) \<Rightarrow> (ts, w1)
      | (Inl e, w1) \<Rightarrow> (GetPodCreationTimestamp now p, w1))"

section \<open>Enqueue and Schedule\<close>

definition Queue_Enqueue ::
  "dbenv \<Rightarrow> queue \<Rightarrow> int \<Rightarrow> pod \<Rightarrow> world \<Rightarrow> ((EnqueueStatus \<times> goerror option) \<times> world) outcome" where
  "Queue_Enqueue E q now p w0 =
     (let groupName = GetPodGroupName p
      in bind_outcome (GetPodGroupSize p) (\<lambda>(res, p).
           case res of
             Inl e \<Rightarrow> Returns ((Unknown, Some e), w0)
           | Inr sz \<Rightarrow>
               (let (ts, w1) = GetCreationTimestamp E now p groupName w0;
                    duration = GetPodGroupDuration p;
                    grp = \<lparr>pg_Name = groupName, pg_Size = sz, pg_Timestamp = ts, pg_Duration = duration\<rparr>
                in Returns (st_Enqueue (q_Strategy q) p grp w1))))"

definition Queue_Schedule :: "queue \<Rightarrow> world \<Rightarrow> goerror option \<times> world" where
  "Queue_Schedule q w0 =
     (case st_Schedule (q_Strategy q) (q_ReservationDepth q) w0 of
        (Inl e, w1) \<Rightarrow> (Some e, w1)
      | (Inr batch, w1) \<Rightarrow>
          if 0 < length batch
          then (case pool_update (InsertMany batch) w1 of
                  (Inl e, w2) \<Rightarrow> (Some e, w2)
                | (Inr _, w2) \<Rightarrow> st_PostSubmit (q_Strategy q) w2)
          else st_PostSubmit (q_Strategy q) w1)"

section \<open>Events\<close>

definition Queue_Cleanup ::
  "dbenv \<Rightarrow> codec \<Rightarrow> kube_api \<Rightarrow> flux_client \<Rightarrow> string \<Rightarrow> string \<Rightarrow> world \<Rightarrow> goerror option \<times> world" where
  "Queue_Cleanup E C K F podspec groupName = Cleanup E C K F podspec (- 1) True groupName"

fun all_finished :: "live_pods \<Rightarrow> pod list \<Rightarrow> bool" where
  "all_finished L [] = True"
| "all_finished L (p # ps) = (if \<not> IsPodPhaseTerminal L (Phase p) then False else all_finished L ps)"

definition DeletePodEvent ::
  "dbenv \<Rightarrow> codec \<Rightarrow> kube_api \<Rightarrow> flux_client \<Rightarrow> live_pods \<Rightarrow> pod \<Rightarrow> world \<Rightarrow> world" where
  "DeletePodEvent E C K F L p w0 =
     (let podspec = (case marshal C p of Inl e \<Rightarrow> [] | Inr s \<Rightarrow> s);
          groupName = GetPodGroupName p;
          ((pods, err), w1) = GetGroupPods E L (Namespace p) groupName w0;
          ((fluxID, err), w2) = GetFluxID (Namespace p) groupName w1;
          fluxID = (if all_finished L pods then fluxID else - 1)
      in snd (Cleanup E C K F podspec fluxID False groupName w2))"

section \<open>Any strategy that keeps its contract\<close>

context queue_strategy
begin

lemma Queue_Schedule_keeps:
  assumes "Queue_Schedule q w = (r, w')" and "q_Strategy q = S" and "inv (tables w)"
  shows "inv (tables w') \<and> jobs_grow (river_job (tables w)) (river_job (tables w'))"
proof -
  obtain r1 w1 where c: "st_Schedule S (q_ReservationDepth q) w = (r1, w1)" by (meson surj_pair)
  then have 1: "inv (tables w1)" "river_job (tables w1) = river_job (tables w)"
    using schedule_inv schedule_jobs assms(3) by blast+
  show ?thesis
  proof (cases "\<exists>b. r1 = Inr b \<and> b \<noteq> []")
    case True
    then obtain b where b: "r1 = Inr b" "b \<noteq> []" by blast
    obtain r2 w2 where c2: "pool_update (InsertMany b) w1 = (r2, w2)" by (meson surj_pair)
    have 2: "inv (tables w2)" "jobs_grow (river_job (tables w)) (river_job (tables w2))"
      using c2 1 inv_jobs b by (auto elim!: pool_update_cases simp: InsertMany_def)
    show ?thesis
    proof (cases r2)
      case (Inl e)
      then show ?thesis using assms(1,2) c b c2 2 by (auto simp: Queue_Schedule_def)
    next
      case (Inr u)
      then have "st_PostSubmit S w2 = (r, w')"
        using assms(1,2) c b c2 by (auto simp: Queue_Schedule_def)
      then show ?thesis using 2 post_inv post_jobs jobs_grow_trans by metis
    qed
  next
    case False
    then have "w' = w1 \<or> st_PostSubmit S w1 = (r, w')"
      using assms(1,2) c by (cases r1) (auto simp: Queue_Schedule_def)
    then show ?thesis using 1 post_inv post_jobs jobs_grow_refl by metis
  qed
qed

lemma NewQueue_accepts:
  assumes "tape w = []"
  shows "\<exists>q. NewQueue S w = (Inr q, w) \<and> q_Strategy q = S \<and>
    q_ReservationDepth q = st_GetReservationDepth S"
  using assms depth_valid by (simp add: NewQueue_def Let_def)

end

end
