(* ===== verification/Reach.thy ===== *)
theory Reach
  imports QueueManager
begin

text \<open>
  The whole queue as a transition system: pods arrive, scheduling cycles run, workers take jobs
  and cleanups, pods are deleted, and the network fails at any call. The invariant of the
  reachable states: the unique indexes, quotable group keys, and that a group never counts more
  pods than the table holds for it.
\<close>

section \<open>What each handler leaves alone\<close>

text \<open>Handlers that are not part of enqueueing or scheduling keep the provisional tables and
  the keys and the sizes of the pending table.\<close>

definition provisional_kept :: "tables \<Rightarrow> tables \<Rightarrow> bool" where
  "provisional_kept t t' \<longleftrightarrow>
     pods_provisional t' = pods_provisional t \<and> groups_provisional t' = groups_provisional t \<and>
     map (\<lambda>r. (pending_key r, pq_group_size r)) (pending_queue t') =
       map (\<lambda>r. (pending_key r, pq_group_size r)) (pending_queue t)"

lemma kept_refl [simp]: "provisional_kept t t"
  by (simp add: provisional_kept_def)

lemma kept_keys:
  assumes "provisional_kept t t'"
  shows "map pending_key (pending_queue t') = map pending_key (pending_queue t)"
proof -
  let ?row = "\<lambda>r. (pending_key r, pq_group_size r)"
  have "map ?row (pending_queue t') = map ?row (pending_queue t)" using assms unfolding provisional_kept_def by blast
  then have "map fst (map ?row (pending_queue t')) = map fst (map ?row (pending_queue t))" by (rule arg_cong)
  then show ?thesis by (simp add: comp_def)
qed

lemma kept_key_set: "provisional_kept t t' \<Longrightarrow> pending_key ` set (pending_queue t') = pending_key ` set (pending_queue t)"
  by (drule kept_keys) (metis set_map)

lemma kept_trans: "provisional_kept a b \<Longrightarrow> provisional_kept b c \<Longrightarrow> provisional_kept a c"
  by (simp add: provisional_kept_def)

lemma kept_updates [simp]:
  "provisional_kept t (t\<lparr>river_job := js\<rparr>)"
  "provisional_kept t (t\<lparr>reservations := rs\<rparr>)"
  "provisional_kept t (t\<lparr>pending_queue := set_flux_id k i (pending_queue t)\<rparr>)"
  by (simp_all add: provisional_kept_def set_flux_id_def pending_key_def)

lemma calls_tables:
  "call_ok w = (r, w') \<Longrightarrow> tables w' = tables w"
  "query f w = (r2, w') \<Longrightarrow> tables w' = tables w"
  "match_call F req w = (r3, w') \<Longrightarrow> tables w' = tables w"
  "cancel_call F creq w = (r4, w') \<Longrightarrow> tables w' = tables w"
  "delete_call K kd ns nm w = (r5, w') \<Longrightarrow> tables w' = tables w"
  "get_job_call K ns nm w = (r6, w') \<Longrightarrow> tables w' = tables w"
proof -
  show "call_ok w = (r, w') \<Longrightarrow> tables w' = tables w" by (auto elim: call_ok_cases)
  show "query f w = (r2, w') \<Longrightarrow> tables w' = tables w" by (auto elim: query_cases)
qed (auto simp: match_call_def cancel_call_def delete_call_def get_job_call_def
      elim!: net_call_cases split: option.splits)

lemma pool_update_kept:
  assumes "pool_update f w = (r, w')" and "\<And>t t'. f t = Inr t' \<Longrightarrow> provisional_kept t t'"
  shows "provisional_kept (tables w) (tables w')"
  using assms(1) by (cases rule: pool_update_cases) (auto intro: assms(2))

lemma updates_kept:
  "pool_update (AddReservation g i) w = (r, w') \<Longrightarrow> provisional_kept (tables w) (tables w')"
  "pool_update (UpdatingPendingWithFluxID i g ns) w = (r, w') \<Longrightarrow> provisional_kept (tables w) (tables w')"
  "pool_update (InsertMany ps) w = (r, w') \<Longrightarrow> provisional_kept (tables w) (tables w')"
  "pool_update (\<lambda>t. Inr (t\<lparr>river_job := UpdateNodes s j (river_job t)\<rparr>)) w = (r, w') \<Longrightarrow>
     provisional_kept (tables w) (tables w')"
  by (erule pool_update_kept; auto simp: AddReservation_def UpdatingPendingWithFluxID_def InsertMany_def
      split: if_splits)+

lemma SubmitCleanup_kept:
  "SubmitCleanup now secs spec i k tags w = (r, w') \<Longrightarrow> provisional_kept (tables w) (tables w')"
  by (auto simp: SubmitCleanup_def Let_def split: prod.splits sum.splits option.splits
      dest!: calls_tables updates_kept)

lemma record_allocation_kept:
  assumes "record_allocation now p jobid a resp w = (r, w')"
  shows "provisional_kept (tables w) (tables w')"
  using assms unfolding record_allocation_def Let_def
  by (auto split: prod.splits sum.splits if_splits dest!: updates_kept SubmitCleanup_kept
      intro: kept_trans)

lemma Work_kept:
  assumes "Work now C F jobid a w = (r, w')"
  shows "provisional_kept (tables w) (tables w')"
  using assms unfolding Work_def Let_def
  by (auto split: prod.splits sum.splits if_splits
      dest!: calls_tables updates_kept record_allocation_kept intro: kept_trans)

lemma deleteFluxion_tables: "deleteFluxion F i w = (r, w') \<Longrightarrow> tables w' = tables w"
  by (auto simp: deleteFluxion_def split: prod.splits sum.splits dest!: calls_tables)

lemma deleteJob_tables: "deleteJob K ns own w = (r, w') \<Longrightarrow> tables w' = tables w"
  by (auto simp: deleteJob_def split: prod.splits sum.splits dest!: calls_tables)

lemma delete_owners_tables: "delete_owners K ns owners w = (r, w') \<Longrightarrow> tables w' = tables w"
  by (induction K ns owners w rule: delete_owners.induct) (auto split: if_splits dest!: deleteJob_tables)

lemma deleteObjects_tables: "deleteObjects C K spec w = (r, w') \<Longrightarrow> tables w' = tables w"
  by (auto simp: deleteObjects_def split: prod.splits sum.splits if_splits
      dest!: calls_tables delete_owners_tables)

text \<open>The unformatted delete is refused by the driver: it has no parameters and is given two.\<close>

lemma placeholders_delete_groups: "placeholders DeleteProvisionalGroupsQuery = 0"
  by (simp add: DeleteProvisionalGroupsQuery_def)

lemma unformatted_delete_fails:
  assumes "arity_checked E" and "pool_exec_raw E DeleteProvisionalGroupsQuery [g, ns] w = (r, w')"
  shows "\<exists>e. r = Inl e \<and> tables w' = tables w"
  using assms(2)
proof (cases rule: pool_exec_raw_cases)
  case (ok t' ts)
  have "\<exists>e. raw_sql E DeleteProvisionalGroupsQuery [g, ns] (tables w) = (Some e, tables w)"
    using assms(1) placeholders_delete_groups by (simp add: arity_checked_def)
  then show ?thesis using ok by auto
qed auto

lemma cleanup_tables_same:
  "arity_checked E \<Longrightarrow> cleanup_tables E g ns w = (r, w') \<Longrightarrow>
   tables w' = tables w \<and> (\<exists>e. r = Some e)"
  by (auto simp: cleanup_tables_def split: prod.splits sum.splits
      dest!: calls_tables unformatted_delete_fails)

lemma Cleanup_tables:
  assumes "arity_checked E" and "Cleanup E C K F spec i k g w = (r, w')"
  shows "tables w' = tables w"
  using assms(2) unfolding Cleanup_def Let_def
  by (auto split: prod.splits sum.splits if_splits option.splits
      dest!: deleteObjects_tables deleteFluxion_tables cleanup_tables_same [OF assms(1)])

lemma GetGroupPods_tables: "GetGroupPods E L ns g w = (r, w') \<Longrightarrow> tables w' = tables w"
  by (auto simp: GetGroupPods_def split: prod.splits sum.splits dest!: calls_tables)

lemma GetFluxID_tables: "GetFluxID ns g w = (r, w') \<Longrightarrow> tables w' = tables w"
  by (auto simp: GetFluxID_def split: prod.splits sum.splits dest!: calls_tables)

lemma GetCreationTimestamp_tables: "GetCreationTimestamp E now p g w = (r, w') \<Longrightarrow> tables w' = tables w"
  by (auto simp: GetCreationTimestamp_def split: prod.splits sum.splits dest!: calls_tables)

lemma DeletePodEvent_tables:
  assumes "arity_checked E"
  shows "tables (DeletePodEvent E C K F L p w) = tables w"
proof -
  obtain pods err w1 where a: "GetGroupPods E L (Namespace p) (GetPodGroupName p) w = ((pods, err), w1)"
    by (metis surj_pair)
  obtain i err2 w2 where b: "GetFluxID (Namespace p) (GetPodGroupName p) w1 = ((i, err2), w2)"
    by (metis surj_pair)
  have "tables (snd (Cleanup E C K F spec j False g w2)) = tables w2" for spec j g
    using Cleanup_tables [OF assms, of C K F spec j False g w2] by (cases "Cleanup E C K F spec j False g w2") simp
  then show ?thesis using GetGroupPods_tables [OF a] GetFluxID_tables [OF b]
    by (simp add: DeletePodEvent_def Let_def a b)
qed

section \<open>Counting pods\<close>

definition pods_of :: "tables \<Rightarrow> string \<times> string \<Rightarrow> pod_row list" where
  "pods_of t k = filter (\<lambda>r. (pr_group_name r, pr_namespace r) = k) (pods_provisional t)"

definition count_ok :: "tables \<Rightarrow> bool" where
  "count_ok t \<longleftrightarrow> (\<forall>r \<in> set (groups_provisional t). gr_current_size r \<le> int (length (pods_of t (group_key r))))"

lemma count_ok_subset:
  assumes "count_ok t" and "pods_provisional t' = pods_provisional t"
    and "set (groups_provisional t') \<subseteq> set (groups_provisional t)"
  shows "count_ok t'"
  using assms by (auto simp: count_ok_def pods_of_def)

definition fresh_pod :: "pod \<Rightarrow> PodGroup \<Rightarrow> tables \<Rightarrow> bool" where
  "fresh_pod p g t \<longleftrightarrow> (pg_Name g, Namespace p, Name p) \<notin> pod_key ` set (pods_provisional t)"

lemma pods_of_after_pod:
  assumes "fresh_pod p g t"
  shows "pods_of (after_pod spec p g t) k =
    pods_of t k @ (if k = (pg_Name g, Namespace p) then [new_pod_row spec p g] else [])"
proof -
  have "insert_pod (new_pod_row spec p g) (pods_provisional t) = pods_provisional t @ [new_pod_row spec p g]"
    using assms by (force simp: insert_pod_def fresh_pod_def)
  then show ?thesis by (auto simp: pods_of_def after_pod_def new_pod_row_def)
qed

lemma pods_of_later:
  "pods_of (after_increment spec p g t) k = pods_of (after_pod spec p g t) k"
  "pods_of (after_request spec p g t) k = pods_of (after_pod spec p g t) k"
  by (simp_all add: pods_of_def after_increment_def after_request_def after_pod_def)

lemma groups_after:
  "groups_provisional (after_pod spec p g t) = groups_provisional t"
  "groups_provisional (after_increment spec p g t) =
     increment_group (pg_Name g, Namespace p) (groups_provisional t)"
  "groups_provisional (after_request spec p g t) =
     insert_group (new_group_row spec p g)
       (increment_group (pg_Name g, Namespace p) (groups_provisional t))"
  by (simp_all add: after_pod_def after_increment_def after_request_def)

lemma set_increment_group:
  "r \<in> set (increment_group k t) \<Longrightarrow>
   \<exists>x \<in> set t. group_key r = group_key x \<and>
     gr_current_size r = gr_current_size x + (if group_key x = k then 1 else 0)"
  by (fastforce simp: increment_group_def group_key_def)

lemma count_ok_after:
  assumes ok: "count_ok t" and fresh: "fresh_pod p g t"
  shows "count_ok (after_pod spec p g t)" and "count_ok (after_increment spec p g t)"
    and "count_ok (after_request spec p g t)"
proof -
  let ?k = "(pg_Name g, Namespace p)"
  note pods = pods_of_later pods_of_after_pod [OF fresh] groups_after
  show "count_ok (after_pod spec p g t)"
    using ok by (auto simp: count_ok_def pods)
  have inc: "gr_current_size r \<le> int (length (pods_of (after_pod spec p g t) (group_key r)))"
    if "r \<in> set (increment_group ?k (groups_provisional t))" for r
    using set_increment_group [OF that] ok by (auto simp: count_ok_def pods)
  then show "count_ok (after_increment spec p g t)"
    by (simp add: count_ok_def pods_of_later groups_after)
  have "r = new_group_row spec p g \<or> r \<in> set (increment_group ?k (groups_provisional t))"
    if "r \<in> set (insert_group (new_group_row spec p g) (increment_group ?k (groups_provisional t)))" for r
    using that by (auto simp: insert_group_def split: if_splits)
  moreover have "gr_current_size (new_group_row spec p g) \<le>
      int (length (pods_of (after_pod spec p g t) (group_key (new_group_row spec p g))))"
    by (simp add: pods) (simp add: new_group_row_def)
  ultimately show "count_ok (after_request spec p g t)"
    using inc unfolding count_ok_def pods_of_later groups_after by metis
qed

lemma enqueue_ends_count:
  "enqueue_ends E C p g t st err t' en \<Longrightarrow> count_ok t \<Longrightarrow> fresh_pod p g t \<Longrightarrow> count_ok t'"
  using count_ok_after by (cases en) (auto simp: enqueue_ends_def)

section \<open>Scheduling only removes groups\<close>

lemma ReadyJobs_groups:
  assumes "ReadyJobs E iter w = (r, w')" and "queue_inv E iter (tables w)"
  shows "pods_provisional (tables w') = pods_provisional (tables w) \<and>
    set (groups_provisional (tables w')) \<subseteq> set (groups_provisional (tables w))"
proof -
  obtain jobs err where r: "r = (jobs, err)" by (cases r)
  have "scans_ok E" "iter_ok iter" "plain_groups (tables w)"
    using assms(2) by (auto simp: queue_inv_def strategy_env_def)
  from assms(1) [unfolded r] this show ?thesis
    by (cases rule: ReadyJobs_cases) (auto simp: mark_pending_def move_groups_def delete_groups_def)
qed

lemma easy_PostSubmit_kept:
  assumes "clears_reservations E" and "easy_PostSubmit E collect w = (r, w')"
  shows "provisional_kept (tables w) (tables w')"
proof -
  have clear: "provisional_kept (tables v) (tables v')"
    if "pool_exec_raw E DeleteReservationsQuery [] v = (x, v')" for v v' x
    using that
  proof (cases rule: pool_exec_raw_cases)
    case (ok t' ts)
    then have "t' = (tables v)\<lparr>reservations := []\<rparr>"
      using assms(1) unfolding clears_reservations_def by (metis (mono_tags, lifting) old.prod.case option.simps(4))
    then show ?thesis using ok by simp
  qed simp
  show ?thesis
    using assms(2) unfolding easy_PostSubmit_def Let_def
    by (auto split: prod.splits sum.splits if_splits
        dest!: calls_tables updates_kept clear intro: kept_trans)
qed

text \<open>A cycle is \<open>ReadyJobs\<close> and then calls that keep the provisional tables.\<close>

lemma Queue_Schedule_ReadyJobs:
  assumes run: "Queue_Schedule q w = (r, w')" and S: "q_Strategy q = EasyBackfill E C iter collect"
    and inv: "queue_inv E iter (tables w)"
  obtains jobs err w1 where "ReadyJobs E iter w = ((jobs, err), w1)" "provisional_kept (tables w1) (tables w')"
proof -
  have clear: "clears_reservations E" using inv by (simp add: queue_inv_def strategy_env_def)
  obtain r1 w1 where c: "easy_Schedule E iter (q_ReservationDepth q) w = (r1, w1)" by (meson surj_pair)
  obtain jobs err w2 where rj: "ReadyJobs E iter w = ((jobs, err), w2)" by (metis surj_pair)
  then have "w2 = w1" using c by (auto simp: easy_Schedule_def split: prod.splits option.splits)
  moreover have "provisional_kept (tables w1) (tables w')"
    using run S c unfolding Queue_Schedule_def EasyBackfill_def
    by (auto split: prod.splits sum.splits if_splits
        dest!: updates_kept easy_PostSubmit_kept [OF clear] intro: kept_trans)
  ultimately show ?thesis using rj that by blast
qed

lemma Queue_Schedule_groups:
  assumes "Queue_Schedule q w = (r, w')" and "q_Strategy q = EasyBackfill E C iter collect"
    and inv: "queue_inv E iter (tables w)"
  shows "pods_provisional (tables w') = pods_provisional (tables w) \<and>
    set (groups_provisional (tables w')) \<subseteq> set (groups_provisional (tables w))"
  using assms
proof (rule Queue_Schedule_ReadyJobs)
  fix jobs err w1
  assume rj: "ReadyJobs E iter w = ((jobs, err), w1)" and kept: "provisional_kept (tables w1) (tables w')"
  show ?thesis using ReadyJobs_groups [OF rj inv] kept unfolding provisional_kept_def by simp
qed

section \<open>The transition system\<close>

text \<open>
  \<open>pod_created\<close> asks that the pod is not in the table yet: the scheduler may enqueue a pod twice,
  and the case is treated apart. Names are quotable; without that a statement text has no
  meaning here.
\<close>

definition request_group :: "pod \<Rightarrow> int \<Rightarrow> int \<Rightarrow> PodGroup" where
  "request_group p sz ts = \<lparr>pg_Name = GetPodGroupName p, pg_Size = sz, pg_Timestamp = ts,
     pg_Duration = GetPodGroupDuration p\<rparr>"

definition accepted_pod :: "codec \<Rightarrow> pod \<Rightarrow> tables \<Rightarrow> bool" where
  "accepted_pod C p t \<longleftrightarrow>
     (GetPodGroupName p, Namespace p, Name p) \<notin> pod_key ` set (pods_provisional t) \<and>
     lit_ok (GetPodGroupName p) \<and> lit_ok (Namespace p) \<and> lit_ok (Name p) \<and>
     (\<forall>ls spec. marshal C (p\<lparr>Labels := ls\<rparr>) = Inr spec \<longrightarrow> lit_ok spec)"

inductive queue_step ::
  "dbenv \<Rightarrow> codec \<Rightarrow> (JobArgs list \<Rightarrow> JobArgs list) \<Rightarrow>
   (reservation_row list \<Rightarrow> goerror + ReservationModel list) \<Rightarrow> kube_api \<Rightarrow> flux_client \<Rightarrow>
   live_pods \<Rightarrow> world \<Rightarrow> world \<Rightarrow> bool"
  for E C iter collect K F L where
  pod_created: "Queue_Enqueue E q now p w = Returns (r, w') \<Longrightarrow>
     q_Strategy q = EasyBackfill E C iter collect \<Longrightarrow> accepted_pod C p (tables w) \<Longrightarrow>
     queue_step E C iter collect K F L w w'"
| schedule_cycle: "Queue_Schedule q w = (r, w') \<Longrightarrow>
     q_Strategy q = EasyBackfill E C iter collect \<Longrightarrow> queue_step E C iter collect K F L w w'"
| job_worked: "Work now C F jobid a w = (res, w') \<Longrightarrow> queue_step E C iter collect K F L w w'"
| cleanup_worked: "CleanupWorker_Work E C K F ca w = (err, w') \<Longrightarrow> queue_step E C iter collect K F L w w'"
| unschedulable: "Queue_Cleanup E C K F podspec g w = (err, w') \<Longrightarrow> queue_step E C iter collect K F L w w'"
| pod_deleted: "queue_step E C iter collect K F L w (DeletePodEvent E C K F L p w)"
| network: "queue_step E C iter collect K F L w (w\<lparr>tape := faults\<rparr>)"

inductive queue_reach ::
  "dbenv \<Rightarrow> codec \<Rightarrow> (JobArgs list \<Rightarrow> JobArgs list) \<Rightarrow>
   (reservation_row list \<Rightarrow> goerror + ReservationModel list) \<Rightarrow> kube_api \<Rightarrow> flux_client \<Rightarrow>
   live_pods \<Rightarrow> world \<Rightarrow> bool"
  for E C iter collect K F L where
  start: "tables w = \<lparr>pods_provisional = [], groups_provisional = [], reservations = [],
            pending_queue = [], river_job = []\<rparr> \<Longrightarrow> queue_reach E C iter collect K F L w"
| step: "queue_reach E C iter collect K F L w \<Longrightarrow> queue_step E C iter collect K F L w w' \<Longrightarrow>
     queue_reach E C iter collect K F L w'"

lemma GetPodGroupName_frame:
  assumes "GetPodGroupSize p = Returns (Inr sz, p')"
  shows "GetPodGroupName p' = GetPodGroupName p \<and> Namespace p' = Namespace p \<and> Name p' = Name p \<and>
    GetPodGroupDuration p' = GetPodGroupDuration p \<and> p' = p\<lparr>Labels := Labels p'\<rparr>"
proof -
  have "map_get (Labels p') PodGroupLabel = map_get (Labels p) PodGroupLabel"
    using assms map_put_get
    by (fastforce simp: GetPodGroupSize_def bind_outcome_Returns_iff PodGroupLabel_def
        PodGroupSizeLabel_def split: option.splits)
  then have "GetPodGroupLabel p' = GetPodGroupLabel p"
    by (simp add: GetPodGroupLabel_def map_get_zero_def)
  moreover obtain ls where "p' = p\<lparr>Labels := ls\<rparr>" using GetPodGroupSize_frame [OF assms] by blast
  ultimately show ?thesis by (simp add: GetPodGroupName_def GetPodGroupDuration_def Let_def)
qed

text \<open>Every way a queue-level enqueue can end.\<close>

lemma Queue_Enqueue_ends:
  assumes run: "Queue_Enqueue E q now p w = Returns ((st, err), w')"
    and S: "q_Strategy q = EasyBackfill E C iter collect" and acc: "accepted_pod C p (tables w)"
  obtains (bad_size) e where "err = Some e" "st = Unknown" "w' = w"
    | (ends) ts t' sz p' stamp en where "w' = put ts t' w"
      "enqueue_ends E C p' (request_group p sz stamp) (tables w) st err t' en"
      "plain_pod C p' (request_group p sz stamp)" "fresh_pod p' (request_group p sz stamp) (tables w)"
      "Namespace p' = Namespace p" "Name p' = Name p" "int4_range sz"
proof -
  obtain res p' where size: "GetPodGroupSize p = Returns (res, p')"
    using run by (cases "GetPodGroupSize p") (auto simp: Queue_Enqueue_def Let_def)
  show ?thesis
  proof (cases res)
    case (Inl e)
    then show ?thesis using run size bad_size by (auto simp: Queue_Enqueue_def Let_def)
  next
    case (Inr sz)
    obtain stamp w1 where ts: "GetCreationTimestamp E now p' (GetPodGroupName p) w = (stamp, w1)"
      by (meson surj_pair)
    note frame = GetPodGroupName_frame [OF size [unfolded Inr]]
    let ?g = "request_group p sz stamp"
    have enq: "Enqueue E C p' ?g w1 = ((st, err), w')"
      using run size Inr ts frame S
      by (simp add: Queue_Enqueue_def Let_def EasyBackfill_def request_group_def)
    have lit: "lit_ok spec" if "marshal C p' = Inr spec" for spec
      using that acc frame unfolding accepted_pod_def by metis
    have plain: "plain_pod C p' ?g"
      using acc frame lit by (auto simp: accepted_pod_def plain_pod_def plain_request_def request_group_def)
    obtain ts1 where w1: "w1 = put ts1 (tables w) w"
      using ts by (auto simp: GetCreationTimestamp_def split: prod.splits sum.splits elim!: query_cases)
    obtain ts2 t' en where "w' = put ts2 t' w1" "enqueue_ends E C p' ?g (tables w1) st err t' en"
      using Enqueue_ends [OF enq] plain by (auto simp: plain_pod_def)
    then show ?thesis
      using ends [of ts2 t' p' sz stamp en] w1 plain acc frame GetPodGroupSize_range [OF size [unfolded Inr]]
      by (simp add: fresh_pod_def accepted_pod_def request_group_def)
  qed
qed

definition reach_inv :: "dbenv \<Rightarrow> (JobArgs list \<Rightarrow> JobArgs list) \<Rightarrow> tables \<Rightarrow> bool" where
  "reach_inv E iter t \<longleftrightarrow> queue_inv E iter t \<and> count_ok t"

lemma reach_inv_kept: "provisional_kept t t' \<Longrightarrow> reach_inv E iter t \<Longrightarrow> reach_inv E iter t'"
  using kept_keys [of t t']
  by (auto simp: provisional_kept_def reach_inv_def queue_inv_def tables_ok_def plain_groups_def
      unique_pending_def count_ok_def pods_of_def)

lemma step_inv:
  assumes "queue_step E C iter collect K F L w w'" and inv: "reach_inv E iter (tables w)"
    and ar: "arity_checked E"
  shows "reach_inv E iter (tables w')"
  using assms(1)
proof (cases rule: queue_step.cases)
  case (pod_created q now p r)
  obtain st err where r: "r = (st, err)" by (cases r)
  show ?thesis
    using pod_created(1) [unfolded r] pod_created(2,3)
    by (cases rule: Queue_Enqueue_ends)
      (use inv in \<open>auto simp: reach_inv_def dest: enqueue_ends_inv enqueue_ends_count\<close>)
next
  case (schedule_cycle q r)
  have "queue_inv E iter (tables w')"
    using easy.Queue_Schedule_keeps [OF schedule_cycle] inv by (simp add: reach_inv_def)
  then show ?thesis
    using Queue_Schedule_groups [OF schedule_cycle] inv count_ok_subset by (auto simp: reach_inv_def)
next
  case (job_worked now jobid a res)
  then show ?thesis using reach_inv_kept Work_kept inv by blast
next
  case (cleanup_worked ca err)
  then show ?thesis using inv Cleanup_tables [OF ar] by (auto simp: CleanupWorker_Work_def)
next
  case (unschedulable podspec g err)
  then show ?thesis using inv Cleanup_tables [OF ar] by (auto simp: Queue_Cleanup_def)
next
  case (pod_deleted p)
  then show ?thesis using inv DeletePodEvent_tables [OF ar] by simp
next
  case (network faults)
  then show ?thesis using inv by simp
qed

lemma reach_reach_inv:
  assumes "queue_reach E C iter collect K F L w" and "strategy_env E iter" and "arity_checked E"
  shows "reach_inv E iter (tables w)"
  using assms(1)
proof (induction rule: queue_reach.induct)
  case (start w)
  then show ?case using assms(2)
    by (simp add: reach_inv_def queue_inv_def tables_ok_def unique_pods_def unique_groups_def
        unique_pending_def plain_groups_def plain_keys_def count_ok_def)
next
  case (step w w')
  then show ?case using step_inv assms(3) by blast
qed

section \<open>What a selected job carries\<close>

text \<open>The names of a job are those of distinct stored pods of its group, at least as many as its
  size asks for.\<close>

lemma ready_group_pods:
  assumes inv: "reach_inv E iter t" and m: "m \<in> set (ready_rows t)"
  shows "mset (group_pods E t m) = mset (pods_of t (group_key m))"
    and "distinct (map pr_name (group_pods E t m))"
    and "gr_group_size m \<le> int (length (group_pods E t m))"
    and "ja_Names (group_job E t m) = strings_Join (map pr_name (group_pods E t m)) '',''"
proof -
  let ?ps = "group_pods E t m"
  show perm: "mset ?ps = mset (pods_of t (group_key m))"
    using inv by (simp add: group_pods_def pods_of_def group_key_def scans_ok_def reach_inv_def queue_inv_def strategy_env_def)
  have "distinct (map pr_name (pods_of t (group_key m)))"
    using inv by (cases "group_key m")
      (auto simp: reach_inv_def queue_inv_def tables_ok_def unique_pods_def pods_of_def distinct_map inj_on_def pod_key_def)
  then show "distinct (map pr_name ?ps)" using distinct_map_mset [OF perm] by blast
  show "gr_group_size m \<le> int (length ?ps)"
    using m inv mset_eq_length [OF perm] by (fastforce simp: ready_rows_def reach_inv_def count_ok_def)
qed (simp add: group_job_def job_of_def)

lemma selected_job_complete:
  assumes "selected E t jobs" and inv: "reach_inv E iter t" and "a \<in> set jobs"
  obtains m names where "m \<in> set (ready_rows t)" "a = group_job E t m"
    "names = map pr_name (group_pods E t m)" "ja_Names a = strings_Join names '',''"
    "distinct names" "set names = pr_name ` set (pods_of t (group_key m))" "gr_group_size m \<le> int (length names)"
    "mset (group_pods E t m) = mset (pods_of t (group_key m))"
proof -
  obtain m where m: "m \<in> set (ready_rows t)" "a = group_job E t m"
    using assms(1,3) by (auto simp: selected_def)
  note pods = ready_group_pods [OF inv m(1)]
  show ?thesis
    by (rule that [OF m refl]) (use pods m(2) mset_eq_set [OF pods(1)] in simp_all)
qed

end
