(* ===== verification/Contract.thy ===== *)
theory Contract
  imports Reach
begin

text \<open>
  One proof that every step of the queue keeps an invariant of the tables, for any invariant that
  survives the few ways in which the code changes a table: \<open>table_contract\<close> lists them as its laws,
  and its lemmas go through the handlers once. The clients are the type of the tables and the
  completeness of the groups in \<open>Typing\<close>.
\<close>

section \<open>What an enqueue has run\<close>

text \<open>However an enqueue ends, it has run a prefix of its three statements.\<close>

definition ran_request :: "string \<Rightarrow> pod \<Rightarrow> PodGroup \<Rightarrow> tables \<Rightarrow> tables \<Rightarrow> bool" where
  "ran_request spec p g t t' \<longleftrightarrow> (\<exists>k \<le> 3. run_all (take k (request_stmts spec p g)) t = Inr t')"

lemma ran_nothing [simp]: "ran_request spec p g t t"
  unfolding ran_request_def by (rule exI [of _ 0]) simp

lemma exec_request_ran:
  assumes "exec_seq E (request_stmts spec p g) w = (r, w')" and "plain_request spec p g"
  shows "\<exists>ts t'. w' = put ts t' w \<and> ran_request spec p g (tables w) t'"
proof -
  have "list_all stmt_ok (request_stmts spec p g)"
    using assms(2) by (auto simp: list_all_iff intro: plain_request_stmts)
  then obtain k ts t where k: "run_all (take k (request_stmts spec p g)) (tables w) = Inr t" "w' = put ts t w"
    "if r = Inr () then k = 3 else k < 3"
    using exec_seq_cases [OF assms(1)] unfolding length_request_stmts by blast
  then have "k \<le> 3" by (simp split: if_splits)
  then show ?thesis using k by (auto simp: ran_request_def)
qed

lemma Enqueue_ran:
  assumes run: "Enqueue E C p g w = (res, w')"
    and plain: "\<And>spec. marshal C p = Inr spec \<Longrightarrow> plain_request spec p g"
  shows "\<exists>ts t'. w' = put ts t' w \<and>
    (t' = tables w \<or> (\<exists>spec. marshal C p = Inr spec \<and> ran_request spec p g (tables w) t'))"
proof -
  obtain r1 w1 where c1: "call_ok w = (r1, w1)" by (cases "call_ok w")
  then obtain ts1 where w1: "w1 = put ts1 (tables w) w" by (elim call_ok_cases)
  obtain r2 w2 where c2: "query (IsPendingQuery E (pg_Name g) (Namespace p)) w1 = (r2, w2)"
    by (meson surj_pair)
  then obtain ts2 where w2: "w2 = put ts2 (tables w) w" by (elim query_cases) (auto simp: w1)
  have "w' = w1 \<or> w' = w2 \<or> (\<exists>spec r3. marshal C p = Inr spec \<and> exec_seq E (request_stmts spec p g) w2 = (r3, w'))"
    using run unfolding Enqueue_unfold c1 c2
    by (auto simp: c2 split: sum.splits if_splits prod.splits)
  then show ?thesis
    using w1 w2 exec_request_ran [OF _ plain] put_simps(1,4) by metis
qed

text \<open>The same for a queue, with what is known of the request.\<close>

lemma Queue_Enqueue_ran:
  assumes run: "Queue_Enqueue E q now p w = Returns (res, w')"
    and S: "q_Strategy q = EasyBackfill E C iter collect" and acc: "accepted_pod C p (tables w)"
  shows "\<exists>ts t'. w' = put ts t' w \<and>
    (t' = tables w \<or> (\<exists>spec p' g. marshal C p' = Inr spec \<and> ran_request spec p' g (tables w) t' \<and>
       fresh_pod p' g (tables w)))"
proof -
  obtain sz p' where size: "GetPodGroupSize p = Returns (sz, p')"
    using run by (cases "GetPodGroupSize p") (auto simp: Queue_Enqueue_def Let_def)
  show ?thesis
  proof (cases sz)
    case (Inl e)
    then have "w' = put (tape w) (tables w) w" using run size by (simp add: Queue_Enqueue_def Let_def put_same)
    then show ?thesis by blast
  next
    case (Inr n)
    obtain stamp w1 where ts: "GetCreationTimestamp E now p' (GetPodGroupName p) w = (stamp, w1)"
      by (meson surj_pair)
    note frame = GetPodGroupName_frame [OF size [unfolded Inr]]
    let ?g = "request_group p n stamp"
    have enq: "Enqueue E C p' ?g w1 = (res, w')"
      using run size Inr ts frame S
      by (simp add: Queue_Enqueue_def Let_def EasyBackfill_def request_group_def)
    have "plain_request spec p' ?g" if "marshal C p' = Inr spec" for spec
      using that acc frame unfolding accepted_pod_def plain_request_def request_group_def
      by (metis PodGroup.select_convs(1))
    from Enqueue_ran [OF enq this] obtain ts2 t' where "w' = put ts2 t' w1"
      "t' = tables w1 \<or> (\<exists>spec. marshal C p' = Inr spec \<and> ran_request spec p' ?g (tables w1) t')" by blast
    moreover obtain ts1 where "w1 = put ts1 (tables w) w"
      using ts by (auto simp: GetCreationTimestamp_def split: prod.splits sum.splits elim!: query_cases)
    moreover have "fresh_pod p' ?g (tables w)"
      using acc frame by (simp add: fresh_pod_def accepted_pod_def request_group_def)
    ultimately show ?thesis by (intro exI [of _ ts2] exI [of _ t']) auto
  qed
qed

section \<open>The contract\<close>

definition job_params :: "JobArgs \<Rightarrow> InsertParams" where
  "job_params a = \<lparr>ip_kind = JobArgs_Kind, ip_args = encode_JobArgs a, ip_max_attempts = MaxAttempts,
     ip_tags = [easy_Name], ip_queue = QueueDefault, ip_scheduled_at = None\<rparr>"

definition deadline_params :: "string \<Rightarrow> int \<Rightarrow> bool \<Rightarrow> string list \<Rightarrow> int \<Rightarrow> InsertParams" where
  "deadline_params spec i k tags at =
     \<lparr>ip_kind = CleanupArgs_Kind,
      ip_args = encode_CleanupArgs \<lparr>ca_GroupName = [], ca_FluxID = i, ca_Podspec = spec, ca_Kubernetes = k\<rparr>,
      ip_max_attempts = MaxAttempts, ip_tags = tags, ip_queue = ''cancel_queue'', ip_scheduled_at = Some at\<rparr>"

lemma schedule_loop_params: "schedule_loop i d jobs batch = batch @ map job_params jobs"
  by (simp add: schedule_loop_eq job_params_def [abs_def])

text \<open>\<open>I\<close> is the invariant; \<open>J t\<close> is what it asks of a job that is inserted into the tables \<open>t\<close>, and
  \<open>M\<close> what it asks of the models the reservations are read into.\<close>

locale table_contract =
  fixes C :: codec and I :: "tables \<Rightarrow> bool" and J :: "tables \<Rightarrow> InsertParams \<Rightarrow> bool" and M :: "ReservationModel \<Rightarrow> bool"
  assumes request: "marshal C p = Inr spec \<Longrightarrow> ran_request spec p g t t' \<Longrightarrow> fresh_pod p g t \<Longrightarrow> I t \<Longrightarrow> I t'"
    and pending: "selected E t jobs \<Longrightarrow> reach_inv E iter t \<Longrightarrow> I t \<Longrightarrow> I (mark_pending jobs t)"
    and moved: "selected E t jobs \<Longrightarrow> reach_inv E iter t \<Longrightarrow> I t \<Longrightarrow> I (move_groups jobs t)"
    and batch: "selected E t jobs \<Longrightarrow> reach_inv E iter t \<Longrightarrow> I t \<Longrightarrow> a \<in> set jobs \<Longrightarrow>
      J (move_groups jobs t) (job_params a)"
    and cleanup: "M m \<Longrightarrow> J t (cleanup_params m)"
    and deadline: "int4_range i \<Longrightarrow> J t (deadline_params spec i k tags at)"
    and insert: "\<forall>ip \<in> set ps. J t ip \<Longrightarrow> I t \<Longrightarrow> I (t\<lparr>river_job := insert_jobs ps (river_job t)\<rparr>)"
    and nodes: "I t \<Longrightarrow> I (t\<lparr>river_job := UpdateNodes s j (river_job t)\<rparr>)"
    and reserve: "AddReservation grp fid t = Inr t' \<Longrightarrow> I t \<Longrightarrow> I t'"
    and flux: "UpdatingPendingWithFluxID fid grp ns t = Inr t' \<Longrightarrow> I t \<Longrightarrow> I t'"
    and clear: "I t \<Longrightarrow> I (t\<lparr>reservations := []\<rparr>)"
begin

lemma update_keeps:
  assumes "pool_update f w = (r, w')" and "\<And>t'. f (tables w) = Inr t' \<Longrightarrow> I t'" and "I (tables w)"
  shows "I (tables w')"
  using assms(1) by (cases rule: pool_update_cases) (auto simp: assms(2,3))

lemma InsertMany_keeps: "InsertMany ps t = Inr t' \<Longrightarrow> \<forall>ip \<in> set ps. J t ip \<Longrightarrow> I t \<Longrightarrow> I t'"
  by (auto simp: InsertMany_def insert split: if_splits)

lemma SubmitCleanup_keeps:
  assumes "SubmitCleanup now secs spec i k tags w = (r, w')" and "int4_range i" and "I (tables w)"
  shows "I (tables w')"
proof -
  have ins: "I (tables v')" if "pool_update (InsertMany [deadline_params spec i k tags at]) v = (x, v')"
    "tables v = tables w" for v v' x at
    using that by (elim update_keeps) (auto simp: assms(2,3) deadline dest!: InsertMany_keeps)
  show ?thesis
    using assms(1,3)
    by (auto simp: SubmitCleanup_def Let_def deadline_params_def [symmetric] split: prod.splits sum.splits option.splits
        dest!: calls_tables ins)
qed

lemma record_allocation_keeps:
  assumes run: "record_allocation now p jobid a resp w = (r, w')" and I: "I (tables w)"
  shows "I (tables w')"
proof -
  let ?up = "\<lambda>t. Inr (t\<lparr>river_job := UpdateNodes (strings_Join (expand_nodes (mp_Nodelist resp) []) '','') jobid (river_job t)\<rparr>)"
  obtain r1 w1 where c1: "pool_update ?up w = (r1, w1)" by (meson surj_pair)
  obtain r2 w2 where c2: "pool_update (UpdatingPendingWithFluxID (mp_FluxID resp) (ja_GroupName a) (ja_Namespace a)) w1 = (r2, w2)"
    by (meson surj_pair)
  have 1: "I (tables w1)" using c1 by (rule update_keeps) (auto simp: I nodes)
  have 2: "I (tables w2)" using c2 by (rule update_keeps) (auto simp: 1 intro: flux)
  have i: "int4_range (sint (mp_FluxID resp))" if "r2 = Inr ()"
  proof -
    have "int4_range (uint (mp_FluxID resp))"
      using c2 that by (cases rule: pool_update_cases) (auto simp: UpdatingPendingWithFluxID_def split: if_splits)
    then have "sint (mp_FluxID resp) = uint (mp_FluxID resp)"
      by (simp add: int4_range_def sint_uint signed_take_bit_int_eq_self)
    then show ?thesis using \<open>int4_range (uint (mp_FluxID resp))\<close> by simp
  qed
  have "w' = w1 \<or> w' = w2 \<or> (r2 = Inr () \<and> (\<exists>s t. SubmitCleanup now s (ja_Podspec a) (sint (mp_FluxID resp)) True t w2 = (r, w')))"
    using run c1 c2 by (auto simp: record_allocation_def Let_def split: sum.splits if_splits)
  then show ?thesis using 1 2 i SubmitCleanup_keeps by blast
qed

text \<open>The step inside \<open>Work\<close> that is not already covered: the reservation.\<close>

lemma Work_keeps:
  assumes run: "Work now C' F jobid a w = (r, w')" and I: "I (tables w)"
  shows "I (tables w')"
proof -
  have res: "I (tables v')" if "pool_update (AddReservation grp fid) v = (x, v')" "tables v = tables w" for grp fid v x v'
    using that(1) by (rule update_keeps) (auto simp: that(2) I intro: reserve)
  show ?thesis
    using run I unfolding Work_def Let_def
    by (auto split: prod.splits sum.splits if_splits dest!: calls_tables res intro: record_allocation_keeps)
qed

lemma easy_PostSubmit_keeps:
  assumes run: "easy_PostSubmit E collect w = (r, w')" and I: "I (tables w)"
    and C: "clears_reservations E" and M: "\<And>t ms m. I t \<Longrightarrow> collect (reservations t) = Inr ms \<Longrightarrow> m \<in> set ms \<Longrightarrow> M m"
  shows "I (tables w')"
proof -
  have emptied: "I (tables v')" if "pool_exec_raw E DeleteReservationsQuery [] v = (x, v')" "I (tables v)" for v v' x
    using that
  proof (cases rule: pool_exec_raw_cases)
    case (ok t' ts)
    then have "t' = (tables v)\<lparr>reservations := []\<rparr>"
      using C unfolding clears_reservations_def by (metis (mono_tags, lifting) old.prod.case option.simps(4))
    then show ?thesis using ok that(2) clear by simp
  qed simp
  have ins: "I (tables v')"
    if "pool_update (InsertMany (map cleanup_params ms)) v = (x, v')" "tables v = tables w" "\<forall>m \<in> set ms. M m" for ms v x v'
    using that(1) by (rule update_keeps) (auto simp: that(2,3) I cleanup elim!: InsertMany_keeps)
  have ms: "\<forall>m \<in> set (case collect (reservations (tables w)) of Inl _ \<Rightarrow> [] | Inr ms \<Rightarrow> ms). M m"
    using M [OF I] by (cases "collect (reservations (tables w))") auto
  obtain r1 w1 where c1: "query (\<lambda>t. Inr (reservations t)) w = (r1, w1)" by (meson surj_pair)
  then have t1: "tables w1 = tables w" by (rule calls_tables(2))
  have r1: "(\<exists>e. r1 = Inl e) \<or> r1 = Inr (reservations (tables w))"
    using c1 by (cases rule: query_cases) auto
  show ?thesis
  proof (cases r1)
    case (Inl e)
    then show ?thesis using run c1 t1 I by (simp add: easy_PostSubmit_def)
  next
    case (Inr rows)
    then have rows: "rows = reservations (tables w)" using r1 by simp
    let ?ms = "case collect (reservations (tables w)) of Inl _ \<Rightarrow> [] | Inr ms \<Rightarrow> ms"
    obtain r2 w2 where c2: "pool_update (InsertMany (map cleanup_params ?ms)) w1 = (r2, w2)" by (meson surj_pair)
    obtain r3 w3 where c3: "pool_exec_raw E DeleteReservationsQuery [] w2 = (r3, w3)" by (meson surj_pair)
    have "I (tables w2)" using ins [OF c2 t1 ms] .
    moreover from this have "I (tables w3)" using emptied [OF c3] by blast
    moreover have "w' = w1 \<or> w' = w2 \<or> w' = w3"
      using run c1 Inr c2 c3 rows by (auto simp: easy_PostSubmit_def Let_def split: sum.splits if_splits)
    ultimately show ?thesis using t1 I by auto
  qed
qed

text \<open>What a cycle inserts it has selected from the tables it started with.\<close>

lemma Queue_Schedule_keeps_contract:
  assumes run: "Queue_Schedule q w = (r, w')" and S: "q_Strategy q = EasyBackfill E C iter collect"
    and inv: "reach_inv E iter (tables w)" and I: "I (tables w)"
    and M: "\<And>t ms m. I t \<Longrightarrow> collect (reservations t) = Inr ms \<Longrightarrow> m \<in> set ms \<Longrightarrow> M m"
  shows "I (tables w')"
proof -
  have env: "scans_ok E" "iter_ok iter" "plain_groups (tables w)" "clears_reservations E"
    using inv by (auto simp: reach_inv_def queue_inv_def strategy_env_def)
  obtain jobs err w1 where rj: "ReadyJobs E iter w = ((jobs, err), w1)" by (metis surj_pair)
  have 1: "I (tables w1) \<and> (err = None \<longrightarrow> (\<forall>a \<in> set jobs. J (tables w1) (job_params a)))"
    using rj env(1-3)
    by (cases rule: ReadyJobs_cases) (auto simp: I intro: pending [OF _ inv I] moved [OF _ inv I] batch [OF _ inv I])
  let ?b = "map job_params jobs"
  obtain r2 w2 where c2: "pool_update (InsertMany ?b) w1 = (r2, w2)" by (meson surj_pair)
  have 2: "I (tables w2)" if "err = None"
    using c2 by (rule update_keeps) (use 1 that in \<open>auto elim!: InsertMany_keeps\<close>)
  have post: "I (tables v')" if "easy_PostSubmit E collect v = (x, v')" "I (tables v)" for x v v'
    using easy_PostSubmit_keeps [OF that env(4)] M by blast
  show ?thesis
  proof (cases err)
    case (Some e)
    then show ?thesis using run S rj 1 by (simp add: Queue_Schedule_def EasyBackfill_def easy_Schedule_def)
  next
    case None
    have "(r, w') = (if 0 < length ?b then case r2 of Inl e \<Rightarrow> (Some e, w2) | Inr _ \<Rightarrow> easy_PostSubmit E collect w2
        else easy_PostSubmit E collect w1)"
      using run S rj None c2
      by (cases r2) (auto simp: Queue_Schedule_def EasyBackfill_def easy_Schedule_def schedule_loop_params split: if_splits)
    then show ?thesis using 1 2 [OF None] post by (auto split: if_splits sum.splits) metis+
  qed
qed

lemma step_keeps:
  assumes "queue_step E C iter collect K F L w w'" and inv: "reach_inv E iter (tables w)"
    and ar: "arity_checked E" and I: "I (tables w)"
    and M: "\<And>t ms m. I t \<Longrightarrow> collect (reservations t) = Inr ms \<Longrightarrow> m \<in> set ms \<Longrightarrow> M m"
  shows "I (tables w')"
  using assms(1)
proof (cases rule: queue_step.cases)
  case (pod_created q now p r)
  from Queue_Enqueue_ran [OF this] show ?thesis using request I by auto
next
  case (schedule_cycle q r)
  then show ?thesis using Queue_Schedule_keeps_contract inv I M by blast
next
  case (job_worked now jobid a res)
  then show ?thesis using Work_keeps I by blast
next
  case (cleanup_worked ca err)
  then show ?thesis using I Cleanup_tables [OF ar] by (auto simp: CleanupWorker_Work_def)
next
  case (unschedulable podspec g err)
  then show ?thesis using I Cleanup_tables [OF ar] by (auto simp: Queue_Cleanup_def)
next
  case (pod_deleted p)
  then show ?thesis using I DeletePodEvent_tables [OF ar] by simp
next
  case (network faults)
  then show ?thesis using I by simp
qed

lemma reach_keeps:
  assumes "queue_reach E C iter collect K F L w" and "strategy_env E iter" and "arity_checked E"
    and "I \<lparr>pods_provisional = [], groups_provisional = [], reservations = [], pending_queue = [], river_job = []\<rparr>"
    and "\<And>t ms m. I t \<Longrightarrow> collect (reservations t) = Inr ms \<Longrightarrow> m \<in> set ms \<Longrightarrow> M m"
  shows "I (tables w)"
  using assms(1)
proof (induction rule: queue_reach.induct)
  case (start w)
  then show ?case using assms(4) by simp
next
  case (step w w')
  show ?case by (rule step_keeps [OF step(2) reach_reach_inv [OF step(1) assms(2,3)] assms(3) step(3) assms(5)])
qed

end

end
