(* ===== verification/Typing.thy ===== *)
theory Typing
  imports Contract
begin

text \<open>
  The type of the database: the range of every \<open>INTEGER\<close> column, and for every row of the job table
  the schema its kind gives the members of its arguments, as the tags of the Go structs declare
  them. \<open>well_typed\<close> is an invariant of the queue, and so is that no job and no pending group asks
  for more pods than are stored (\<open>complete\<close>); both are clients of \<open>table_contract\<close>. On typed tables
  the conversions of the code succeed: the arguments decode, and a cycle meets no column it
  overflows.
\<close>

section \<open>Schemas\<close>

text \<open>The Go types of the members of a job's arguments.\<close>

datatype json_type = TString | TInt32 | TInt64 | TBool

fun has_type :: "json_type \<Rightarrow> json \<Rightarrow> bool" where
  "has_type TString (JStr s) = True"
| "has_type TInt32 (JInt i) = int4_range i"
| "has_type TInt64 (JInt i) = (- (2 ^ 63) \<le> i \<and> i < 2 ^ 63)"
| "has_type TBool (JBool b) = True"
| "has_type ty v = False"

lemma has_type_iff:
  "has_type TString v \<longleftrightarrow> (\<exists>s. v = JStr s)"
  "has_type TInt32 v \<longleftrightarrow> (\<exists>i. v = JInt i \<and> int4_range i)"
  "has_type TInt64 v \<longleftrightarrow> (\<exists>i. v = JInt i \<and> - (2 ^ 63) \<le> i \<and> i < 2 ^ 63)"
  "has_type TBool v \<longleftrightarrow> (\<exists>b. v = JBool b)"
  by (cases v; simp)+

type_synonym schema = "(string \<times> json_type) list"

definition JobArgs_schema :: schema where
  "JobArgs_schema =
     [(''jobspec'', TString), (''podspec'', TString), (''groupName'', TString), (''groupSize'', TInt32),
      (''duration'', TInt32), (''namespace'', TString), (''reservation'', TBool), (''nodes'', TString),
      (''names'', TString)]"

definition CleanupArgs_schema :: schema where
  "CleanupArgs_schema =
     [(''groupName'', TString), (''fluxid'', TInt64), (''podspec'', TString), (''kubernetes'', TBool)]"

text \<open>An object conforms to a schema: every member is there with its type. The only further member
  is the one that \<open>UpdateNodesQuery\<close> writes, whatever the row it is sent to.\<close>

definition conforms :: "schema \<Rightarrow> json_object \<Rightarrow> bool" where
  "conforms sch obj \<longleftrightarrow>
     (\<forall>(k, ty) \<in> set sch. \<exists>v. map_of obj k = Some v \<and> has_type ty v) \<and>
     fst ` set obj \<subseteq> insert ''nodes'' (fst ` set sch) \<and>
     (\<forall>v. map_of obj ''nodes'' = Some v \<longrightarrow> has_type TString v)"

lemma conforms_update_nodes:
  assumes "conforms sch obj" and "\<forall>ty. (''nodes'', ty) \<in> set sch \<longrightarrow> ty = TString"
  shows "conforms sch (AList.update ''nodes'' (JStr s) obj)"
proof -
  have "fst ` set (AList.update ''nodes'' (JStr s) obj) = insert ''nodes'' (fst ` set obj)"
    using dom_update [of "''nodes''" "JStr s" obj] by simp
  moreover have "\<exists>v. map_of (AList.update ''nodes'' (JStr s) obj) k = Some v \<and> has_type ty v"
    if "(k, ty) \<in> set sch" for k ty
  proof (cases "k = ''nodes''")
    case True
    then have "ty = TString" using that assms(2) by blast
    then show ?thesis using True by (simp add: AList.update_conv')
  next
    case False
    then have "map_of (AList.update ''nodes'' (JStr s) obj) k = map_of obj k" by (simp add: AList.update_conv')
    then show ?thesis using that assms(1) by (auto simp: conforms_def)
  qed
  moreover have "fst ` set obj \<subseteq> insert ''nodes'' (fst ` set sch)" using assms(1) by (simp add: conforms_def)
  ultimately show ?thesis unfolding conforms_def by (simp add: AList.update_conv' case_prod_unfold)
qed

section \<open>Typed rows\<close>

definition job_typed :: "string \<Rightarrow> string \<Rightarrow> json_object \<Rightarrow> bool" where
  "job_typed kind q args \<longleftrightarrow>
     (kind = JobArgs_Kind \<and> q = QueueDefault \<and> conforms JobArgs_schema args) \<or>
     (kind = CleanupArgs_Kind \<and> (q = ''cancel_queue'' \<or> q = ''cleanup_queue'') \<and> conforms CleanupArgs_schema args)"

definition group_typed :: "group_row \<Rightarrow> bool" where
  "group_typed r \<longleftrightarrow> int4_range (gr_group_size r) \<and> int4_range (gr_current_size r) \<and> int4_range (gr_duration r)"

definition pending_typed :: "pending_row \<Rightarrow> bool" where
  "pending_typed r \<longleftrightarrow> int4_range (pq_group_size r) \<and>
     (case pq_flux_id r of None \<Rightarrow> True | Some i \<Rightarrow> 0 \<le> i \<and> int4_range i)"

definition jobs_typed :: "river_row list \<Rightarrow> bool" where
  "jobs_typed rows \<longleftrightarrow>
     (\<forall>r \<in> set rows. job_typed (rj_kind r) (rj_queue r) (rj_args r)) \<and> distinct (map rj_id rows)"

definition well_typed :: "tables \<Rightarrow> bool" where
  "well_typed t \<longleftrightarrow>
     (\<forall>r \<in> set (pods_provisional t). int4_range (pr_duration r)) \<and>
     (\<forall>r \<in> set (groups_provisional t). group_typed r) \<and>
     (\<forall>r \<in> set (reservations t). 0 \<le> rv_flux_id r \<and> int4_range (rv_flux_id r)) \<and>
     (\<forall>r \<in> set (pending_queue t). pending_typed r) \<and> jobs_typed (river_job t)"

definition params_typed :: "InsertParams \<Rightarrow> bool" where
  "params_typed ip \<longleftrightarrow> job_typed (ip_kind ip) (ip_queue ip) (ip_args ip)"

text \<open>The models read from the rows: a Go \<open>int64\<close>.\<close>

definition model_typed :: "ReservationModel \<Rightarrow> bool" where
  "model_typed m \<longleftrightarrow> - (2 ^ 63) \<le> rm_FluxID m \<and> rm_FluxID m < 2 ^ 63"

section \<open>Preservation\<close>

lemma encode_JobArgs_typed:
  "int4_range (ja_GroupSize a) \<Longrightarrow> int4_range (ja_Duration a) \<Longrightarrow> conforms JobArgs_schema (encode_JobArgs a)"
  by (auto simp: conforms_def JobArgs_schema_def encode_JobArgs_def)

lemma encode_CleanupArgs_typed:
  "- (2 ^ 63) \<le> ca_FluxID a \<Longrightarrow> ca_FluxID a < 2 ^ 63 \<Longrightarrow> conforms CleanupArgs_schema (encode_CleanupArgs a)"
  by (auto simp: conforms_def CleanupArgs_schema_def encode_CleanupArgs_def)

lemma job_typed_update: "job_typed k q args \<Longrightarrow> job_typed k q (AList.update ''nodes'' (JStr s) args)"
  by (auto simp: job_typed_def JobArgs_schema_def CleanupArgs_schema_def intro!: conforms_update_nodes)

lemma UpdateNodes_typed: "jobs_typed rows \<Longrightarrow> jobs_typed (UpdateNodes s j rows)"
  by (auto simp: jobs_typed_def UpdateNodes_def job_typed_update distinct_map inj_on_def)

lemma insert_jobs_rows:
  "(\<lambda>r. (rj_kind r, rj_queue r, rj_args r)) ` set (insert_jobs ps rows) =
     (\<lambda>r. (rj_kind r, rj_queue r, rj_args r)) ` set rows \<union> (\<lambda>ip. (ip_kind ip, ip_queue ip, ip_args ip)) ` set ps"
  by (induction ps arbitrary: rows) auto

lemma insert_jobs_typed:
  assumes "jobs_typed rows" and "\<forall>ip \<in> set ps. params_typed ip"
  shows "jobs_typed (insert_jobs ps rows)"
proof -
  have "job_typed (rj_kind r) (rj_queue r) (rj_args r)" if "r \<in> set (insert_jobs ps rows)" for r
  proof -
    have "(rj_kind r, rj_queue r, rj_args r) \<in>
        (\<lambda>r. (rj_kind r, rj_queue r, rj_args r)) ` set rows \<union> (\<lambda>ip. (ip_kind ip, ip_queue ip, ip_args ip)) ` set ps"
      using that unfolding insert_jobs_rows [symmetric] by blast
    then show ?thesis using assms by (auto simp: params_typed_def jobs_typed_def)
  qed
  then show ?thesis using assms(1) insert_jobs_ids by (auto simp: jobs_typed_def)
qed

lemma run_stmt_typed: "run_stmt st t = Inr t' \<Longrightarrow> well_typed t \<Longrightarrow> well_typed t'"
  by (cases st)
    (auto simp: well_typed_def insert_pod_def insert_group_def insert_pending_def increment_group_def
      delete_groups_def group_typed_def pending_typed_def int4_range_def split: if_splits)

lemma run_all_typed: "run_all sts t = Inr t' \<Longrightarrow> well_typed t \<Longrightarrow> well_typed t'"
  by (induction sts arbitrary: t) (auto split: sum.splits dest: run_stmt_typed)

lemma set_fold_insert_pending: "set (fold insert_pending rs t) \<subseteq> set rs \<union> set t"
  by (induction rs arbitrary: t) (fastforce simp: insert_pending_def split: if_splits)+

lemma selected_in_range:
  assumes "selected E t jobs" and "well_typed t" and "a \<in> set jobs"
  shows "int4_range (ja_GroupSize a)" "int4_range (ja_Duration a)"
  using assms by (auto simp: selected_def group_job_def job_of_def ready_rows_def well_typed_def group_typed_def)

lemma mark_pending_typed:
  assumes "selected E t jobs" and "well_typed t"
  shows "well_typed (mark_pending jobs t)" and "well_typed (move_groups jobs t)"
proof -
  have "pending_typed r" if "r \<in> set (fold insert_pending (map pending_of jobs) (pending_queue t))" for r
    using that set_fold_insert_pending [of "map pending_of jobs" "pending_queue t"] assms
      selected_in_range [OF assms]
    by (auto simp: pending_of_def pending_typed_def well_typed_def)
  then show "well_typed (mark_pending jobs t)" and "well_typed (move_groups jobs t)"
    using assms(2) by (auto simp: well_typed_def mark_pending_def move_groups_def delete_groups_def)
qed

lemma well_typed_jobs:
  "well_typed t \<Longrightarrow> well_typed (t\<lparr>river_job := UpdateNodes s j (river_job t)\<rparr>)"
  "\<forall>ip \<in> set ps. params_typed ip \<Longrightarrow> well_typed t \<Longrightarrow> well_typed (t\<lparr>river_job := insert_jobs ps (river_job t)\<rparr>)"
  "well_typed t \<Longrightarrow> well_typed (t\<lparr>reservations := []\<rparr>)"
  by (simp_all add: well_typed_def UpdateNodes_typed insert_jobs_typed)

lemma well_typed_ids:
  "AddReservation grp i t = Inr t' \<Longrightarrow> well_typed t \<Longrightarrow> well_typed t'"
  "UpdatingPendingWithFluxID i grp ns t = Inr t' \<Longrightarrow> well_typed t \<Longrightarrow> well_typed t'"
  by (auto simp: well_typed_def AddReservation_def UpdatingPendingWithFluxID_def set_flux_id_def
      pending_typed_def split: if_splits)

lemma params_typed_intros:
  "int4_range (ja_GroupSize a) \<Longrightarrow> int4_range (ja_Duration a) \<Longrightarrow> params_typed (job_params a)"
  "model_typed m \<Longrightarrow> params_typed (cleanup_params m)"
  "int4_range i \<Longrightarrow> params_typed (deadline_params spec i k tags at)"
  by (simp_all add: params_typed_def job_typed_def job_params_def cleanup_params_def deadline_params_def
      model_typed_def int4_range_def encode_JobArgs_typed encode_CleanupArgs_typed)

lemma ran_request_typed: "ran_request spec p g t t' \<Longrightarrow> well_typed t \<Longrightarrow> well_typed t'"
  by (auto simp: ran_request_def dest: run_all_typed)

interpretation typed: table_contract C well_typed "\<lambda>t. params_typed" model_typed for C
  by unfold_locales
    (erule (1) ran_request_typed, erule (1) mark_pending_typed, erule (1) mark_pending_typed,
      (rule params_typed_intros(1); simp add: selected_in_range),
      erule params_typed_intros, erule params_typed_intros, erule (1) well_typed_jobs(2),
      erule well_typed_jobs, erule (1) well_typed_ids, erule (1) well_typed_ids, erule well_typed_jobs)

section \<open>Nothing asks for more pods than are stored\<close>

text \<open>The names a job carries are those of distinct stored pods of its group, at least as many as
  its size.\<close>

definition job_complete :: "tables \<Rightarrow> json_object \<Rightarrow> bool" where
  "job_complete t args \<longleftrightarrow>
     (\<exists>g ns sz names. map_of args ''groupName'' = Some (JStr g) \<and> map_of args ''namespace'' = Some (JStr ns) \<and>
        map_of args ''groupSize'' = Some (JInt sz) \<and> map_of args ''names'' = Some (JStr (strings_Join names '','')) \<and>
        distinct names \<and> set names \<subseteq> pr_name ` set (pods_of t (g, ns)) \<and> sz \<le> int (length names))"

definition complete :: "tables \<Rightarrow> bool" where
  "complete t \<longleftrightarrow>
     (\<forall>r \<in> set (pending_queue t). pq_group_size r \<le> int (length (pods_of t (pending_key r)))) \<and>
     (\<forall>r \<in> set (river_job t). rj_kind r = JobArgs_Kind \<longrightarrow> job_complete t (rj_args r))"

definition params_complete :: "tables \<Rightarrow> InsertParams \<Rightarrow> bool" where
  "params_complete t ip \<longleftrightarrow> (ip_kind ip = JobArgs_Kind \<longrightarrow> job_complete t (ip_args ip))"

lemma pods_of_cong: "pods_provisional t' = pods_provisional t \<Longrightarrow> pods_of t' = pods_of t"
  by (simp add: pods_of_def fun_eq_iff)

lemma job_complete_mono:
  "job_complete t args \<Longrightarrow> (\<And>k. set (pods_of t k) \<subseteq> set (pods_of t' k)) \<Longrightarrow> job_complete t' args"
  unfolding job_complete_def by (meson image_mono subset_trans)

lemma job_complete_cong: "pods_of t' = pods_of t \<Longrightarrow> job_complete t' = job_complete t"
  by (simp add: job_complete_def fun_eq_iff)

lemma job_complete_update: "job_complete t args \<Longrightarrow> job_complete t (AList.update ''nodes'' v args)"
  by (simp add: job_complete_def AList.update_conv')

lemma ran_request_cases:
  assumes "ran_request spec p g t t'"
  shows "t' = t \<or> t' = after_pod spec p g t \<or> t' = after_increment spec p g t \<or> t' = after_request spec p g t"
  using assms run_request unfolding ran_request_def by metis

lemma ran_request_complete:
  assumes "ran_request spec p g t t'" and fresh: "fresh_pod p g t" and "complete t"
  shows "complete t'"
proof -
  have "pods_of t' k = pods_of t k \<or> pods_of t' k = pods_of (after_pod spec p g t) k" for k
    using ran_request_cases [OF assms(1)] pods_of_later [of spec p g t k] by auto
  then have "\<exists>extra. pods_of t' k = pods_of t k @ extra" for k
    using pods_of_after_pod [OF fresh, of spec k] by (metis append_Nil2)
  then have more: "set (pods_of t k) \<subseteq> set (pods_of t' k)" "length (pods_of t k) \<le> length (pods_of t' k)" for k
    by (metis Un_upper1 set_append, metis le_add1 length_append)
  have "pending_queue t' = pending_queue t" "river_job t' = river_job t"
    using ran_request_cases [OF assms(1)] by (auto simp: after_pod_def after_increment_def after_request_def)
  moreover have "job_complete t' args" if "job_complete t args" for args
    using that more(1) by (rule job_complete_mono)
  moreover have "x \<le> int (length (pods_of t' k))" if "x \<le> int (length (pods_of t k))" for x k
    using that more(2) [of k] by linarith
  ultimately show ?thesis using assms(3) by (auto simp: complete_def)
qed

lemma selected_complete:
  assumes "selected E t jobs" and inv: "reach_inv E iter t" and "a \<in> set jobs"
  shows "job_complete t (encode_JobArgs a)" and "ja_GroupSize a \<le> int (length (pods_of t (job_key a)))"
proof -
  obtain m names where m: "m \<in> set (ready_rows t)" "a = group_job E t m" "names = map pr_name (group_pods E t m)"
    "ja_Names a = strings_Join names '',''" "distinct names" "set names = pr_name ` set (pods_of t (group_key m))"
    "gr_group_size m \<le> int (length names)" "mset (group_pods E t m) = mset (pods_of t (group_key m))"
    by (rule selected_job_complete [OF assms])
  have "ja_GroupName a = gr_group_name m" "ja_Namespace a = gr_namespace m" "ja_GroupSize a = gr_group_size m"
    using m(2) by (simp_all add: group_job_def job_of_def)
  then show "job_complete t (encode_JobArgs a)" using m
    unfolding job_complete_def
    by (intro exI [of _ "gr_group_name m"] exI [of _ "gr_namespace m"] exI [of _ "gr_group_size m"] exI [of _ names])
      (simp add: encode_JobArgs_def group_key_def)
  show "ja_GroupSize a \<le> int (length (pods_of t (job_key a)))"
    using m mset_eq_length [OF m(8)] by (simp add: group_job_def job_of_def job_key_def group_key_def)
qed

lemma mark_pending_complete:
  assumes "selected E t jobs" and inv: "reach_inv E iter t" and "complete t"
  shows "complete (mark_pending jobs t)" and "complete (move_groups jobs t)"
proof -
  have pods: "pods_of (mark_pending jobs t) = pods_of t" "pods_of (move_groups jobs t) = pods_of t"
    by (intro pods_of_cong; simp add: mark_pending_def move_groups_def)+
  have "pq_group_size r \<le> int (length (pods_of t (pending_key r)))"
    if "r \<in> set (fold insert_pending (map pending_of jobs) (pending_queue t))" for r
    using that set_fold_insert_pending [of "map pending_of jobs" "pending_queue t"] assms(3)
      selected_complete(2) [OF assms(1,2)] by (auto simp: complete_def pending_of_def pending_key_def job_key_def)
  then show "complete (mark_pending jobs t)" and "complete (move_groups jobs t)"
    using assms(3) unfolding complete_def pods job_complete_cong [OF pods(1)] job_complete_cong [OF pods(2)]
    by (auto simp: mark_pending_def move_groups_def)
qed

lemma complete_jobs:
  "complete t \<Longrightarrow> complete (t\<lparr>river_job := UpdateNodes s j (river_job t)\<rparr>)"
  "\<forall>ip \<in> set ps. params_complete t ip \<Longrightarrow> complete t \<Longrightarrow> complete (t\<lparr>river_job := insert_jobs ps (river_job t)\<rparr>)"
  "complete t \<Longrightarrow> complete (t\<lparr>reservations := []\<rparr>)"
  "AddReservation grp i t = Inr t' \<Longrightarrow> complete t \<Longrightarrow> complete t'"
  "UpdatingPendingWithFluxID i grp ns t = Inr t' \<Longrightarrow> complete t \<Longrightarrow> complete t'"
proof -
  have same: "pods_of (t\<lparr>river_job := js\<rparr>) = pods_of t" "pods_of (t\<lparr>reservations := rs\<rparr>) = pods_of t"
    "pods_of (t\<lparr>pending_queue := ps\<rparr>) = pods_of t" for js rs ps and t :: tables
    by (intro pods_of_cong; simp)+
  note same = same job_complete_cong [OF same(1)] job_complete_cong [OF same(2)] job_complete_cong [OF same(3)]
  show "complete (t\<lparr>river_job := UpdateNodes s j (river_job t)\<rparr>)" if "complete t"
    using that by (auto simp: complete_def same UpdateNodes_def job_complete_update)
  show "complete (t\<lparr>river_job := insert_jobs ps (river_job t)\<rparr>)"
    if new: "\<forall>ip \<in> set ps. params_complete t ip" and old: "complete t"
  proof -
    have "job_complete t (rj_args r)" if r: "r \<in> set (insert_jobs ps (river_job t))" "rj_kind r = JobArgs_Kind" for r
    proof -
      have "(rj_kind r, rj_queue r, rj_args r) \<in> (\<lambda>r. (rj_kind r, rj_queue r, rj_args r)) ` set (river_job t) \<union>
          (\<lambda>ip. (ip_kind ip, ip_queue ip, ip_args ip)) ` set ps"
        using r(1) unfolding insert_jobs_rows [symmetric] by blast
      then show ?thesis using r(2) new old unfolding complete_def params_complete_def by fastforce
    qed
    then show ?thesis using old by (auto simp: complete_def same)
  qed
  show "complete (t\<lparr>reservations := []\<rparr>)" if "complete t" using that by (simp add: complete_def same)
  show "complete t'" if "AddReservation grp i t = Inr t'" "complete t"
    using that by (auto simp: complete_def same AddReservation_def split: if_splits)
  show "complete t'" if "UpdatingPendingWithFluxID i grp ns t = Inr t'" "complete t"
    using that by (auto simp: complete_def same UpdatingPendingWithFluxID_def set_flux_id_def pending_key_def split: if_splits)
qed

lemma params_complete_intros:
  "params_complete t (cleanup_params m)" "params_complete t (deadline_params spec i k tags at)"
  by (simp_all add: params_complete_def cleanup_params_def deadline_params_def CleanupArgs_Kind_def JobArgs_Kind_def)

lemma batch_complete:
  assumes "selected E t jobs" and "reach_inv E iter t" and "a \<in> set jobs"
  shows "params_complete (move_groups jobs t) (job_params a)"
proof -
  have "pods_of (move_groups jobs t) = pods_of t"
    by (intro pods_of_cong) (simp add: mark_pending_def move_groups_def)
  from job_complete_cong [OF this] show ?thesis using selected_complete(1) [OF assms]
    by (simp add: params_complete_def job_params_def)
qed

interpretation counted: table_contract C complete params_complete "\<lambda>m. True" for C
  by unfold_locales
    (erule (2) ran_request_complete, erule (2) mark_pending_complete, erule (2) mark_pending_complete,
      erule (1) batch_complete, assumption, rule params_complete_intros, rule params_complete_intros,
      erule (1) complete_jobs(2), erule complete_jobs, erule (1) complete_jobs(4), erule (1) complete_jobs(5),
      erule complete_jobs)

section \<open>Stored pods can be read back\<close>

definition decodable :: "codec \<Rightarrow> tables \<Rightarrow> bool" where
  "decodable C t \<longleftrightarrow> (\<forall>r \<in> set (pods_provisional t).
     \<exists>p. marshal C p = Inr (pr_podspec r) \<and> Name p = pr_name r \<and> Namespace p = pr_namespace r)"

lemma ran_request_decodable:
  assumes "marshal C p = Inr spec" and "ran_request spec p g t t'" and "decodable C t"
  shows "decodable C t'"
proof -
  have "pods_provisional t' = pods_provisional t \<or>
      pods_provisional t' = insert_pod (new_pod_row spec p g) (pods_provisional t)"
    using ran_request_cases [OF assms(2)] by (auto simp: after_pod_def after_increment_def after_request_def)
  then have "r = new_pod_row spec p g \<or> r \<in> set (pods_provisional t)" if "r \<in> set (pods_provisional t')" for r
    using that by (auto simp: insert_pod_def split: if_splits)
  moreover have "marshal C p = Inr (pr_podspec (new_pod_row spec p g)) \<and>
      Name p = pr_name (new_pod_row spec p g) \<and> Namespace p = pr_namespace (new_pod_row spec p g)"
    using assms(1) by (simp add: new_pod_row_def)
  ultimately show ?thesis using assms(3) unfolding decodable_def by metis
qed

interpretation stored: table_contract C "decodable C" "\<lambda>t ip. True" "\<lambda>m. True" for C
  by unfold_locales
    (erule (2) ran_request_decodable,
      auto simp: decodable_def mark_pending_def move_groups_def AddReservation_def UpdatingPendingWithFluxID_def
        split: if_splits)

end
