(* ===== verification/Examples.thy ===== *)
theory Examples
  imports Reach
begin

text \<open>
  Concrete parameters: a database environment with the documented command tags, a codec for two
  pods of one group of size 2, and a quiet world. The witnesses of the properties use them.
\<close>

definition ex_env :: dbenv where
  "ex_env = \<lparr>select_tag = (\<lambda>n. ''SELECT '' @ show_nat n),
     raw_sql = (\<lambda>q args t. if q = DeleteReservationsQuery \<and> args = [] then (None, t\<lparr>reservations := []\<rparr>)
                           else (Some (GoErr ''syntax error''), t)),
     scan_pods = id, scan_groups = id, scan_created = Inr\<rparr>"

definition ex_pod :: "string \<Rightarrow> pod" where
  "ex_pod name = \<lparr>Name = name, Namespace = ''default'', UID = ''u'',
     Labels = Some [(PodGroupLabel, ''lammps''), (PodGroupSizeLabel, ''2'')],
     CreationTimestamp = Some 5, DeletionTimestamp = None, ActiveDeadlineSeconds = Some 60,
     Containers = [\<lparr>cpu_request = 2, memory_request = 0, storage_request = 0, gpu_limit = 0\<rparr>],
     OwnerReferences = [], Phase = ''Pending'', Priority = None, SchedulerName = ''fluxnetes'',
     NodeName = []\<rparr>"

definition ex_codec :: codec where
  "ex_codec = \<lparr>marshal = (\<lambda>p. if p = ex_pod ''a'' then Inr ''A'' else if p = ex_pod ''b'' then Inr ''B''
                              else Inl (GoErr ''json: unsupported value'')),
     unmarshal = (\<lambda>s. if s = ''A'' then Inr (ex_pod ''a'') else if s = ''B'' then Inr (ex_pod ''b'')
                      else Inl (GoErr ''unexpected end of JSON input'')),
     partly = (\<lambda>_. ex_pod [])\<rparr>"

definition ex_group :: PodGroup where
  "ex_group = \<lparr>pg_Name = ''lammps'', pg_Size = 2, pg_Timestamp = 5, pg_Duration = 60\<rparr>"

definition empty_tables :: tables where
  "empty_tables = \<lparr>pods_provisional = [], groups_provisional = [], reservations = [],
     pending_queue = [], river_job = []\<rparr>"

definition ex_world :: "tables \<Rightarrow> world" where
  "ex_world t = \<lparr>tables = t, tape = [], sent = []\<rparr>"

definition ex_collect :: "reservation_row list \<Rightarrow> goerror + ReservationModel list" where
  "ex_collect rows = Inr (map (\<lambda>r. \<lparr>rm_GroupName = rv_group_name r, rm_FluxID = rv_flux_id r\<rparr>) rows)"

definition ex_kube :: kube_api where
  "ex_kube = \<lparr>k_delete = (\<lambda>_ _ _. None), k_get_job = (\<lambda>_ name. Inr name), is_not_found = (\<lambda>_. False)\<rparr>"

definition ex_response :: MatchResponse where
  "ex_response = \<lparr>mp_FluxID = 7, mp_Nodelist = [\<lparr>na_NodeID = ''n1'', na_Tasks = 1\<rparr>, \<lparr>na_NodeID = ''n2'', na_Tasks = 1\<rparr>],
     mp_Reserved = False, mp_ReservedAt = 0, mp_Allocated = True\<rparr>"

definition ex_flux :: flux_client where
  "ex_flux = \<lparr>match_rpc = (\<lambda>_. Inr ex_response), cancel_rpc = (\<lambda>_. None)\<rparr>"

definition ex_live :: live_pods where
  "ex_live = \<lparr>get_pod = (\<lambda>ns name. (ex_pod name, None)), pod_not_found = (\<lambda>_. False),
     IsPodPhaseTerminal = (\<lambda>ph. ph = ''Succeeded'' \<or> ph = ''Failed'')\<rparr>"

definition ex_queue :: queue where
  "ex_queue = \<lparr>q_Strategy = EasyBackfill ex_env ex_codec id ex_collect, q_ReservationDepth = 1,
     q_worker_queues = [QueueDefault, ''cancel_queue'']\<rparr>"

lemma ex_world_simps [simp]:
  "tables (ex_world t) = t" "tape (ex_world t) = []" "put [] t' (ex_world t) = ex_world t'"
  "sent (ex_world t) = []"
  by (simp_all add: ex_world_def put_def)

lemma ex_scans: "scans_ok ex_env"
  by (simp add: scans_ok_def ex_env_def)

lemma iter_ok_id: "iter_ok id"
  by (simp add: iter_ok_def)

lemma placeholders_truncate: "placeholders DeleteReservationsQuery = 0"
  by (simp add: DeleteReservationsQuery_def)

lemma ex_env_ok:
  "strategy_env ex_env id" "arity_checked ex_env" "tag_documented ex_env" "raw_keeps ex_env"
  using ex_scans iter_ok_id placeholders_truncate
  by (auto simp: strategy_env_def clears_reservations_def arity_checked_def tag_documented_def
      raw_keeps_def ex_env_def tables_ok_def)

lemma ex_pod_names: "ex_pod a = ex_pod b \<longleftrightarrow> a = b"
  by (auto simp: ex_pod_def)

lemma ex_codec_ok: "codec_ok ex_codec"
  by (auto simp: codec_ok_def ex_codec_def ex_pod_names)

lemma ex_marshal: "marshal ex_codec (ex_pod ''a'') = Inr ''A''" "marshal ex_codec (ex_pod ''b'') = Inr ''B''"
  by (simp_all add: ex_codec_def ex_pod_names)

lemma ex_lits: "lit_ok ''A''" "lit_ok ''B''" "lit_ok ''a''" "lit_ok ''b''" "lit_ok ''lammps''" "lit_ok ''default''"
  by (simp_all add: lit_ok_def)

lemma ex_plain: "plain_pod ex_codec (ex_pod ''a'') ex_group" "plain_pod ex_codec (ex_pod ''b'') ex_group"
  by (auto simp: plain_pod_def plain_request_def ex_marshal ex_lits ex_group_def ex_pod_def [of "''a''"]
      ex_pod_def [of "''b''"] ex_codec_def lit_ok_def)

lemma ex_ranges: "int4_range 2" "int4_range 60" "int4_range 1"
  by (simp_all add: int4_range_def)

end
