(* ===== verification/QueueProps.thy ===== *)
theory QueueProps
  imports Examples
begin

text \<open>
  The properties of the queue: enqueueing, the selection and the move of ready groups, the
  schedule cycle, and the invariants of the reachable states.
\<close>

section \<open>Helper lemmas\<close>

lemma tag_never_insert:
  assumes "tag_documented E"
  shows "\<not> strings_Contains (select_tag E n) ''INSERT 1''"
proof
  assume "strings_Contains (select_tag E n) ''INSERT 1''"
  then have "strings_Contains (''SELECT '' @ show_nat n) ''INSERT 1''"
    using assms by (simp add: tag_documented_def)
  then obtain a b where ab: "''SELECT '' @ show_nat n = a @ ''INSERT 1'' @ b"
    by (auto simp: Contains_iff)
  have "CHR ''I'' \<in> set (a @ ''INSERT 1'' @ b)" by simp
  then have "CHR ''I'' \<in> set (''SELECT '' @ show_nat n)" by (simp only: ab)
  then have "CHR ''I'' \<in> set (show_nat n)" by simp
  then show False using show_nat_digits [of n] by (auto simp: is_digit_def)
qed

definition countable_request :: "PodGroup \<Rightarrow> pod \<Rightarrow> tables \<Rightarrow> bool" where
  "countable_request g p t \<longleftrightarrow> int4_range (pg_Size g) \<and> int4_range (pg_Duration g) \<and>
     (\<forall>r \<in> set (groups_provisional t). group_key r = (pg_Name g, Namespace p) \<longrightarrow>
        int4_range (gr_current_size r + 1))"

lemma Enqueue_quiet:
  assumes "tape w = []" and "tag_documented E" and "marshal C p = Inr spec" and "plain_pod C p g"
    and "countable_request g p (tables w)"
  shows "Enqueue E C p g w = ((PodEnqueueSuccess, None), put [] (after_request spec p g (tables w)) w)"
proof -
  have ok: "stmt_ok st" if "st \<in> set (request_stmts spec p g)" for st
    using plain_request_stmts [OF _ that] assms(3,4) by (simp add: plain_pod_def)
  have tp: "after_pod spec p g t = t\<lparr>pods_provisional := insert_pod (new_pod_row spec p g) (pods_provisional t)\<rparr>" for t
    by (simp add: after_pod_def)
  have "exec_seq E (request_stmts spec p g) w = (Inr (), put [] (after_request spec p g (tables w)) w)"
    using assms(1,5) ok
    by (auto simp: request_stmts_def quiet_pool_exec countable_request_def after_request_def
        after_increment_def after_pod_def new_pod_row_def new_group_row_def)
  then show ?thesis
    using assms tag_never_insert [OF assms(2)] by (simp add: Enqueue_unfold IsPendingQuery_def)
qed

lemma ex_countable: "countable_request ex_group (ex_pod a) empty_tables"
  by (simp add: countable_request_def ex_group_def empty_tables_def ex_ranges)

lemma ex_fields:
  "pg_Name ex_group = ''lammps''" "pg_Size ex_group = 2" "pg_Duration ex_group = 60"
  "Namespace (ex_pod a) = ''default''" "Name (ex_pod a) = a"
  by (simp_all add: ex_group_def ex_pod_def)

lemma ex_first:
  "Enqueue ex_env ex_codec (ex_pod ''a'') ex_group (ex_world empty_tables) =
     ((PodEnqueueSuccess, None), ex_world (after_request ''A'' (ex_pod ''a'') ex_group empty_tables))"
  using Enqueue_quiet [of "ex_world empty_tables" ex_env ex_codec "ex_pod ''a''" "''A''" ex_group]
  by (simp add: ex_env_ok ex_marshal ex_plain ex_countable)

section \<open>Enqueue\<close>

text \<open>C9: a successful Enqueue does to the tables, seen as finite maps, exactly what the
  specification says: the pod is remembered once, the group's count grows by one or starts at
  one; nothing else in the database or outside it changes.\<close>

theorem enqueue_refines_spec:
  assumes run: "Enqueue E C p g w = ((PodEnqueueSuccess, err), w')"
    and "plain_pod C p g" and "marshal C p = Inr spec"
  shows "err = None \<and> abs_tables (tables w') = spec_enqueue spec p g (abs_tables (tables w)) \<and>
    river_job (tables w') = river_job (tables w) \<and> reservations (tables w') = reservations (tables w) \<and>
    sent w' = sent w"
proof -
  obtain ts t' en where "w' = put ts t' w" "enqueue_ends E C p g (tables w) PodEnqueueSuccess err t' en"
    using Enqueue_ends [OF run] assms(2) by (auto simp: plain_pod_def)
  then show ?thesis using assms(3) after_request_refines
    by (cases en) (auto simp: enqueue_ends_def after_request_def after_increment_def after_pod_def)
qed

theorem enqueue_refines_spec_witness:
  "abs_tables (tables (snd (Enqueue ex_env ex_codec (ex_pod ''a'') ex_group (ex_world empty_tables)))) =
     spec_enqueue ''A'' (ex_pod ''a'') ex_group (abs_tables empty_tables)"
  using enqueue_refines_spec [OF ex_first ex_plain(1) ex_marshal(1)]
  by (simp only: ex_first snd_conv ex_world_simps)

text \<open>C21: Enqueue reports an error exactly when it says Unknown or PodInvalid; a pod refused
  because its group is pending or its encoding fails changes no table; an Unknown outcome has run
  a prefix of the three statements and never touches the pending table or the job table.\<close>

theorem enqueue_outcomes:
  assumes run: "Enqueue E C p g w = ((st, err), w')" and "plain_pod C p g"
  shows "(err = None \<longleftrightarrow> st = PodEnqueueSuccess \<or> st = GroupAlreadyInPending) \<and>
    (st = GroupAlreadyInPending \<or> st = PodInvalid \<longrightarrow> tables w' = tables w) \<and>
    (st = PodInvalid \<longrightarrow> (\<exists>e. marshal C p = Inl e)) \<and>
    (st = Unknown \<longrightarrow> tables w' = tables w \<or> (\<exists>spec. marshal C p = Inr spec \<and>
       (tables w' = after_pod spec p g (tables w) \<or> tables w' = after_increment spec p g (tables w)))) \<and>
    pending_queue (tables w') = pending_queue (tables w) \<and> river_job (tables w') = river_job (tables w)"
proof -
  obtain ts t' en where "w' = put ts t' w" "enqueue_ends E C p g (tables w) st err t' en"
    using Enqueue_ends [OF run] assms(2) by (auto simp: plain_pod_def)
  then show ?thesis
    by (cases en) (auto simp: enqueue_ends_def after_pod_def after_increment_def after_request_def)
qed

theorem enqueue_outcomes_witness:
  "Enqueue ex_env ex_codec (ex_pod ''c'') ex_group (ex_world empty_tables) =
     ((PodInvalid, Some (GoErr ''json: unsupported value'')), ex_world empty_tables) \<and>
   (\<exists>e. marshal ex_codec (ex_pod ''c'') = Inl e)"
proof -
  have run: "Enqueue ex_env ex_codec (ex_pod ''c'') ex_group (ex_world empty_tables) =
     ((PodInvalid, Some (GoErr ''json: unsupported value'')), ex_world empty_tables)"
    using tag_never_insert [OF ex_env_ok(3)]
    by (simp add: Enqueue_def IsPendingQuery_def ex_codec_def ex_pod_names)
  have "plain_pod ex_codec (ex_pod ''c'') ex_group"
    by (simp add: plain_pod_def ex_codec_def ex_pod_names lit_ok_def ex_group_def)
      (simp add: ex_pod_def)
  then show ?thesis using run enqueue_outcomes [OF run] by simp
qed

text \<open>C32: on a healthy network a pod whose fields can be quoted and whose numbers fit the
  columns is always enqueued, whatever the tables hold.\<close>

theorem enqueue_succeeds:
  assumes "tape w = []" and "tag_documented E" and "marshal C p = Inr spec" and "plain_pod C p g"
    and "countable_request g p (tables w)"
  shows "\<exists>w'. Enqueue E C p g w = ((PodEnqueueSuccess, None), w') \<and>
    (\<exists>r \<in> set (pods_provisional (tables w')). pod_key r = (pg_Name g, Namespace p, Name p)) \<and>
    (\<exists>r \<in> set (groups_provisional (tables w')). group_key r = (pg_Name g, Namespace p))"
proof -
  let ?t = "after_request spec p g (tables w)"
  have "dom (row_of pod_key (pods_provisional ?t)) =
      insert (pg_Name g, Namespace p, Name p) (dom (row_of pod_key (pods_provisional (tables w))))"
    using podt.dom_ins [of "new_pod_row spec p g"]
    by (simp add: after_request_def after_increment_def after_pod_def)
  moreover have "dom (row_of group_key (groups_provisional ?t)) =
      insert (pg_Name g, Namespace p) (dom (row_of group_key (groups_provisional (tables w))))"
    using groupt.dom_ins [of "new_group_row spec p g"] groupt.dom_upd by (simp add: groups_after)
  ultimately have "(pg_Name g, Namespace p, Name p) \<in> pod_key ` set (pods_provisional ?t)"
    and "(pg_Name g, Namespace p) \<in> group_key ` set (groups_provisional ?t)"
    unfolding dom_row_of by blast+
  then show ?thesis using Enqueue_quiet [OF assms] by (simp add: image_iff) metis
qed

theorem enqueue_succeeds_witness:
  "\<exists>w'. Enqueue ex_env ex_codec (ex_pod ''a'') ex_group (ex_world empty_tables) =
     ((PodEnqueueSuccess, None), w')"
  using enqueue_succeeds [of "ex_world empty_tables" ex_env ex_codec "ex_pod ''a''" "''A''" ex_group]
  by (simp only: ex_world_simps ex_env_ok ex_marshal ex_plain ex_countable) blast

text \<open>With the documented command tags a select is never tagged as an insert, so the check
  meant to refuse pods of a pending group never refuses one: the status GroupAlreadyInPending
  does not occur, even for a group that is in the pending table.\<close>

theorem pending_check_never_fires:
  assumes "tag_documented E"
  shows "fst (fst (Enqueue E C p g w)) \<noteq> GroupAlreadyInPending"
proof -
  have no: "\<not> strings_Contains result ''INSERT 1''" if "Inr result = IsPendingQuery E a b t" for a b t result
    using that tag_never_insert [OF assms] by (auto simp: IsPendingQuery_def)
  show ?thesis
    unfolding Enqueue_unfold
    by (auto split: prod.splits sum.splits if_splits elim!: query_cases dest: no)
qed

theorem pending_check_never_fires_witness:
  "fst (fst (Enqueue ex_env ex_codec (ex_pod ''a'') ex_group (ex_world
     (empty_tables\<lparr>pending_queue := [\<lparr>pq_group_name = ''lammps'', pq_namespace = ''default'',
        pq_group_size = 2, pq_flux_id = Some 1\<rparr>]\<rparr>)))) \<noteq> GroupAlreadyInPending"
  by (rule pending_check_never_fires [OF ex_env_ok(3)])

text \<open>C33: enqueueing the same pod twice counts it twice. Starting without the group, a pod of a
  group of size 2 that arrives twice makes the group ready although the table holds one pod.\<close>

theorem duplicate_pod_counts_twice:
  assumes "tape w = []" and "tag_documented E" and "marshal C p = Inr spec" and "plain_pod C p g"
    and size: "pg_Size g = 2" and "int4_range (pg_Duration g)"
    and none: "(pg_Name g, Namespace p) \<notin> group_key ` set (groups_provisional (tables w))"
    and nopod: "pods_of (tables w) (pg_Name g, Namespace p) = []"
  shows "\<exists>w1 w2. Enqueue E C p g w = ((PodEnqueueSuccess, None), w1) \<and>
    Enqueue E C p g w1 = ((PodEnqueueSuccess, None), w2) \<and>
    (\<exists>r \<in> set (ready_rows (tables w2)). group_key r = (pg_Name g, Namespace p) \<and> gr_group_size r = 2) \<and>
    length (pods_of (tables w2) (pg_Name g, Namespace p)) = 1"
proof -
  let ?k = "(pg_Name g, Namespace p)" and ?t = "tables w"
  let ?t1 = "after_request spec p g ?t" and ?r = "new_group_row spec p g"
  have ne: "group_key r \<noteq> ?k" if "r \<in> set (groups_provisional ?t)" for r
    using none that by (metis imageI)
  then have inc: "increment_group ?k (groups_provisional ?t) = groups_provisional ?t"
    unfolding increment_group_def by (intro map_idI) simp
  have g1: "groups_provisional ?t1 = groups_provisional ?t @ [?r]"
    using ne by (auto simp: groups_after inc insert_group_def)
  have "fresh_pod p g ?t"
    using nopod by (fastforce simp: fresh_pod_def pods_of_def filter_empty_conv pod_key_def)
  then have p1: "pods_of ?t1 ?k = [new_pod_row spec p g]"
    using pods_of_after_pod [of p g ?t spec ?k] nopod by (simp add: pods_of_later)
  have q1: "Enqueue E C p g w = ((PodEnqueueSuccess, None), put [] ?t1 w)"
    using assms ne by (intro Enqueue_quiet) (auto simp: countable_request_def int4_range_def)
  have q2: "Enqueue E C p g (put [] ?t1 w) = ((PodEnqueueSuccess, None), put [] (after_request spec p g ?t1) w)"
    using assms g1 ne Enqueue_quiet [of "put [] ?t1 w" E C p spec g]
    by (auto simp: countable_request_def int4_range_def new_group_row_def)
  have "?r\<lparr>gr_current_size := 2\<rparr> \<in> set (groups_provisional (after_request spec p g ?t1))"
    by (auto simp: groups_after(3) [of spec p g ?t1] g1 increment_group_def insert_group_def new_group_row_def group_key_def)
  then have "?r\<lparr>gr_current_size := 2\<rparr> \<in> set (ready_rows (after_request spec p g ?t1))"
    using size by (simp add: ready_rows_def new_group_row_def)
  moreover have "pods_of (after_request spec p g ?t1) ?k = pods_of ?t1 ?k"
  proof -
    have "new_pod_row spec p g \<in> set (pods_provisional ?t1)"
      using p1 unfolding pods_of_def by (auto simp: filter_eq_Cons_iff)
    then have "\<exists>x \<in> set (pods_provisional ?t1). pod_key x = pod_key (new_pod_row spec p g)" by blast
    then show ?thesis unfolding pods_of_later(2) [of spec p g ?t1]
      by (simp add: pods_of_def after_pod_def insert_pod_def)
  qed
  ultimately show ?thesis using q1 q2 p1 size
    by (intro exI [of _ "put [] ?t1 w"] exI [of _ "put [] (after_request spec p g ?t1) w"])
      (force simp: group_key_def new_group_row_def)
qed

theorem duplicate_pod_counts_twice_witness:
  "\<exists>w1 w2. Enqueue ex_env ex_codec (ex_pod ''a'') ex_group (ex_world empty_tables) = ((PodEnqueueSuccess, None), w1) \<and>
    Enqueue ex_env ex_codec (ex_pod ''a'') ex_group w1 = ((PodEnqueueSuccess, None), w2) \<and>
    (\<exists>r \<in> set (ready_rows (tables w2)). group_key r = (''lammps'', ''default'') \<and> gr_group_size r = 2) \<and>
    length (pods_of (tables w2) (''lammps'', ''default'')) = 1"
  by (rule duplicate_pod_counts_twice [of "ex_world empty_tables" ex_env ex_codec "ex_pod ''a''" "''A''" ex_group,
      unfolded ex_fields])
    (simp_all add: ex_env_ok ex_marshal ex_plain ex_ranges empty_tables_def pods_of_def)

section \<open>The reachable states\<close>

text \<open>C3: in every reachable state, whatever order of arrivals, cycles, workers, cleanups,
  deletions and network failures led to it, the three tables have unique keys and no group
  counts more pods than the table holds for it (pods arriving once).\<close>

theorem reachable_counts:
  assumes "queue_reach E C iter collect K F L w" and "strategy_env E iter" and "arity_checked E"
  shows "unique_pods (pods_provisional (tables w)) \<and> unique_groups (groups_provisional (tables w)) \<and>
    unique_pending (pending_queue (tables w)) \<and>
    (\<forall>r \<in> set (groups_provisional (tables w)).
       gr_current_size r \<le> int (length (pods_of (tables w) (group_key r))))"
  using reach_reach_inv [OF assms]
  by (simp add: reach_inv_def queue_inv_def tables_ok_def count_ok_def)

lemma ex_accepted: "accepted_pod ex_codec (ex_pod ''a'') empty_tables"
proof -
  have "lit_ok spec" if "marshal ex_codec q = Inr spec" for q spec
    using that by (auto simp: ex_codec_def ex_lits split: if_splits)
  then show ?thesis
    by (simp add: accepted_pod_def empty_tables_def GetPodGroupName_def GetPodGroupLabel_def
        map_get_zero_def map_get_def ex_fields ex_lits Let_def)
      (simp add: ex_pod_def lit_ok_def)
qed

lemma ex_sizes:
  "GetPodGroupSize (ex_pod a) = Returns (Inr 2, ex_pod a)" "GetPodGroupName (ex_pod a) = ''lammps''"
  "GetPodGroupDuration (ex_pod a) = 60"
  by (simp_all add: GetPodGroupSize_def GetPodGroupName_def GetPodGroupLabel_def map_get_zero_def
      map_get_def ex_pod_def PodGroupLabel_def PodGroupSizeLabel_def GetPodGroupDuration_def
      ParseInt_def ParseUint_def is_digit_def digit_val_def Let_def)

lemma ex_queue_enqueue:
  "Queue_Enqueue ex_env ex_queue 5 (ex_pod ''a'') (ex_world empty_tables) =
     Returns ((PodEnqueueSuccess, None), ex_world (after_request ''A'' (ex_pod ''a'') ex_group empty_tables))"
proof -
  have "GetCreationTimestamp ex_env 5 (ex_pod ''a'') ''lammps'' (ex_world empty_tables) = (5, ex_world empty_tables)"
    by (simp add: GetCreationTimestamp_def select_created_at_def empty_tables_def ex_env_def no_rows_def
        GetPodCreationTimestamp_def) (simp add: ex_pod_def)
  moreover have "\<lparr>pg_Name = ''lammps'', pg_Size = 2, pg_Timestamp = 5, pg_Duration = 60\<rparr> = ex_group"
    by (simp add: ex_group_def)
  ultimately show ?thesis
    by (simp add: Queue_Enqueue_def Let_def ex_sizes ex_queue_def EasyBackfill_def ex_first)
qed

lemma ex_reach:
  "queue_reach ex_env ex_codec id ex_collect ex_kube ex_flux ex_live
     (ex_world (after_request ''A'' (ex_pod ''a'') ex_group empty_tables))"
proof (rule queue_reach.step)
  show "queue_reach ex_env ex_codec id ex_collect ex_kube ex_flux ex_live (ex_world empty_tables)"
    by (rule queue_reach.start) (simp add: empty_tables_def)
  show "queue_step ex_env ex_codec id ex_collect ex_kube ex_flux ex_live (ex_world empty_tables)
     (ex_world (after_request ''A'' (ex_pod ''a'') ex_group empty_tables))"
    by (rule queue_step.pod_created [OF ex_queue_enqueue]) (simp_all add: ex_queue_def ex_accepted)
qed

theorem reachable_counts_witness:
  "unique_pods (pods_provisional (after_request ''A'' (ex_pod ''a'') ex_group empty_tables))"
  using reachable_counts [OF ex_reach ex_env_ok(1,2)] by simp

text \<open>C4: as long as no pod is enqueued twice, and no value between quotes has a quote, a group
  that a schedule cycle hands over has enough pods: in a state reached that way, whatever failed
  before, every entry of the batch is the job of one group row, and the names it carries are those of
  as many distinct pods of that group as its size asks for, at least.\<close>

theorem scheduled_groups_are_complete:
  assumes "queue_reach E C iter collect K F L w" and "strategy_env E iter" and "arity_checked E"
    and "easy_Schedule E iter d w = (Inr batch, w')" and ip: "ip \<in> set batch"
  shows "\<exists>r \<in> set (groups_provisional (tables w)). \<exists>a names.
    ip_args ip = encode_JobArgs a \<and> ja_GroupName a = gr_group_name r \<and> ja_Namespace a = gr_namespace r \<and>
    ja_GroupSize a = gr_group_size r \<and> ja_Names a = strings_Join names '','' \<and>
    distinct names \<and> set names = pr_name ` set (pods_of (tables w) (group_key r)) \<and>
    gr_group_size r \<le> int (length names)"
proof -
  have inv: "reach_inv E iter (tables w)" by (rule reach_reach_inv [OF assms(1-3)])
  then have env: "scans_ok E" "iter_ok iter" "plain_groups (tables w)"
    by (auto simp: reach_inv_def queue_inv_def strategy_env_def)
  obtain jobs where rj: "ReadyJobs E iter w = ((jobs, None), w')" and batch: "batch = schedule_loop 0 d jobs []"
    using assms(4) by (auto simp: easy_Schedule_def split: prod.splits option.splits)
  obtain a where a: "a \<in> set jobs" and args: "ip_args ip = encode_JobArgs a"
    using ip unfolding batch schedule_loop_eq by auto
  have "selected E (tables w) jobs"
    using rj env a by (cases rule: ReadyJobs_cases) auto
  then obtain m names where "m \<in> set (ready_rows (tables w))" "a = group_job E (tables w) m"
    "ja_Names a = strings_Join names '',''" "distinct names"
    "set names = pr_name ` set (pods_of (tables w) (group_key m))" "gr_group_size m \<le> int (length names)"
    by (rule selected_job_complete [OF _ inv a])
  then show ?thesis using args
    by (intro bexI [of _ m] exI [of _ a] exI [of _ names]) (simp_all add: group_job_def job_of_def ready_rows_def)
qed

definition ex_two :: tables where
  "ex_two = empty_tables\<lparr>
     pods_provisional := [new_pod_row ''A'' (ex_pod ''a'') ex_group, new_pod_row ''B'' (ex_pod ''b'') ex_group],
     groups_provisional := [(new_group_row ''A'' (ex_pod ''a'') ex_group)\<lparr>gr_current_size := 2\<rparr>]\<rparr>"

lemma ex_two_eq:
  "after_request ''B'' (ex_pod ''b'') ex_group (after_request ''A'' (ex_pod ''a'') ex_group empty_tables) = ex_two"
  by (simp add: after_request_def after_increment_def after_pod_def insert_pod_def insert_group_def
      increment_group_def pod_key_def group_key_def new_pod_row_def new_group_row_def ex_fields
      empty_tables_def ex_two_def)

lemma ex_second:
  "Queue_Enqueue ex_env ex_queue 5 (ex_pod ''b'') (ex_world (after_request ''A'' (ex_pod ''a'') ex_group empty_tables)) =
     Returns ((PodEnqueueSuccess, None), ex_world ex_two)"
proof -
  let ?t = "after_request ''A'' (ex_pod ''a'') ex_group empty_tables"
  have "countable_request ex_group (ex_pod ''b'') ?t"
    by (simp add: countable_request_def ex_fields int4_range_def groups_after insert_group_def
        increment_group_def empty_tables_def) (simp add: new_group_row_def)
  then have "Enqueue ex_env ex_codec (ex_pod ''b'') ex_group (ex_world ?t) =
      ((PodEnqueueSuccess, None), ex_world ex_two)"
    using Enqueue_quiet [of "ex_world ?t" ex_env ex_codec "ex_pod ''b''" "''B''" ex_group]
    by (simp add: ex_env_ok ex_marshal ex_plain ex_two_eq)
  moreover have "GetCreationTimestamp ex_env 5 (ex_pod ''b'') ''lammps'' (ex_world ?t) = (5, ex_world ?t)"
    by (simp add: GetCreationTimestamp_def select_created_at_def after_request_def after_increment_def
        after_pod_def insert_pod_def new_pod_row_def empty_tables_def ex_env_def ex_fields)
      (simp add: ex_group_def)
  moreover have "\<lparr>pg_Name = ''lammps'', pg_Size = 2, pg_Timestamp = 5, pg_Duration = 60\<rparr> = ex_group"
    by (simp add: ex_group_def)
  ultimately show ?thesis
    by (simp add: Queue_Enqueue_def Let_def ex_sizes ex_queue_def EasyBackfill_def)
qed

lemma ex_reach_two:
  "queue_reach ex_env ex_codec id ex_collect ex_kube ex_flux ex_live (ex_world ex_two)"
proof (rule queue_reach.step [OF ex_reach])
  have lit: "lit_ok spec" if "marshal ex_codec q = Inr spec" for q spec
    using that by (auto simp: ex_codec_def ex_lits split: if_splits)
  have "accepted_pod ex_codec (ex_pod ''b'') (after_request ''A'' (ex_pod ''a'') ex_group empty_tables)"
    using lit by (simp add: accepted_pod_def ex_sizes ex_fields ex_lits after_request_def
        after_increment_def after_pod_def insert_pod_def pod_key_def new_pod_row_def empty_tables_def)
  then show "queue_step ex_env ex_codec id ex_collect ex_kube ex_flux ex_live
      (ex_world (after_request ''A'' (ex_pod ''a'') ex_group empty_tables)) (ex_world ex_two)"
    by (intro queue_step.pod_created [OF ex_second]) (simp_all add: ex_queue_def)
qed

definition ex_job :: JobArgs where
  "ex_job = \<lparr>ja_Jobspec = [], ja_Podspec = ''B'', ja_GroupName = ''lammps'', ja_GroupSize = 2,
     ja_Duration = 60, ja_Namespace = ''default'', ja_Reservation = False, ja_Nodes = [],
     ja_Names = ''a,b''\<rparr>"

definition ex_moved :: tables where
  "ex_moved = ex_two\<lparr>groups_provisional := [],
     pending_queue := [\<lparr>pq_group_name = ''lammps'', pq_namespace = ''default'', pq_group_size = 2,
       pq_flux_id = None\<rparr>]\<rparr>"

lemma ex_ready: "ReadyJobs ex_env id (ex_world ex_two) = (([ex_job], None), ex_world ex_moved)"
proof -
  have get: "getReadyGroups ex_env id (ex_world ex_two) = (Inr [ex_job], ex_world ex_two)"
    by (simp add: getReadyGroups_def SelectGroupsAtSize_def ex_two_def ex_env_def new_group_row_def
        new_pod_row_def ex_fields SelectPods_def job_of_def ex_job_def)
  have ins: "insertPending ex_env [ex_job] (ex_world ex_two) =
      (Inr (), ex_world (ex_moved\<lparr>groups_provisional := groups_provisional ex_two\<rparr>))"
    by (simp add: insertPending_def pool_update_def net_call_def lift_tables_def pending_stmt_def ex_job_def
        exec_stmt_def stmt_ok_def ex_lits ex_ranges insert_pending_def ex_two_def empty_tables_def
        ex_moved_def ex_world_def)
  have del: "deleteGroups ex_env [ex_job] (ex_world (ex_moved\<lparr>groups_provisional := groups_provisional ex_two\<rparr>)) =
      (Inr (), ex_world ex_moved)"
    by (simp add: deleteGroups_def pool_exec_def net_call_def lift_tables_def exec_stmt_def stmt_ok_def
        ex_lits job_key_def ex_job_def delete_groups_def ex_moved_def ex_two_def group_key_def
        new_group_row_def ex_fields ex_world_def)
  show ?thesis using get ins del by (simp add: ReadyJobs_def)
qed

lemma ex_schedule:
  "easy_Schedule ex_env id 1 (ex_world ex_two) = (Inr (schedule_loop 0 1 [ex_job] []), ex_world ex_moved)"
  by (simp add: easy_Schedule_def ex_ready)

theorem scheduled_groups_are_complete_witness:
  "\<exists>ip \<in> set (schedule_loop 0 1 [ex_job] []). \<exists>r \<in> set (groups_provisional ex_two). \<exists>a (names :: string list).
     ip_args ip = encode_JobArgs a \<and> ja_Names a = strings_Join names '','' \<and> distinct names \<and> gr_group_size r \<le> int (length names)"
proof -
  have "\<exists>ip. ip \<in> set (schedule_loop 0 1 [ex_job] [])" by (simp add: Let_def)
  then obtain ip where ip: "ip \<in> set (schedule_loop 0 1 [ex_job] [])" by blast
  from scheduled_groups_are_complete [OF ex_reach_two ex_env_ok(1,2) ex_schedule ip]
  obtain r a names where "r \<in> set (groups_provisional ex_two)" "ip_args ip = encode_JobArgs a"
    "ja_Names a = strings_Join names '',''" "distinct names" "gr_group_size r \<le> int (length names)"
    unfolding ex_world_simps by (elim bexE exE conjE)
  then show ?thesis using ip by (intro bexI [of _ ip] bexI [of _ r] exI conjI)
qed

section \<open>Ready groups\<close>

text \<open>C22: what ReadyJobs hands over when it succeeds: each job is that of a group that has
  enough pods, every such group has the job of a group with its lookup key, and no two jobs
  share a lookup key.\<close>

theorem ready_jobs_selection:
  assumes "ReadyJobs E iter w = ((jobs, None), w')"
    and "scans_ok E" and "iter_ok iter" and "plain_groups (tables w)"
  shows "(\<forall>a \<in> set jobs. \<exists>r \<in> set (groups_provisional (tables w)).
       gr_group_size r \<le> gr_current_size r \<and> a = group_job E (tables w) r) \<and>
    (\<forall>r \<in> set (groups_provisional (tables w)). gr_group_size r \<le> gr_current_size r \<longrightarrow>
       (\<exists>a \<in> set jobs. ja_GroupName a @ ''-'' @ ja_Namespace a = lookup_key r)) \<and>
    distinct (map (\<lambda>a. ja_GroupName a @ ''-'' @ ja_Namespace a) jobs)"
  using assms
proof (cases rule: ReadyJobs_cases)
  case (unchanged ts)
  then show ?thesis by (auto simp: ready_rows_def filter_empty_conv)
next
  case (moved ts)
  have "\<exists>a \<in> set jobs. ja_GroupName a @ ''-'' @ ja_Namespace a = lookup_key r"
    if "r \<in> set (ready_rows (tables w))" for r
    using that moved(3) group_job_lookup_key unfolding selected_def by metis
  then show ?thesis using moved(3) by (auto simp: selected_def ready_rows_def)
qed auto

lemma ex_plain_groups: "plain_groups ex_two"
  by (simp add: plain_groups_def plain_keys_def ex_two_def group_key_def new_group_row_def ex_fields ex_lits)

theorem ready_jobs_selection_witness:
  "ReadyJobs ex_env id (ex_world ex_two) = (([ex_job], None), ex_world ex_moved) \<and>
   (\<exists>r \<in> set (groups_provisional ex_two). ex_job = group_job ex_env ex_two r)"
  using ready_jobs_selection [OF ex_ready ex_scans iter_ok_id] ex_ready ex_plain_groups by auto

text \<open>The order in which the query delivers the groups does not survive: Go walks its map in
  an order of its own, and any rearrangement of the jobs is the result for some such order, the
  database and the network being the same.\<close>

theorem job_order_is_arbitrary:
  assumes "getReadyGroups E iter w = (Inr jobs, w')" and "iter_ok iter" and "mset jobs' = mset jobs"
  shows "\<exists>iter'. iter_ok iter' \<and> getReadyGroups E iter' w = (Inr jobs', w')"
proof -
  obtain models w1 lookup where run: "query (SelectGroupsAtSize E) w = (Inr models, w1)"
    "collect_jobs E models [] w1 = (Inr lookup, w')" "jobs = iter (map snd lookup)"
    using assms(1) by (auto simp: getReadyGroups_def split: prod.splits sum.splits)
  define iter' where "iter' = (\<lambda>xs. if xs = map snd lookup then jobs' else xs)"
  have "iter_ok iter'"
    using assms(2,3) run(3) by (simp add: iter_ok_def iter'_def)
  moreover have "getReadyGroups E iter' w = (Inr jobs', w')"
    using run by (simp add: getReadyGroups_def iter'_def)
  ultimately show ?thesis by blast
qed

theorem job_order_is_arbitrary_witness:
  "\<exists>iter'. iter_ok iter' \<and> getReadyGroups ex_env iter' (ex_world ex_two) = (Inr [ex_job], ex_world ex_two)"
proof -
  have get: "getReadyGroups ex_env id (ex_world ex_two) = (Inr [ex_job], ex_world ex_two)"
    by (simp add: getReadyGroups_def SelectGroupsAtSize_def ex_two_def ex_env_def new_group_row_def
        new_pod_row_def ex_fields SelectPods_def job_of_def ex_job_def)
  show ?thesis by (rule job_order_is_arbitrary [OF get iter_ok_id]) simp
qed

text \<open>The lookup key joins group name and namespace with a dash, so two ready groups such as
  a-b in c and a in b-c share it, and at most one of them is handed over in a cycle.\<close>

theorem colliding_groups_wait:
  assumes "ReadyJobs E iter w = ((jobs, None), w')"
    and "scans_ok E" and "iter_ok iter" and "plain_groups (tables w)"
    and "lookup_key r1 = lookup_key r2" and "group_key r1 \<noteq> group_key r2"
  shows "\<not> (group_key r1 \<in> job_key ` set jobs \<and> group_key r2 \<in> job_key ` set jobs)"
proof
  let ?name = "\<lambda>a. ja_GroupName a @ ''-'' @ ja_Namespace a"
  assume "group_key r1 \<in> job_key ` set jobs \<and> group_key r2 \<in> job_key ` set jobs"
  then obtain a1 a2 where a: "a1 \<in> set jobs" "a2 \<in> set jobs" "job_key a1 = group_key r1"
    "job_key a2 = group_key r2" by (metis imageE)
  then have "?name a1 = ?name a2"
    using assms(5) by (simp add: job_key_def group_key_def lookup_key_def)
  moreover have "distinct (map ?name jobs)"
    using assms(1-4) by (cases rule: ReadyJobs_cases) (auto simp: selected_def)
  ultimately have "a1 = a2" using a(1,2) by (intro distinct_key_eq [of ?name jobs])
  then show False using a assms(6) by simp
qed

theorem colliding_groups_wait_witness:
  "let r1 = (new_group_row ''A'' (ex_pod ''a'') ex_group)\<lparr>gr_group_name := ''a-b'', gr_namespace := ''c''\<rparr>;
       r2 = r1\<lparr>gr_group_name := ''a'', gr_namespace := ''b-c''\<rparr>
   in lookup_key r1 = lookup_key r2 \<and> group_key r1 \<noteq> group_key r2 \<and>
      \<not> (group_key r1 \<in> job_key ` set [ex_job] \<and> group_key r2 \<in> job_key ` set [ex_job])"
  unfolding Let_def
  by (intro conjI colliding_groups_wait [OF ex_ready ex_scans iter_ok_id])
    (simp_all add: lookup_key_def group_key_def ex_plain_groups)

lemma keys_fold_pending:
  "pending_key ` set (fold insert_pending (map pending_of jobs) t) = job_key ` set jobs \<union> pending_key ` set t"
  using pendt.dom_fold_ins [of "map pending_of jobs" t] unfolding dom_row_of by (simp add: image_image)

lemma ready_moves:
  assumes "ReadyJobs E iter w = ((jobs, None), w')"
    and "scans_ok E" and "iter_ok iter" and "plain_groups (tables w)"
  shows "\<forall>a \<in> set jobs. job_key a \<in> pending_key ` set (pending_queue (tables w')) \<and>
    job_key a \<notin> group_key ` set (groups_provisional (tables w'))"
  using assms
  by (cases rule: ReadyJobs_cases)
    (auto simp: move_groups_def mark_pending_def keys_fold_pending keys_delete_groups)

text \<open>C10: no group is lost on any path through ReadyJobs, failures included: a group is
  provisional or pending afterwards exactly if it was before, and when ReadyJobs succeeds the
  groups handed over are pending and no longer provisional.\<close>

theorem ready_jobs_conserve_groups:
  assumes "ReadyJobs E iter w = ((jobs, err), w')"
    and "scans_ok E" and "iter_ok iter" and "plain_groups (tables w)"
  shows "group_key ` set (groups_provisional (tables w')) \<union> pending_key ` set (pending_queue (tables w')) =
      group_key ` set (groups_provisional (tables w)) \<union> pending_key ` set (pending_queue (tables w)) \<and>
    (err = None \<longrightarrow> (\<forall>a \<in> set jobs. job_key a \<in> pending_key ` set (pending_queue (tables w')) \<and>
       job_key a \<notin> group_key ` set (groups_provisional (tables w'))))"
proof -
  have sub: "job_key ` set jobs \<subseteq> group_key ` set (groups_provisional (tables w))"
    if "selected E (tables w) jobs"
    using selected_keys [OF that] by (auto simp: ready_rows_def)
  from assms show ?thesis
  proof (cases rule: ReadyJobs_cases)
    case (marked ts e)
    then show ?thesis using sub by (auto simp: mark_pending_def keys_fold_pending)
  next
    case (moved ts)
    then show ?thesis using sub
      by (auto simp: move_groups_def mark_pending_def keys_fold_pending keys_delete_groups)
  qed simp
qed

theorem ready_jobs_conserve_groups_witness:
  "job_key ex_job \<in> pending_key ` set (pending_queue ex_moved) \<and>
   job_key ex_job \<notin> group_key ` set (groups_provisional ex_moved)"
  using ready_jobs_conserve_groups [OF ex_ready ex_scans iter_ok_id] ex_plain_groups by simp

section \<open>Reading back\<close>

text \<open>C31: what was enqueued is what is read back for binding: after a successful Enqueue of a new
  pod, GetPodSpec with the pod's names and group returns the pod itself.\<close>

theorem enqueue_then_GetPodSpec:
  assumes "Enqueue E C p g w = ((PodEnqueueSuccess, None), w1)" and "plain_pod C p g"
    and "fresh_pod p g (tables w)" and "codec_ok C" and "tape w1 = []"
  shows "fst (GetPodSpec C (Namespace p) (Name p) (pg_Name g) w1) = (Some p, None)"
proof -
  obtain ts t' en where w1: "w1 = put ts t' w" and "enqueue_ends E C p g (tables w) PodEnqueueSuccess None t' en"
    using Enqueue_ends [OF assms(1)] assms(2) by (auto simp: plain_pod_def)
  then obtain spec where spec: "marshal C p = Inr spec" and t': "t' = after_request spec p g (tables w)"
    by (cases en) (auto simp: enqueue_ends_def)
  have "row_of pod_key (pods_provisional (tables w)) (pg_Name g, Namespace p, Name p) = None"
    using assms(3) by (force simp: row_of_None fresh_pod_def)
  then have "row_of pod_key (pods_provisional t') (pg_Name g, Namespace p, Name p) = Some (new_pod_row spec p g)"
    using podt.ins_fresh [of "pods_provisional (tables w)" "new_pod_row spec p g"]
    by (simp add: t' after_request_def after_increment_def after_pod_def)
  moreover have "unmarshal C spec = Inr p" using assms(4) spec by (auto simp: codec_ok_def)
  ultimately show ?thesis
    using assms(5) w1 by (simp add: GetPodSpec_def select_podspec_def new_pod_row_def)
qed

theorem enqueue_then_GetPodSpec_witness:
  "fst (GetPodSpec ex_codec ''default'' ''a'' ''lammps''
     (ex_world (after_request ''A'' (ex_pod ''a'') ex_group empty_tables))) = (Some (ex_pod ''a''), None)"
  using enqueue_then_GetPodSpec [OF ex_first ex_plain(1) _ ex_codec_ok]
  by (simp add: ex_fields fresh_pod_def empty_tables_def)

text \<open>The size of a pod's group: a decimal label in the range of 32 bits is read as its
  number, a missing label counts as 1, every size returned is in range, and a pod without any
  labels makes the function panic, because the default is written into the nil map.\<close>

theorem group_size_outcomes:
  "(Labels p = None \<longleftrightarrow> (\<exists>msg. GetPodGroupSize p = Panics msg)) \<and>
   (Labels p \<noteq> None \<and> map_get (Labels p) PodGroupSizeLabel = None \<longrightarrow>
      (\<exists>p'. GetPodGroupSize p = Returns (Inr 1, p'))) \<and>
   (\<forall>n. int4_range n \<and> map_get (Labels p) PodGroupSizeLabel = Some (show_int n) \<longrightarrow>
      GetPodGroupSize p = Returns (Inr n, p)) \<and>
   (\<forall>n p'. GetPodGroupSize p = Returns (Inr n, p') \<longrightarrow> int4_range n)"
proof (intro conjI allI impI)
  show "Labels p = None \<longleftrightarrow> (\<exists>msg. GetPodGroupSize p = Panics msg)"
    using GetPodGroupSize_panics_iff by blast
next
  assume "Labels p \<noteq> None \<and> map_get (Labels p) PodGroupSizeLabel = None"
  then show "\<exists>p'. GetPodGroupSize p = Returns (Inr 1, p')" using GetPodGroupSize_default by blast
next
  fix n
  assume n: "int4_range n \<and> map_get (Labels p) PodGroupSizeLabel = Some (show_int n)"
  then have "ParseInt 32 (show_int n) = Inr n" by (intro ParseInt_show_int) (simp_all add: int4_range_def)
  then show "GetPodGroupSize p = Returns (Inr n, p)" using n GetPodGroupSize_labelled by simp
next
  fix n p'
  assume "GetPodGroupSize p = Returns (Inr n, p')"
  then show "int4_range n" by (rule GetPodGroupSize_range)
qed

theorem group_size_outcomes_witness:
  "GetPodGroupSize ((ex_pod ''a'')\<lparr>Labels := Some [(PodGroupSizeLabel, show_int 12)]\<rparr>) =
     Returns (Inr 12, (ex_pod ''a'')\<lparr>Labels := Some [(PodGroupSizeLabel, show_int 12)]\<rparr>)"
  using group_size_outcomes [of "(ex_pod ''a'')\<lparr>Labels := Some [(PodGroupSizeLabel, show_int 12)]\<rparr>"]
  by (simp add: map_get_def int4_range_def)

lemma lex_body_length:
  "lex_body s = Some (v, r) \<Longrightarrow> length s = length v + count_list v (CHR 0x27) + 1 + length r"
proof (induction s arbitrary: v r rule: lex_body.induct)
  case (2 c cs)
  then show ?case by (cases cs) (auto split: if_splits)
qed simp

text \<open>The condition that deletes a group puts the group name between quotes as it is. The
  database reads back that name exactly when it holds no quote; with one, the constant ends early
  or changes, and the rest of the name is read as SQL.\<close>

theorem where_clause_reads_back:
  "\<exists>rest. where_clause [(g, ns)] = ''(group_name = '' @ quoted g @ rest \<and>
     (lex_literal (quoted g @ rest) = Some (g, rest) \<longleftrightarrow> lit_ok g)"
proof -
  let ?rest = "'' and namespace='' @ quoted ns @ '')''"
  have "lit_ok g" if "lex_literal (quoted g @ ?rest) = Some (g, ?rest)"
  proof -
    have "lex_body (g @ CHR 0x27 # ?rest) = Some (g, ?rest)"
      using that by (simp add: lex_literal_def quoted_def)
    then have "count_list g (CHR 0x27) = 0" using lex_body_length by fastforce
    then show ?thesis by (simp add: lit_ok_def count_list_0_iff)
  qed
  then have "lex_literal (quoted g @ ?rest) = Some (g, ?rest) \<longleftrightarrow> lit_ok g"
    using lex_quoted [of g ?rest] by auto
  then show ?thesis by (intro exI [of _ ?rest]) simp
qed

end
