(* ===== verification/CycleProps.thy ===== *)
theory CycleProps
  imports QueueProps
begin

text \<open>
  The properties of the schedule cycle, of the queues its jobs go to, and of the pod events: what
  a cycle submits, what a failure between its two stores loses, what \<open>PostSubmit\<close> does with the
  reservations, and that nothing ever leaves the pending table.
\<close>

section \<open>The batch\<close>

text \<open>Every entry of a batch is a job for the queue the job workers serve, and it does not
  ask for a reservation, whatever the reservation depth: the flag is set on the loop's copy after
  the entry was made.\<close>

theorem schedule_never_reserves:
  assumes "easy_Schedule E iter depth w = (Inr batch, w')" and "queue_inv E iter (tables w)"
    and "ip \<in> set batch"
  shows "map_of (ip_args ip) ''reservation'' = Some (JBool False) \<and> ip_queue ip = QueueDefault \<and>
    ip_kind ip = JobArgs_Kind \<and> ip_scheduled_at ip = None"
proof -
  obtain jobs where rj: "ReadyJobs E iter w = ((jobs, None), w')" and batch: "batch = schedule_loop 0 depth jobs []"
    using assms(1) by (auto simp: easy_Schedule_def split: prod.splits option.splits)
  obtain a where a: "a \<in> set jobs" and ip: "ip_args ip = encode_JobArgs a" "ip_queue ip = QueueDefault"
    "ip_kind ip = JobArgs_Kind" "ip_scheduled_at ip = None"
    using assms(3) unfolding batch schedule_loop_eq by auto
  have "scans_ok E" "iter_ok iter" "plain_groups (tables w)"
    using assms(2) by (auto simp: queue_inv_def strategy_env_def)
  with rj have "\<not> ja_Reservation a"
    using a by (cases rule: ReadyJobs_cases) (auto simp: selected_def group_job_def job_of_def)
  then show ?thesis using ip by (simp add: encode_JobArgs_def)
qed

lemma ex_inv: "queue_inv ex_env id ex_two" "queue_inv ex_env id ex_moved"
  by (simp_all add: queue_inv_def ex_env_ok ex_plain_groups tables_ok_def unique_pods_def unique_groups_def
      unique_pending_def ex_two_def ex_moved_def empty_tables_def pod_key_def new_pod_row_def ex_fields
      plain_groups_def plain_keys_def group_key_def new_group_row_def ex_lits)

theorem schedule_never_reserves_witness:
  "map (\<lambda>ip. map_of (ip_args ip) ''reservation'') (schedule_loop 0 1 [ex_job] []) = [Some (JBool False)]"
proof -
  have "length (schedule_loop 0 1 [ex_job] []) = 1" by (simp add: Let_def)
  then obtain ip where ip: "schedule_loop 0 1 [ex_job] [] = [ip]" by (auto simp: length_Suc_conv)
  have "map_of (ip_args ip) ''reservation'' = Some (JBool False)"
    using schedule_never_reserves [OF ex_schedule, of ip] ex_inv(1) by (simp only: ip ex_world_simps list.set insert_iff simp_thms)
  then show ?thesis using ip by (simp only: list.map)
qed

text \<open>A schedule cycle only adds to the job table, keeps the unique indexes, and ends with the
  invariant under which the next cycle runs, whichever of its calls fail.\<close>

theorem schedule_cycle_keeps_jobs:
  assumes "Queue_Schedule q w = (r, w')" and "q_Strategy q = EasyBackfill E C iter collect"
    and "queue_inv E iter (tables w)" and "distinct (map rj_id (river_job (tables w)))"
  shows "queue_inv E iter (tables w') \<and> distinct (map rj_id (river_job (tables w'))) \<and>
    (\<exists>added. river_job (tables w') = river_job (tables w) @ added)"
proof -
  have keep: "queue_inv E iter (tables w')" "jobs_grow (river_job (tables w)) (river_job (tables w'))"
    using easy.Queue_Schedule_keeps [OF assms(1,2,3)] by simp_all
  then obtain ps where "river_job (tables w') = insert_jobs ps (river_job (tables w))"
    by (auto simp: jobs_grow_def)
  then show ?thesis
    using keep(1) insert_jobs_ids [OF assms(4)] insert_jobs_extends [of ps "river_job (tables w)"] by auto
qed

definition ex_batch :: "InsertParams list" where
  "ex_batch = schedule_loop 0 1 [ex_job] []"

lemma ex_batch_nonempty: "ex_batch \<noteq> []" "length ex_batch = 1"
  by (simp_all add: ex_batch_def Let_def)

definition ex_done :: tables where
  "ex_done = ex_moved\<lparr>river_job := insert_jobs ex_batch []\<rparr>"

lemma ex_cycle: "Queue_Schedule ex_queue (ex_world ex_two) = (None, ex_world ex_done)"
proof -
  have "pool_update (InsertMany ex_batch) (ex_world ex_moved) = (Inr (), ex_world ex_done)"
    using quiet_pool_update [of "ex_world ex_moved" "InsertMany ex_batch" ex_done] ex_batch_nonempty
    by (simp add: InsertMany_def ex_done_def ex_moved_def ex_two_def empty_tables_def)
  moreover have "easy_PostSubmit ex_env ex_collect (ex_world ex_done) = (None, ex_world ex_done)"
    by (simp add: easy_PostSubmit_def Let_def ex_collect_def ex_done_def ex_moved_def ex_two_def empty_tables_def)
  ultimately show ?thesis
    using ex_schedule ex_batch_nonempty
    by (simp add: Queue_Schedule_def ex_queue_def EasyBackfill_def ex_batch_def)
qed

theorem schedule_cycle_keeps_jobs_witness:
  "queue_inv ex_env id ex_done \<and> distinct (map rj_id (river_job ex_done)) \<and> length (river_job ex_done) = 1"
proof -
  have "length (river_job ex_done) = 1"
    using insert_jobs_extends [of ex_batch "[]"] ex_batch_nonempty by (auto simp: ex_done_def)
  moreover have "distinct (map rj_id (river_job ex_two))" by (simp add: ex_two_def empty_tables_def)
  ultimately show ?thesis
    using schedule_cycle_keeps_jobs [OF ex_cycle, of ex_env ex_codec id ex_collect] ex_inv(1)
    by (simp add: ex_queue_def)
qed

text \<open>C25: the move out of the provisional table is committed before the jobs are inserted. If the
  insert fails, the cycle returns the error, no job exists for the groups, and they are pending
  and no longer provisional, so no later cycle selects them.\<close>

theorem failed_insert_strands_groups:
  assumes sched: "easy_Schedule E iter (q_ReservationDepth q) w = (Inr batch, w1)" and "batch \<noteq> []"
    and fails: "tape w1 = Some e # faults"
    and q: "q_Strategy q = EasyBackfill E C iter collect" and inv: "queue_inv E iter (tables w)"
  shows "\<exists>w'. Queue_Schedule q w = (Some e, w') \<and> river_job (tables w') = river_job (tables w) \<and>
    (\<forall>ip \<in> set batch. \<exists>a. ip_args ip = encode_JobArgs a \<and>
       job_key a \<in> pending_key ` set (pending_queue (tables w')) \<and>
       job_key a \<notin> group_key ` set (groups_provisional (tables w')))"
proof -
  obtain jobs where rj: "ReadyJobs E iter w = ((jobs, None), w1)" and batch: "batch = schedule_loop 0 (q_ReservationDepth q) jobs []"
    using sched by (auto simp: easy_Schedule_def split: prod.splits option.splits)
  have env: "scans_ok E" "iter_ok iter" "plain_groups (tables w)"
    using inv by (auto simp: queue_inv_def strategy_env_def)
  have "pool_update (InsertMany batch) w1 = (Inl e, put faults (tables w1) w1)"
    using fails by (simp add: pool_update_def net_call_def put_tape)
  then have "Queue_Schedule q w = (Some e, put faults (tables w1) w1)"
    using sched q assms(2) by (simp add: Queue_Schedule_def EasyBackfill_def)
  moreover have "river_job (tables w1) = river_job (tables w) \<and>
      (\<forall>a \<in> set jobs. job_key a \<in> pending_key ` set (pending_queue (tables w1)) \<and>
         job_key a \<notin> group_key ` set (groups_provisional (tables w1)))"
    using ReadyJobs_inv [OF rj inv] ready_moves [OF rj env] by simp
  ultimately show ?thesis
    unfolding batch schedule_loop_eq by (fastforce simp: put_def)
qed

text \<open>The four calls of the witness's cycle before the insert succeed, the insert fails.\<close>

theorem failed_insert_strands_groups_witness:
  "\<exists>w'. Queue_Schedule ex_queue ((ex_world ex_two)\<lparr>tape := [None, None, None, None, Some (GoErr ''lost'')]\<rparr>) =
     (Some (GoErr ''lost''), w') \<and> river_job (tables w') = []"
proof -
  let ?w = "(ex_world ex_two)\<lparr>tape := [None, None, None, None, Some (GoErr ''lost'')]\<rparr>"
  have get: "getReadyGroups ex_env id ?w =
      (Inr [ex_job], (ex_world ex_two)\<lparr>tape := [None, None, Some (GoErr ''lost'')]\<rparr>)"
    by (simp add: getReadyGroups_def SelectGroupsAtSize_def ex_two_def ex_env_def new_group_row_def
        new_pod_row_def ex_fields SelectPods_def job_of_def ex_job_def query_def net_call_def ex_world_def)
  have ins: "insertPending ex_env [ex_job] ((ex_world ex_two)\<lparr>tape := [None, None, Some (GoErr ''lost'')]\<rparr>) =
      (Inr (), (ex_world (ex_moved\<lparr>groups_provisional := groups_provisional ex_two\<rparr>))\<lparr>tape := [None, Some (GoErr ''lost'')]\<rparr>)"
    by (simp add: insertPending_def pool_update_def net_call_def lift_tables_def pending_stmt_def ex_job_def
        exec_stmt_def stmt_ok_def ex_lits ex_ranges insert_pending_def ex_two_def empty_tables_def
        ex_moved_def ex_world_def)
  have del: "deleteGroups ex_env [ex_job] ((ex_world (ex_moved\<lparr>groups_provisional := groups_provisional ex_two\<rparr>))\<lparr>tape := [None, Some (GoErr ''lost'')]\<rparr>) =
      (Inr (), (ex_world ex_moved)\<lparr>tape := [Some (GoErr ''lost'')]\<rparr>)"
    by (simp add: deleteGroups_def pool_exec_def net_call_def lift_tables_def exec_stmt_def stmt_ok_def
        ex_lits job_key_def ex_job_def delete_groups_def ex_moved_def ex_two_def group_key_def
        new_group_row_def ex_fields ex_world_def)
  have "easy_Schedule ex_env id (q_ReservationDepth ex_queue) ?w =
      (Inr ex_batch, (ex_world ex_moved)\<lparr>tape := [Some (GoErr ''lost'')]\<rparr>)"
    using get ins del by (simp add: easy_Schedule_def ReadyJobs_def ex_batch_def ex_queue_def)
  from failed_insert_strands_groups [OF this ex_batch_nonempty(1), of "GoErr ''lost''" "[]" ex_codec ex_collect]
  show ?thesis using ex_inv(1) by (auto simp: ex_queue_def ex_two_def empty_tables_def)
qed

section \<open>Reservations\<close>

text \<open>The queues a new client works: the jobs of a batch and the cleanups the job worker
  submits go to queues it works, the cleanups of the reservations go to a queue it does not.\<close>

theorem cleanup_queue_is_not_worked:
  assumes "NewQueue strategy w = (Inr q, w')"
  shows "(\<forall>jobs depth. \<forall>ip \<in> set (schedule_loop 0 depth jobs []). ip_queue ip \<in> set (q_worker_queues q)) \<and>
    ''cancel_queue'' \<in> set (q_worker_queues q) \<and>
    (\<forall>m. ip_queue (cleanup_params m) \<notin> set (q_worker_queues q)) \<and>
    q_ReservationDepth q = st_GetReservationDepth strategy \<and> 0 \<le> q_ReservationDepth q"
  using assms
  by (auto simp: NewQueue_def Let_def schedule_loop_eq cleanup_params_def QueueDefault_def
      split: prod.splits sum.splits if_splits)

theorem cleanup_queue_is_not_worked_witness:
  "NewQueue (EasyBackfill ex_env ex_codec id ex_collect) (ex_world empty_tables) = (Inr ex_queue, ex_world empty_tables) \<and>
   ip_queue (cleanup_params \<lparr>rm_GroupName = ''g'', rm_FluxID = 3\<rparr>) \<notin> set (q_worker_queues ex_queue)"
proof -
  have new: "NewQueue (EasyBackfill ex_env ex_codec id ex_collect) (ex_world empty_tables) =
      (Inr ex_queue, ex_world empty_tables)"
    by (simp add: NewQueue_def Let_def ex_queue_def EasyBackfill_def easy_GetReservationDepth_def)
  then show ?thesis using cleanup_queue_is_not_worked [OF new] by blast
qed

text \<open>On a healthy network PostSubmit submits one cancel per reservation it can read and then
  empties the reservations; if the rows cannot be read into the model, or there are none, it
  reports success, submits nothing and leaves the reservations.\<close>

theorem post_submit_outcome:
  assumes "tape w = []"
  shows "easy_PostSubmit E collect w =
    (case collect (reservations (tables w)) of
       Inl e \<Rightarrow> (None, w)
     | Inr ms \<Rightarrow>
         if ms = [] then (None, w)
         else (let t = (tables w)\<lparr>river_job := insert_jobs (map cleanup_params ms) (river_job (tables w))\<rparr>
               in case raw_sql E DeleteReservationsQuery [] t of
                    (None, t') \<Rightarrow> (None, put [] t' w)
                  | (Some e, t') \<Rightarrow> (Some e, put [] t w)))"
proof -
  have ins: "pool_update (InsertMany (map cleanup_params ms)) w =
      (Inr (), put [] ((tables w)\<lparr>river_job := insert_jobs (map cleanup_params ms) (river_job (tables w))\<rparr>) w)"
    if "ms \<noteq> []" for ms
    using assms that by (intro quiet_pool_update) (simp_all add: InsertMany_def)
  show ?thesis
    using assms ins
    by (auto simp: easy_PostSubmit_def Let_def pool_exec_raw_def lift_tables_def exec_raw_def put_tables
        split: sum.splits prod.splits option.splits)
qed

theorem post_submit_outcome_witness:
  "easy_PostSubmit ex_env (\<lambda>_. Inl (GoErr ''struct doesn't have corresponding row field''))
     (ex_world (empty_tables\<lparr>reservations := [\<lparr>rv_group_name = ''g'', rv_flux_id = 3\<rparr>]\<rparr>)) =
   (None, ex_world (empty_tables\<lparr>reservations := [\<lparr>rv_group_name = ''g'', rv_flux_id = 3\<rparr>]\<rparr>))"
  using post_submit_outcome [of "ex_world (empty_tables\<lparr>reservations := [\<lparr>rv_group_name = ''g'', rv_flux_id = 3\<rparr>]\<rparr>)"
      ex_env "\<lambda>_. Inl (GoErr ''struct doesn't have corresponding row field'')"]
  by simp

section \<open>The pending table only grows\<close>

lemma Queue_Schedule_pending:
  assumes "Queue_Schedule q w = (r, w')" and "q_Strategy q = EasyBackfill E C iter collect"
    and inv: "queue_inv E iter (tables w)"
  shows "pending_key ` set (pending_queue (tables w)) \<subseteq> pending_key ` set (pending_queue (tables w'))"
  using assms
proof (rule Queue_Schedule_ReadyJobs)
  fix jobs err w1
  assume rj: "ReadyJobs E iter w = ((jobs, err), w1)" and kept: "provisional_kept (tables w1) (tables w')"
  have "scans_ok E" "iter_ok iter" "plain_groups (tables w)"
    using inv by (auto simp: queue_inv_def strategy_env_def)
  from rj this have "pending_key ` set (pending_queue (tables w)) \<subseteq> pending_key ` set (pending_queue (tables w1))"
    by (cases rule: ReadyJobs_cases) (auto simp: mark_pending_def move_groups_def keys_fold_pending)
  then show ?thesis using kept_key_set [OF kept] by simp
qed

text \<open>C26: nothing the queue does removes a group from the pending table: not the end of its job,
  not the deletion of its pods, not a cleanup worker, because the statement before the one that
  would delete it is refused by the driver. A group stays pending for ever.\<close>

theorem pending_never_shrinks:
  assumes "queue_step E C iter collect K F L w w'" and "queue_inv E iter (tables w)" and "arity_checked E"
  shows "pending_key ` set (pending_queue (tables w)) \<subseteq> pending_key ` set (pending_queue (tables w'))"
  using assms(1)
proof (cases rule: queue_step.cases)
  case (pod_created q now p r)
  obtain st err where r: "r = (st, err)" by (cases r)
  show ?thesis
    using pod_created(1) [unfolded r] pod_created(2,3)
    by (cases rule: Queue_Enqueue_ends) (use assms(2) in \<open>auto dest: enqueue_ends_inv\<close>)
next
  case (schedule_cycle q r)
  then show ?thesis using Queue_Schedule_pending assms(2) by blast
next
  case (job_worked now jobid a res)
  then show ?thesis using Work_kept kept_key_set by blast
next
  case (cleanup_worked ca err)
  then show ?thesis using Cleanup_tables [OF assms(3)] by (auto simp: CleanupWorker_Work_def)
next
  case (unschedulable podspec g err)
  then show ?thesis using Cleanup_tables [OF assms(3)] by (auto simp: Queue_Cleanup_def)
next
  case (pod_deleted p)
  then show ?thesis using DeletePodEvent_tables [OF assms(3)] by simp
next
  case (network faults)
  then show ?thesis by simp
qed

theorem pending_never_shrinks_witness:
  "(''lammps'', ''default'') \<in> pending_key ` set (pending_queue (tables
     (DeletePodEvent ex_env ex_codec ex_kube ex_flux ex_live (ex_pod ''a'') (ex_world ex_moved))))"
proof -
  have "(''lammps'', ''default'') \<in> pending_key ` set (pending_queue ex_moved)"
    by (simp add: ex_moved_def pending_key_def)
  moreover have "pending_key ` set (pending_queue ex_moved) \<subseteq> pending_key ` set (pending_queue (tables
      (DeletePodEvent ex_env ex_codec ex_kube ex_flux ex_live (ex_pod ''a'') (ex_world ex_moved))))"
    using pending_never_shrinks [OF queue_step.pod_deleted [where w = "ex_world ex_moved"], of ex_env id] ex_inv(2) ex_env_ok(2)
    by simp
  ultimately show ?thesis by blast
qed

section \<open>Pod deletions\<close>

lemma sent_after_put [simp]: "sent (w\<lparr>tape := ts\<rparr>) = sent w"
  by simp

lemma reads_sent:
  "call_ok w = (r, w') \<Longrightarrow> sent w' = sent w"
  "query f w = (s, w') \<Longrightarrow> sent w' = sent w"
  by (auto simp: call_ok_def query_def net_call_def split: list.splits option.splits)

lemma cleanup_tables_sent: "cleanup_tables E g ns w = (r, w') \<Longrightarrow> sent w' = sent w"
  by (auto simp: cleanup_tables_def split: prod.splits sum.splits
      elim!: call_ok_cases pool_exec_raw_cases pool_update_cases)

lemma GetGroupPods_sent: "GetGroupPods E L ns g w = (r, w') \<Longrightarrow> sent w' = sent w"
  by (auto simp: GetGroupPods_def split: prod.splits sum.splits dest!: reads_sent)

lemma GetFluxID_sent: "GetFluxID ns g w = (r, w') \<Longrightarrow> sent w' = sent w"
  by (auto simp: GetFluxID_def split: prod.splits sum.splits dest!: reads_sent)

text \<open>Without Kubernetes objects to delete, a cleanup is one cancel or none; without a flux id it is
  none.\<close>

lemma Cleanup_without_id:
  assumes "i < 0"
  shows "sent (snd (Cleanup E C K F spec i False g w)) = sent w"
proof (cases "unmarshal C spec")
  case (Inr p)
  obtain r w' where c: "cleanup_tables E g (Namespace p) w = (r, w')" by (metis surj_pair)
  show ?thesis using assms Inr c cleanup_tables_sent [OF c] by (simp add: Cleanup_def)
qed (use assms in \<open>simp add: Cleanup_def\<close>)

lemma Cleanup_sent:
  assumes "tape w = []"
  shows "sent (snd (Cleanup E C K F spec i False g w)) =
    sent w @ (if 0 \<le> i then [SentCancel \<lparr>cr_FluxID = word_of_int i, cr_NoExistOK = True\<rparr>] else [])"
proof (cases "0 \<le> i")
  case True
  then have "- 1 < i" by simp
  then show ?thesis using assms
    by (simp add: Cleanup_def deleteFluxion_def cancel_call_def split: option.splits)
qed (use Cleanup_without_id [of i E C K F spec g w] in simp)

text \<open>When a stored pod counts as over: the API server has it in a terminal phase, or the server
  cannot be asked; of a pod the server no longer has, the phase of the object the client returns
  decides.\<close>

definition pod_over :: "live_pods \<Rightarrow> pod_row \<Rightarrow> bool" where
  "pod_over L r \<longleftrightarrow>
     (case get_pod L (pr_namespace r) (pr_name r) of
        (p, None) \<Rightarrow> IsPodPhaseTerminal L (Phase p)
      | (p, Some e) \<Rightarrow> \<not> pod_not_found L e \<or> IsPodPhaseTerminal L (Phase p))"

lemma all_finished_iff: "all_finished L ps \<longleftrightarrow> (\<forall>p \<in> set ps. IsPodPhaseTerminal L (Phase p))"
  by (induction ps) auto

lemma finished_live_loop:
  "(\<forall>p \<in> set (live_loop L ns items acc). IsPodPhaseTerminal L (Phase p)) \<longleftrightarrow>
     (\<forall>p \<in> set acc. IsPodPhaseTerminal L (Phase p)) \<and> (\<forall>r \<in> set items. pod_over L (r\<lparr>pr_namespace := ns\<rparr>))"
proof (induction items arbitrary: acc)
  case (Cons r items)
  then show ?case
    by (cases "get_pod L ns (pr_name r)") (auto simp: Let_def pod_over_def split: option.splits)
qed simp

definition group_over :: "live_pods \<Rightarrow> string \<times> string \<Rightarrow> tables \<Rightarrow> bool" where
  "group_over L k t \<longleftrightarrow>
     (\<forall>r \<in> set (pods_provisional t). (pr_group_name r, pr_namespace r) = k \<longrightarrow> pod_over L r)"

lemma finished_iff_over:
  assumes "scans_ok E"
  shows "all_finished L (live_loop L ns (scan_pods E (filter (\<lambda>r. pr_group_name r = g \<and> pr_namespace r = ns)
      (pods_provisional t))) []) \<longleftrightarrow> group_over L (g, ns) t"
proof -
  have "pod_over L (r\<lparr>pr_namespace := ns\<rparr>) = pod_over L r" if "pr_namespace r = ns" for r
    using that by (simp add: pod_over_def)
  then show ?thesis
    using set_scan_pods [OF assms] by (auto simp: all_finished_iff finished_live_loop group_over_def)
qed

text \<open>The id that the pending table has for a group.\<close>

definition group_flux_id :: "tables \<Rightarrow> string \<times> string \<Rightarrow> int option" where
  "group_flux_id t k = (case row_of pending_key (pending_queue t) k of None \<Rightarrow> None | Some q \<Rightarrow> pq_flux_id q)"

lemma select_flux_id_eq:
  "(case select_flux_id g ns t of Inl e \<Rightarrow> - 1 | Inr i \<Rightarrow> i) = (case group_flux_id t (g, ns) of None \<Rightarrow> - 1 | Some i \<Rightarrow> i)"
  by (simp add: select_flux_id_def group_flux_id_def split: option.splits)

text \<open>What one deletion event sends when no call is lost on its way.\<close>

lemma DeletePodEvent_sent:
  assumes "scans_ok E" and "tape w = []"
  shows "sent (DeletePodEvent E C K F L p w) = sent w @
    (if group_over L (GetPodGroupName p, Namespace p) (tables w)
     then (case group_flux_id (tables w) (GetPodGroupName p, Namespace p) of
             None \<Rightarrow> []
           | Some i \<Rightarrow> if 0 \<le> i then [SentCancel \<lparr>cr_FluxID = word_of_int i, cr_NoExistOK = True\<rparr>] else [])
     else [])"
proof -
  let ?g = "GetPodGroupName p" and ?ns = "Namespace p"
  let ?pods = "scan_pods E (filter (\<lambda>r. pr_group_name r = ?g \<and> pr_namespace r = ?ns) (pods_provisional (tables w)))"
  have pods: "GetGroupPods E L ?ns ?g w = ((live_loop L ?ns ?pods [], None), w)"
    using assms(2) by (simp add: GetGroupPods_def SelectPods_def)
  have "fst (fst (GetFluxID ?ns ?g w)) = (case select_flux_id ?g ?ns (tables w) of Inl e \<Rightarrow> - 1 | Inr i \<Rightarrow> i)"
    "snd (GetFluxID ?ns ?g w) = w"
    using assms(2) by (simp_all add: GetFluxID_def split: sum.splits)
  then show ?thesis
    unfolding select_flux_id_eq
    using Cleanup_sent [OF assms(2)] finished_iff_over [OF assms(1), of L ?ns ?g "tables w"]
    by (simp add: DeletePodEvent_def Let_def pods case_prod_unfold split: option.splits)
qed

text \<open>C24: when a pod is deleted and no call is lost, Fluxion gets exactly one cancel, for the
  flux id that the pending table has for the pod's group, with the flag that a missing job is no
  error, if every stored pod of the group is over, and nothing is sent otherwise. A pod is over if the
  API server has it in a terminal phase; one that cannot be retrieved counts as over, unless the
  server says that it does not exist: then the phase of the object that the client returns with the
  error decides.\<close>

theorem delete_event_cancels:
  assumes "scans_ok E" and "tape w = []"
  shows "sent (DeletePodEvent E C K F L p w) = sent w @
    (if \<forall>r \<in> set (pods_provisional (tables w)).
          pr_group_name r = GetPodGroupName p \<and> pr_namespace r = Namespace p \<longrightarrow> pod_over L r
     then (case row_of pending_key (pending_queue (tables w)) (GetPodGroupName p, Namespace p) of
             None \<Rightarrow> []
           | Some q \<Rightarrow>
               (case pq_flux_id q of
                  None \<Rightarrow> []
                | Some i \<Rightarrow> if 0 \<le> i then [SentCancel \<lparr>cr_FluxID = word_of_int i, cr_NoExistOK = True\<rparr>] else []))
     else [])"
  unfolding DeletePodEvent_sent [OF assms]
  by (simp add: group_over_def group_flux_id_def split: option.split)

definition ex_running :: tables where
  "ex_running = ex_moved\<lparr>pending_queue := [\<lparr>pq_group_name = ''lammps'', pq_namespace = ''default'',
     pq_group_size = 2, pq_flux_id = Some 7\<rparr>]\<rparr>"

lemma ex_running_row:
  "row_of pending_key (pending_queue ex_running) (''lammps'', ''default'') =
     Some \<lparr>pq_group_name = ''lammps'', pq_namespace = ''default'', pq_group_size = 2, pq_flux_id = Some 7\<rparr>"
  by (simp add: row_of_def ex_running_def pending_key_def)

lemma ex_running_pods: "pods_provisional ex_running = pods_provisional ex_two"
  by (simp add: ex_running_def ex_moved_def)

definition ex_cancel :: request where
  "ex_cancel = SentCancel \<lparr>cr_FluxID = 7, cr_NoExistOK = True\<rparr>"

definition ex_finished :: live_pods where
  "ex_finished = ex_live\<lparr>get_pod := \<lambda>ns name. ((ex_pod name)\<lparr>Phase := ''Succeeded''\<rparr>, None)\<rparr>"

lemma ex_over: "pod_over ex_finished r" "\<not> pod_over ex_live r"
  by (simp add: pod_over_def ex_finished_def ex_live_def)
    (simp add: pod_over_def ex_live_def ex_pod_def)

theorem delete_event_cancels_witness:
  "sent (DeletePodEvent ex_env ex_codec ex_kube ex_flux ex_finished (ex_pod ''a'') (ex_world ex_running)) = [ex_cancel] \<and>
   sent (DeletePodEvent ex_env ex_codec ex_kube ex_flux ex_live (ex_pod ''a'') (ex_world ex_running)) = []"
proof -
  have "\<exists>r \<in> set (pods_provisional ex_two). pr_group_name r = ''lammps'' \<and> pr_namespace r = ''default''"
    by (simp add: ex_two_def new_pod_row_def ex_fields)
  then show ?thesis
    using delete_event_cancels [OF ex_scans, of "ex_world ex_running" ex_codec ex_kube ex_flux _ "ex_pod ''a''"]
    by (simp add: ex_over ex_running_pods ex_fields ex_sizes ex_running_row ex_cancel_def)
qed

text \<open>When the group's pods cannot be listed, the handler goes on with the empty list, which
  counts as all finished: the job's allocation is cancelled although its pods may be running.\<close>

theorem unlisted_pods_are_cancelled:
  assumes "tape w = [Some e]"
    and "group_flux_id (tables w) (GetPodGroupName p, Namespace p) = Some i" and "0 \<le> i"
  shows "sent (DeletePodEvent E C K F L p w) =
    sent w @ [SentCancel \<lparr>cr_FluxID = word_of_int i, cr_NoExistOK = True\<rparr>]"
proof -
  let ?w = "w\<lparr>tape := []\<rparr>"
  have "GetGroupPods E L (Namespace p) (GetPodGroupName p) w = (([], Some e), ?w)"
    using assms(1) by (simp add: GetGroupPods_def call_ok_def net_call_def)
  moreover have "GetFluxID (Namespace p) (GetPodGroupName p) ?w = ((i, None), ?w)"
    using assms(2) by (auto simp: GetFluxID_def select_flux_id_def group_flux_id_def split: option.splits)
  ultimately show ?thesis
    using Cleanup_sent [of ?w] assms(3) by (simp add: DeletePodEvent_def Let_def)
qed

theorem unlisted_pods_are_cancelled_witness:
  "sent (DeletePodEvent ex_env ex_codec ex_kube ex_flux ex_live (ex_pod ''a'')
     ((ex_world ex_running)\<lparr>tape := [Some (GoErr ''too many connections'')]\<rparr>)) = [ex_cancel] \<and>
   \<not> group_over ex_live (''lammps'', ''default'') ex_running"
proof -
  have "\<not> group_over ex_live (''lammps'', ''default'') ex_running"
    by (simp add: group_over_def ex_running_pods ex_over ex_two_def new_pod_row_def ex_fields)
  then show ?thesis
    using unlisted_pods_are_cancelled [of "(ex_world ex_running)\<lparr>tape := [Some (GoErr ''too many connections'')]\<rparr>"
        "GoErr ''too many connections''" "ex_pod ''a''" 7]
    by (simp add: ex_fields ex_sizes group_flux_id_def ex_running_row ex_cancel_def)
qed

text \<open>C35: a pod of the group that the API server no longer has is kept in the list as the empty
  object, whose phase is not terminal: while a stored pod of a group is gone, a deletion event that
  manages to list the group's pods sends nothing, whatever else fails, and the group's allocation is
  not cancelled.\<close>

theorem missing_pod_blocks_cancel:
  assumes "scans_ok E" and "snd (fst (GetGroupPods E L (Namespace p) (GetPodGroupName p) w)) = None"
    and "r \<in> set (pods_provisional (tables w))" and "pr_group_name r = GetPodGroupName p" and "pr_namespace r = Namespace p"
    and "get_pod L (Namespace p) (pr_name r) = (q, Some e)" and "pod_not_found L e"
    and "\<not> IsPodPhaseTerminal L (Phase q)"
  shows "sent (DeletePodEvent E C K F L p w) = sent w"
proof -
  let ?g = "GetPodGroupName p" and ?ns = "Namespace p"
  let ?pods = "live_loop L ?ns (scan_pods E (filter (\<lambda>r. pr_group_name r = ?g \<and> pr_namespace r = ?ns)
      (pods_provisional (tables w)))) []"
  obtain w1 where w1: "GetGroupPods E L ?ns ?g w = ((?pods, None), w1)" "sent w1 = sent w"
  proof -
    obtain x w1 where c: "GetGroupPods E L ?ns ?g w = (x, w1)" by (metis surj_pair)
    then have "x = (?pods, None)"
      using assms(2) by (auto simp: GetGroupPods_def SelectPods_def split: prod.splits sum.splits
          elim!: call_ok_cases query_cases)
    then show ?thesis using that c GetGroupPods_sent [OF c] by simp
  qed
  have "\<not> group_over L (?g, ?ns) (tables w)"
    using assms(3-8) by (auto simp: group_over_def pod_over_def)
  then have "\<not> all_finished L ?pods" using finished_iff_over [OF assms(1)] by blast
  moreover obtain i err w2 where w2: "GetFluxID ?ns ?g w1 = ((i, err), w2)" by (metis surj_pair)
  ultimately show ?thesis
    using w1 GetFluxID_sent [OF w2] Cleanup_without_id [of "- 1" E C K F _ ?g w2]
    by (simp add: DeletePodEvent_def Let_def)
qed

definition ex_gone :: live_pods where
  "ex_gone = ex_finished\<lparr>get_pod := \<lambda>ns name. if name = ''a'' then ((ex_pod [])\<lparr>Phase := []\<rparr>, Some (GoErr ''not found''))
     else ((ex_pod name)\<lparr>Phase := ''Succeeded''\<rparr>, None), pod_not_found := \<lambda>_. True\<rparr>"

lemma ex_two_rows: "new_pod_row ''A'' (ex_pod ''a'') ex_group \<in> set (pods_provisional ex_two)"
  by (simp add: ex_two_def)

theorem missing_pod_blocks_cancel_witness:
  "sent (DeletePodEvent ex_env ex_codec ex_kube ex_flux ex_gone (ex_pod ''a'') (ex_world ex_running)) = []"
proof -
  let ?r = "new_pod_row ''A'' (ex_pod ''a'') ex_group" and ?p = "ex_pod ''a''"
  have list: "snd (fst (GetGroupPods ex_env ex_gone (Namespace ?p) (GetPodGroupName ?p) (ex_world ex_running))) = None"
    by (simp add: GetGroupPods_def SelectPods_def)
  have row: "?r \<in> set (pods_provisional (tables (ex_world ex_running)))"
    by (simp only: ex_world_simps ex_running_pods ex_two_rows)
  have gone: "pr_group_name ?r = GetPodGroupName ?p" "pr_namespace ?r = Namespace ?p"
    "get_pod ex_gone (Namespace ?p) (pr_name ?r) = ((ex_pod [])\<lparr>Phase := []\<rparr>, Some (GoErr ''not found''))"
    "pod_not_found ex_gone (GoErr ''not found'')" "\<not> IsPodPhaseTerminal ex_gone (Phase ((ex_pod [])\<lparr>Phase := []\<rparr>))"
    by (simp_all add: new_pod_row_def ex_fields ex_sizes ex_group_def ex_gone_def ex_finished_def ex_live_def)
  show ?thesis using missing_pod_blocks_cancel [OF ex_scans list row gone] by simp
qed

end
