(* ===== verification/WorkerProps.thy ===== *)
theory WorkerProps
  imports CycleProps
begin

text \<open>
  The properties of the workers: what a successful allocation writes and what the scheduler then
  reads, every outcome of the job worker, the cleanups it schedules, and the requests a cleanup
  sends.
\<close>

section \<open>The job worker\<close>

definition request_of :: "codec \<Rightarrow> JobArgs \<Rightarrow> pod \<Rightarrow> MatchRequest" where
  "request_of C a p = \<lparr>mr_Podspec = PreparePodJobSpec p (ja_GroupName a), mr_Count = ja_GroupSize a,
     mr_Reserve = ja_Reservation a, mr_JobName = ja_GroupName a\<rparr>"

lemma Work_quiet:
  assumes "tape w = []" and "unmarshal C (ja_Podspec a) = Inr p"
    and "match_rpc F (request_of C a p) = Inr resp"
  shows "Work now C F jobid a w =
    (if \<not> mp_Reserved resp \<and> \<not> mp_Allocated resp
     then (Returns (Some (RiverCancel (cannot_allocate (ja_GroupName a)))), w)
     else case (if mp_Reserved resp then pool_update (AddReservation (ja_GroupName a) (mp_FluxID resp)) w
                else (Inr (), w)) of
        (Inl e, w4) \<Rightarrow> (Returns (Some e), w4)
      | (Inr _, w4) \<Rightarrow>
          if \<not> mp_Allocated resp
          then (Returns (Some (GoErr (not_allocated (ja_GroupName a) (mp_ReservedAt resp)))), w4)
          else record_allocation now p jobid a resp w4)"
  using assms by (simp add: Work_def Let_def match_call_def request_of_def)

lemma SubmitCleanup_quiet:
  assumes "tape w = []"
  shows "\<exists>extra. SubmitCleanup now (Some secs) spec i k tags w =
    (Returns None, put [] ((tables w)\<lparr>river_job := river_job (tables w) @ extra\<rparr>) w)"
proof -
  let ?ps = "\<lambda>at. [\<lparr>ip_kind = CleanupArgs_Kind, ip_args = encode_CleanupArgs \<lparr>ca_GroupName = [], ca_FluxID = i,
      ca_Podspec = spec, ca_Kubernetes = k\<rparr>, ip_max_attempts = MaxAttempts, ip_tags = tags,
      ip_queue = ''cancel_queue'', ip_scheduled_at = Some at\<rparr>]"
  have "pool_update (InsertMany (?ps (scheduled_at now secs))) w =
      (Inr (), put [] ((tables w)\<lparr>river_job := insert_jobs (?ps (scheduled_at now secs)) (river_job (tables w))\<rparr>) w)"
    using assms by (intro quiet_pool_update) (simp_all add: InsertMany_def)
  moreover obtain extra where "insert_jobs (?ps (scheduled_at now secs)) (river_job (tables w)) = river_job (tables w) @ extra"
    using insert_jobs_extends by blast
  ultimately show ?thesis using assms by (intro exI [of _ extra]) (simp add: SubmitCleanup_def Let_def)
qed

text \<open>A whole run of the worker for an allocation, deadline included.\<close>

definition allocated_nodes :: "MatchResponse \<Rightarrow> string" where
  "allocated_nodes resp =
     strings_Join (concat (map (\<lambda>n. replicate (nat (na_Tasks n)) (na_NodeID n)) (mp_Nodelist resp))) '',''"

lemma Work_allocates:
  assumes "tape w = []" and "unmarshal C (ja_Podspec a) = Inr p"
    and "match_rpc F (request_of C a p) = Inr resp"
    and "mp_Allocated resp" and "\<not> mp_Reserved resp"
    and deadline: "0 < ja_Duration a \<longrightarrow> ActiveDeadlineSeconds p \<noteq> None"
    and range: "int4_range (uint (mp_FluxID resp))"
  shows "\<exists>extra. Work now C F jobid a w = (Returns None, put [] ((tables w)
    \<lparr>pending_queue := set_flux_id (ja_GroupName a, ja_Namespace a) (uint (mp_FluxID resp)) (pending_queue (tables w)),
     river_job := UpdateNodes (allocated_nodes resp) jobid (river_job (tables w)) @ extra\<rparr>) w)"
proof -
  let ?t1 = "(tables w)\<lparr>river_job := UpdateNodes (allocated_nodes resp) jobid (river_job (tables w))\<rparr>"
  let ?t2 = "?t1\<lparr>pending_queue := set_flux_id (ja_GroupName a, ja_Namespace a) (uint (mp_FluxID resp)) (pending_queue ?t1)\<rparr>"
  have 1: "pool_update (\<lambda>t. Inr (t\<lparr>river_job := UpdateNodes (allocated_nodes resp) jobid (river_job t)\<rparr>)) w = (Inr (), put [] ?t1 w)"
    using assms(1) by (simp add: quiet_pool_update)
  have 2: "pool_update (UpdatingPendingWithFluxID (mp_FluxID resp) (ja_GroupName a) (ja_Namespace a)) (put [] ?t1 w) =
      (Inr (), put [] ?t2 w)"
    using quiet_pool_update [of "put [] ?t1 w" "UpdatingPendingWithFluxID (mp_FluxID resp) (ja_GroupName a) (ja_Namespace a)" ?t2]
      range by (simp add: UpdatingPendingWithFluxID_def)
  have nodes: "strings_Join (expand_nodes (mp_Nodelist resp) []) '','' = allocated_nodes resp"
    by (simp add: allocated_nodes_def expand_nodes_eq)
  have run: "Work now C F jobid a w = (if 0 < ja_Duration a
      then SubmitCleanup now (ActiveDeadlineSeconds p) (ja_Podspec a) (sint (mp_FluxID resp)) True [] (put [] ?t2 w)
      else (Returns None, put [] ?t2 w))"
    using Work_quiet [OF assms(1-3)] assms(4,5) 1 2 by (simp add: record_allocation_def Let_def nodes)
  show ?thesis
  proof (cases "0 < ja_Duration a")
    case True
    then obtain s where "ActiveDeadlineSeconds p = Some s" using deadline by auto
    then show ?thesis
      using run True SubmitCleanup_quiet [of "put [] ?t2 w" now s "ja_Podspec a" "sint (mp_FluxID resp)" True "[]"] by auto
  next
    case False
    then show ?thesis using run by (intro exI [of _ "[]"]) simp
  qed
qed

lemma allocation_recorded:
  assumes "tape w = []" and "unmarshal C (ja_Podspec a) = Inr p"
    and "match_rpc F (request_of C a p) = Inr resp"
    and "mp_Allocated resp" and "\<not> mp_Reserved resp"
    and deadline: "0 < ja_Duration a \<longrightarrow> ActiveDeadlineSeconds p \<noteq> None"
    and range: "int4_range (uint (mp_FluxID resp))"
    and row: "row \<in> set (river_job (tables w))" "rj_id row = jobid" "rj_args row = encode_JobArgs a"
  shows "\<exists>w'. Work now C F jobid a w = (Returns None, w') \<and> tape w' = [] \<and>
    pods_provisional (tables w') = pods_provisional (tables w) \<and>
    (\<exists>row' \<in> set (river_job (tables w')). rj_id row' = jobid \<and> rj_kind row' = rj_kind row \<and>
       decode_JobResult (rj_args row') = Inr \<lparr>jr_JobID = 0, jr_Nodes = allocated_nodes resp, jr_PodID = [],
         jr_PodSpec = ja_Podspec a, jr_Names = ja_Names a, jr_Namespace = ja_Namespace a, jr_GroupName = ja_GroupName a\<rparr>) \<and>
    row_of pending_key (pending_queue (tables w')) =
      (row_of pending_key (pending_queue (tables w)))((ja_GroupName a, ja_Namespace a) :=
         map_option (\<lambda>r. r\<lparr>pq_flux_id := Some (uint (mp_FluxID resp))\<rparr>)
           (row_of pending_key (pending_queue (tables w)) (ja_GroupName a, ja_Namespace a)))"
proof -
  let ?row = "row\<lparr>rj_args := AList.update ''nodes'' (JStr (allocated_nodes resp)) (encode_JobArgs a)\<rparr>"
  obtain extra where run: "Work now C F jobid a w = (Returns None, put [] ((tables w)
    \<lparr>pending_queue := set_flux_id (ja_GroupName a, ja_Namespace a) (uint (mp_FluxID resp)) (pending_queue (tables w)),
     river_job := UpdateNodes (allocated_nodes resp) jobid (river_job (tables w)) @ extra\<rparr>) w)"
    (is "_ = (_, ?w')")
    using Work_allocates [OF assms(1-7)] by blast
  have "?row \<in> set (river_job (tables ?w'))" using row by (force simp: UpdateNodes_def)
  moreover have "row_of pending_key (pending_queue (tables ?w')) =
      (row_of pending_key (pending_queue (tables w)))((ja_GroupName a, ja_Namespace a) :=
         map_option (\<lambda>r. r\<lparr>pq_flux_id := Some (uint (mp_FluxID resp))\<rparr>)
           (row_of pending_key (pending_queue (tables w)) (ja_GroupName a, ja_Namespace a)))"
    using pendt.lookup_upd by simp
  ultimately show ?thesis using run row(2) decode_after_update [of "allocated_nodes resp" a]
    by (intro exI [of _ ?w']) (auto intro!: bexI [of _ ?row])
qed

text \<open>C11: on a healthy network an allocation without a reservation leaves the job row with the
  nodes, one entry per task in the order of Fluxion's node list, and the pending row with the flux
  id; what the scheduler decodes from the row is that node list and the pod names of the job.\<close>

theorem allocation_reaches_the_scheduler:
  assumes "tape w = []" and "unmarshal C (ja_Podspec a) = Inr p"
    and "match_rpc F (request_of C a p) = Inr resp"
    and "mp_Allocated resp" and "\<not> mp_Reserved resp"
    and "0 < ja_Duration a \<longrightarrow> ActiveDeadlineSeconds p \<noteq> None"
    and range: "int4_range (uint (mp_FluxID resp))"
    and row: "row \<in> set (river_job (tables w))" "rj_id row = jobid" "rj_args row = encode_JobArgs a"
  shows "\<exists>w'. Work now C F jobid a w = (Returns None, w') \<and>
    (\<exists>row' \<in> set (river_job (tables w')). rj_id row' = jobid \<and>
       (\<exists>r. decode_JobResult (rj_args row') = Inr r \<and>
          jr_Nodes r = strings_Join (concat (map (\<lambda>n. replicate (nat (na_Tasks n)) (na_NodeID n)) (mp_Nodelist resp))) '','' \<and>
          jr_Names r = ja_Names a \<and> jr_PodSpec r = ja_Podspec a \<and> jr_GroupName r = ja_GroupName a)) \<and>
    row_of pending_key (pending_queue (tables w')) =
      (row_of pending_key (pending_queue (tables w)))((ja_GroupName a, ja_Namespace a) :=
         map_option (\<lambda>r. r\<lparr>pq_flux_id := Some (uint (mp_FluxID resp))\<rparr>)
           (row_of pending_key (pending_queue (tables w)) (ja_GroupName a, ja_Namespace a)))"
  using allocation_recorded [OF assms, of now] unfolding allocated_nodes_def by fastforce

definition ex_unlimited :: JobArgs where
  "ex_unlimited = ex_job\<lparr>ja_Duration := 0\<rparr>"

definition ex_queued :: tables where
  "ex_queued = ex_moved\<lparr>river_job := [\<lparr>rj_id = 1, rj_kind = JobArgs_Kind, rj_args = encode_JobArgs ex_unlimited,
     rj_queue = QueueDefault, rj_tags = [easy_Name], rj_max_attempts = MaxAttempts, rj_scheduled_at = None\<rparr>]\<rparr>"

lemma ex_unmarshal: "unmarshal ex_codec ''B'' = Inr (ex_pod ''b'')"
  by (simp add: ex_codec_def)

theorem allocation_reaches_the_scheduler_witness:
  "\<exists>w'. Work 0 ex_codec ex_flux 1 ex_unlimited (ex_world ex_queued) = (Returns None, w') \<and>
    (\<exists>row \<in> set (river_job (tables w')). rj_id row = 1 \<and>
      (\<exists>r. decode_JobResult (rj_args row) = Inr r \<and> jr_Nodes r = ''n1,n2'' \<and> jr_Names r = ''a,b''))"
proof -
  have f: "uint (7 :: 64 word) = 7" by simp
  show ?thesis
    using allocation_reaches_the_scheduler [of "ex_world ex_queued" ex_codec ex_unlimited "ex_pod ''b''" ex_flux ex_response
        "hd (river_job ex_queued)" 1 0]
    by (fastforce simp: ex_unlimited_def ex_job_def ex_unmarshal ex_flux_def ex_response_def int4_range_def f ex_queued_def)
qed

text \<open>The job worker reports success only for an allocation: whatever calls fail, a nil error
  means that the podspec was read, Fluxion answered the request made from it, and the answer was
  an allocation.\<close>

theorem success_means_allocated:
  assumes "Work now C F jobid a w = (Returns None, w')"
  shows "\<exists>p resp. unmarshal C (ja_Podspec a) = Inr p \<and> match_rpc F (request_of C a p) = Inr resp \<and>
    mp_Allocated resp"
proof -
  have m: "match_rpc F req = Inr resp" if "match_call F req v = (Inr resp, v')" for req resp v v'
    using that by (auto simp: match_call_def elim!: net_call_cases)
  show ?thesis
    using assms unfolding Work_def Let_def
    by (auto simp: request_of_def split: prod.splits sum.splits if_splits dest!: m)
qed

lemma ex_work:
  "Work 0 ex_codec ex_flux 1 ex_unlimited (ex_world ex_queued) =
     record_allocation 0 (ex_pod ''b'') 1 ex_unlimited ex_response (ex_world ex_queued)"
proof -
  have "ja_Podspec ex_unlimited = ''B''" "match_rpc ex_flux r = Inr ex_response"
    "mp_Allocated ex_response" "\<not> mp_Reserved ex_response" for r
    by (simp_all add: ex_unlimited_def ex_job_def ex_flux_def ex_response_def)
  then show ?thesis
    using Work_quiet [of "ex_world ex_queued" ex_codec ex_unlimited "ex_pod ''b''" ex_flux ex_response 0 1]
    by (simp add: ex_unmarshal)
qed

lemma ex_record:
  "\<exists>w'. record_allocation 0 (ex_pod ''b'') 1 ex_unlimited ex_response (ex_world ex_queued) = (Returns None, w')"
  by (simp add: record_allocation_def Let_def pool_update_def lift_tables_def UpdatingPendingWithFluxID_def
      ex_response_def int4_range_def ex_unlimited_def ex_job_def ex_world_def)

theorem success_means_allocated_witness:
  "\<exists>p resp. match_rpc ex_flux (request_of ex_codec ex_unlimited p) = Inr resp \<and> mp_Allocated resp"
proof -
  obtain w' where "Work 0 ex_codec ex_flux 1 ex_unlimited (ex_world ex_queued) = (Returns None, w')"
    using ex_work ex_record by metis
  from success_means_allocated [OF this] show ?thesis by blast
qed

text \<open>C34: an answer that is no allocation: without a reservation the job is cancelled for good
  and nothing changes; with one the worker stores the reservation and returns an error, so the job is
  retried, and every retry stores one more row.\<close>

theorem no_allocation_outcomes:
  assumes "tape w = []" and "unmarshal C (ja_Podspec a) = Inr p"
    and "match_rpc F (request_of C a p) = Inr resp" and "\<not> mp_Allocated resp"
    and "int4_range (uint (mp_FluxID resp))"
  shows "Work now C F jobid a w =
    (if mp_Reserved resp
     then (Returns (Some (GoErr (not_allocated (ja_GroupName a) (mp_ReservedAt resp)))),
           put [] ((tables w)\<lparr>reservations := reservations (tables w) @
             [\<lparr>rv_group_name = ja_GroupName a, rv_flux_id = uint (mp_FluxID resp)\<rparr>]\<rparr>) w)
     else (Returns (Some (RiverCancel (cannot_allocate (ja_GroupName a)))), w))"
proof -
  let ?t = "(tables w)\<lparr>reservations := reservations (tables w) @
      [\<lparr>rv_group_name = ja_GroupName a, rv_flux_id = uint (mp_FluxID resp)\<rparr>]\<rparr>"
  have "pool_update (AddReservation (ja_GroupName a) (mp_FluxID resp)) w = (Inr (), put [] ?t w)"
    using assms(1,5) by (intro quiet_pool_update) (simp_all add: AddReservation_def)
  then show ?thesis using Work_quiet [OF assms(1-3)] assms(4) by simp
qed

theorem no_allocation_outcomes_witness:
  "reservations (tables (snd (Work 0 ex_codec (ex_flux\<lparr>match_rpc := \<lambda>_. Inr (ex_response\<lparr>mp_Allocated := False, mp_Reserved := True\<rparr>)\<rparr>)
     1 ex_unlimited (ex_world ex_queued)))) = [\<lparr>rv_group_name = ''lammps'', rv_flux_id = 7\<rparr>]"
proof -
  have f: "uint (7 :: 64 word) = 7" by simp
  have "reservations ex_queued = []"
    by (simp add: ex_queued_def ex_moved_def ex_two_def empty_tables_def)
  then show ?thesis
    using no_allocation_outcomes [of "ex_world ex_queued" ex_codec ex_unlimited "ex_pod ''b''"
        "ex_flux\<lparr>match_rpc := \<lambda>_. Inr (ex_response\<lparr>mp_Allocated := False, mp_Reserved := True\<rparr>)\<rparr>"
        "ex_response\<lparr>mp_Allocated := False, mp_Reserved := True\<rparr>" 0 1]
    by (simp add: ex_unlimited_def ex_job_def ex_unmarshal)
      (simp add: ex_response_def int4_range_def f)
qed

section \<open>Scheduled cleanups\<close>

text \<open>C29: a job with a duration ends: when the allocation, whose id the column can hold, is
  recorded on a healthy network, the nodes are written into the job's arguments and the flux id into
  the group's pending row, and a cleanup job is inserted in the queue the cleanup workers serve, at
  the deadline of the pod from now (the deadline is a number of seconds below 2 to the 31st), with the
  flux id and the podspec; a job with a duration whose pod has no deadline makes the worker panic
  after exactly the nodes and the flux id were stored.\<close>

theorem deadline_cleanup:
  assumes "tape w = []" and "0 < ja_Duration a" and range: "int4_range (uint (mp_FluxID resp))"
    and "\<forall>s. ActiveDeadlineSeconds p = Some s \<longrightarrow> 0 \<le> s \<and> s < 2 ^ 31"
  shows "let nodes = strings_Join (concat (map (\<lambda>n. replicate (nat (na_Tasks n)) (na_NodeID n)) (mp_Nodelist resp))) '','';
      t = (tables w)
        \<lparr>river_job := map (\<lambda>r. if rj_id r = jobid then r\<lparr>rj_args := AList.update ''nodes'' (JStr nodes) (rj_args r)\<rparr> else r)
           (river_job (tables w)),
         pending_queue := map (\<lambda>q. if pq_group_name q = ja_GroupName a \<and> pq_namespace q = ja_Namespace a
             then q\<lparr>pq_flux_id := Some (uint (mp_FluxID resp))\<rparr> else q) (pending_queue (tables w))\<rparr>
    in case ActiveDeadlineSeconds p of
       None \<Rightarrow> record_allocation now p jobid a resp w = (Panics ''nil pointer dereference'', w\<lparr>tables := t\<rparr>)
     | Some s \<Rightarrow> \<exists>row. record_allocation now p jobid a resp w =
           (Returns None, w\<lparr>tables := t\<lparr>river_job := river_job t @ [row]\<rparr>\<rparr>) \<and>
         rj_kind row = CleanupArgs_Kind \<and>
         rj_queue row = ''cancel_queue'' \<and> rj_scheduled_at row = Some (now + 10 ^ 9 * s) \<and>
         rj_args row = encode_CleanupArgs \<lparr>ca_GroupName = [], ca_FluxID = sint (mp_FluxID resp),
           ca_Podspec = ja_Podspec a, ca_Kubernetes = True\<rparr>"
proof -
  let ?nodes = "strings_Join (expand_nodes (mp_Nodelist resp) []) '',''"
  define t1 where "t1 = (tables w)\<lparr>river_job := UpdateNodes ?nodes jobid (river_job (tables w))\<rparr>"
  define t where "t = t1\<lparr>pending_queue := set_flux_id (ja_GroupName a, ja_Namespace a) (uint (mp_FluxID resp)) (pending_queue t1)\<rparr>"
  have 1: "pool_update (\<lambda>t. Inr (t\<lparr>river_job := UpdateNodes ?nodes jobid (river_job t)\<rparr>)) w = (Inr (), put [] t1 w)"
    using assms(1) by (simp add: quiet_pool_update t1_def)
  have 2: "pool_update (UpdatingPendingWithFluxID (mp_FluxID resp) (ja_GroupName a) (ja_Namespace a)) (put [] t1 w) =
      (Inr (), put [] t w)"
    using quiet_pool_update [of "put [] t1 w" "UpdatingPendingWithFluxID (mp_FluxID resp) (ja_GroupName a) (ja_Namespace a)" t]
      range by (simp add: UpdatingPendingWithFluxID_def t_def)
  have run: "record_allocation now p jobid a resp w =
      SubmitCleanup now (ActiveDeadlineSeconds p) (ja_Podspec a) (sint (mp_FluxID resp)) True [] (put [] t w)"
    using 1 2 assms(2) by (simp add: record_allocation_def Let_def)
  have t: "t = (tables w)
      \<lparr>river_job := map (\<lambda>r. if rj_id r = jobid then r\<lparr>rj_args := AList.update ''nodes'' (JStr ?nodes) (rj_args r)\<rparr> else r)
         (river_job (tables w)),
       pending_queue := map (\<lambda>q. if pq_group_name q = ja_GroupName a \<and> pq_namespace q = ja_Namespace a
           then q\<lparr>pq_flux_id := Some (uint (mp_FluxID resp))\<rparr> else q) (pending_queue (tables w))\<rparr>"
    by (simp add: t_def t1_def UpdateNodes_def set_flux_id_def pending_key_def)
  have put: "put [] t' w = w\<lparr>tables := t'\<rparr>" for t' using assms(1) by (simp add: put_def)
  have nodes: "expand_nodes (mp_Nodelist resp) [] = concat (map (\<lambda>n. replicate (nat (na_Tasks n)) (na_NodeID n)) (mp_Nodelist resp))"
    by (simp add: expand_nodes_eq)
  have none: "record_allocation now p jobid a resp w = (Panics ''nil pointer dereference'', put [] t w)"
    if "ActiveDeadlineSeconds p = None"
    using run that by (simp add: SubmitCleanup_def)
  have some: "\<exists>row. record_allocation now p jobid a resp w = (Returns None, put [] (t\<lparr>river_job := river_job t @ [row]\<rparr>) w) \<and>
      rj_kind row = CleanupArgs_Kind \<and> rj_queue row = ''cancel_queue'' \<and> rj_scheduled_at row = Some (now + 10 ^ 9 * s) \<and>
      rj_args row = encode_CleanupArgs \<lparr>ca_GroupName = [], ca_FluxID = sint (mp_FluxID resp),
        ca_Podspec = ja_Podspec a, ca_Kubernetes = True\<rparr>"
    if s: "ActiveDeadlineSeconds p = Some s" for s
  proof -
    define ps where "ps = \<lparr>ip_kind = CleanupArgs_Kind, ip_args = encode_CleanupArgs \<lparr>ca_GroupName = [],
        ca_FluxID = sint (mp_FluxID resp), ca_Podspec = ja_Podspec a, ca_Kubernetes = True\<rparr>,
      ip_max_attempts = MaxAttempts, ip_tags = [], ip_queue = ''cancel_queue'',
      ip_scheduled_at = Some (scheduled_at now s)\<rparr>"
    have ins: "pool_update (InsertMany [ps]) (put [] t w) =
        (Inr (), put [] (t\<lparr>river_job := insert_jobs [ps] (river_job t)\<rparr>) w)"
      using quiet_pool_update [of "put [] t w" "InsertMany [ps]" "t\<lparr>river_job := insert_jobs [ps] (river_job t)\<rparr>"]
      by (simp add: InsertMany_def)
    have at: "scheduled_at now s = now + 10 ^ 9 * s" using s assms(4) scheduled_at_in_range by simp
    have "record_allocation now p jobid a resp w =
        (Returns None, put [] (t\<lparr>river_job := insert_jobs [ps] (river_job t)\<rparr>) w)"
      using run s ins by (simp add: SubmitCleanup_def Let_def ps_def)
    then show ?thesis using at by (intro exI [of _ "last (insert_jobs [ps] (river_job t))"]) (simp add: ps_def)
  qed
  show ?thesis
    unfolding Let_def t [unfolded nodes, symmetric] using none some unfolding put
    by (simp split: option.split)
qed

theorem deadline_cleanup_witness:
  "\<exists>w' row. record_allocation 0 (ex_pod ''b'') 1 ex_job ex_response (ex_world ex_moved) = (Returns None, w') \<and>
     row \<in> set (river_job (tables w')) \<and> rj_scheduled_at row = Some (10 ^ 9 * 60)"
proof -
  have d: "ActiveDeadlineSeconds (ex_pod ''b'') = Some 60" by (simp add: ex_pod_def)
  have hyp: "0 < ja_Duration ex_job" "int4_range (uint (mp_FluxID ex_response))"
    "\<forall>s. ActiveDeadlineSeconds (ex_pod ''b'') = Some s \<longrightarrow> 0 \<le> s \<and> s < 2 ^ 31"
    by (simp_all add: d ex_job_def ex_response_def int4_range_def)
  obtain t :: tables and row where "record_allocation 0 (ex_pod ''b'') 1 ex_job ex_response (ex_world ex_moved) =
      (Returns None, (ex_world ex_moved)\<lparr>tables := t\<lparr>river_job := river_job t @ [row]\<rparr>\<rparr>)"
    "rj_scheduled_at row = Some (0 + 10 ^ 9 * 60)"
    using deadline_cleanup [OF ex_world_simps(2) [of ex_moved] hyp, of 1 0] unfolding d option.case Let_def by blast
  then show ?thesis by (intro exI [of _ "(ex_world ex_moved)\<lparr>tables := t\<lparr>river_job := river_job t @ [row]\<rparr>\<rparr>"] exI [of _ row]) simp
qed

section \<open>The cleanup worker\<close>

lemma delete_owners_find:
  "delete_owners K ns owners w =
    (case find (\<lambda>own. owner_Kind own = ''Job'') owners of
       None \<Rightarrow> (None, w)
     | Some own \<Rightarrow> deleteJob K ns own w)"
  by (induction K ns owners w rule: delete_owners.induct) auto

text \<open>What a cleanup asks Kubernetes to delete, and the error it ends with: the pod if it has no
  owner, otherwise the first owner that is a Job, under the name Kubernetes finds it by.\<close>

definition objects_to_delete :: "kube_api \<Rightarrow> pod \<Rightarrow> request list \<times> goerror option" where
  "objects_to_delete K p =
     (if OwnerReferences p = [] then ([SentDelete ''Pod'' (Namespace p) (Name p)], k_delete K ''Pod'' (Namespace p) (Name p))
      else case find (\<lambda>own. owner_Kind own = ''Job'') (OwnerReferences p) of
             None \<Rightarrow> ([], None)
           | Some own \<Rightarrow>
               (case k_get_job K (Namespace p) (owner_Name own) of
                  Inl e \<Rightarrow> ([], Some e)
                | Inr name \<Rightarrow> ([SentDelete ''Job'' (Namespace p) name], k_delete K ''Job'' (Namespace p) name)))"

lemma deleteObjects_quiet:
  assumes "tape w = []" and "unmarshal C spec = Inr p"
  shows "deleteObjects C K spec w =
    (snd (objects_to_delete K p), w\<lparr>sent := sent w @ fst (objects_to_delete K p)\<rparr>)"
  using assms
  by (simp add: deleteObjects_def objects_to_delete_def delete_owners_find delete_call_def deleteJob_def get_job_call_def
      split: option.split sum.split)

text \<open>C30: a cleanup of an allocated job whose calls are not lost asks Kubernetes to delete the
  pod when it has no owner and otherwise the first owner that is a Job, and nothing else; unless that
  failed with an error other than not found, which the cleanup then returns, it sends Fluxion one
  cancel after it, for the job's id, with the flag that a missing job is no error, and reports an
  error just when Fluxion refuses it. The tables stay as they are.\<close>

theorem cleanup_deletes_then_cancels:
  assumes "tape w = []" and "0 \<le> ca_FluxID a" and "ca_Kubernetes a"
    and "unmarshal C (ca_Podspec a) = Inr p"
  shows "let (deletes, err) = objects_to_delete K p;
      cancel = \<lparr>cr_FluxID = word_of_int (ca_FluxID a), cr_NoExistOK = True\<rparr>;
      (res, w') = CleanupWorker_Work E C K F a w
    in tables w' = tables w \<and>
       (if (case err of None \<Rightarrow> True | Some e \<Rightarrow> is_not_found K e)
        then sent w' = sent w @ deletes @ [SentCancel cancel] \<and> (res = None \<longleftrightarrow> cancel_rpc F cancel = None)
        else sent w' = sent w @ deletes \<and> res = err)"
proof -
  obtain deletes err where d: "objects_to_delete K p = (deletes, err)" by (metis surj_pair)
  have "- 1 < ca_FluxID a" using assms(2) by simp
  then show ?thesis
    using assms deleteObjects_quiet [OF assms(1,4), of K] d
    by (cases err) (simp_all add: CleanupWorker_Work_def Cleanup_def deleteFluxion_def cancel_call_def split: option.split)
qed

theorem cleanup_deletes_then_cancels_witness:
  "let (res, w') = CleanupWorker_Work ex_env ex_codec ex_kube ex_flux
     \<lparr>ca_GroupName = [], ca_FluxID = 7, ca_Podspec = ''B'', ca_Kubernetes = True\<rparr> (ex_world ex_moved)
   in res = None \<and> sent w' = [SentDelete ''Pod'' ''default'' ''b'', ex_cancel]"
proof -
  have "objects_to_delete ex_kube (ex_pod ''b'') = ([SentDelete ''Pod'' ''default'' ''b''], None)"
    by (simp add: objects_to_delete_def ex_kube_def ex_fields) (simp add: ex_pod_def)
  then show ?thesis
    using cleanup_deletes_then_cancels [of "ex_world ex_moved"
        "\<lparr>ca_GroupName = [], ca_FluxID = 7, ca_Podspec = ''B'', ca_Kubernetes = True\<rparr>" ex_codec "ex_pod ''b''" ex_kube ex_env ex_flux]
    by (simp add: ex_unmarshal case_prod_unfold ex_cancel_def ex_flux_def Let_def)
qed

end
