(* ===== verification/TypingProps.thy ===== *)
theory TypingProps
  imports Typing WorkerProps
begin

text \<open>
  What the type of the database gives: the reachable states have it, no decoding and no cycle fails
  on a typed database, and no job asks for more pods than it names.
\<close>

section \<open>Typed arguments decode\<close>

lemma conforms_member:
  assumes "conforms sch obj" and "(k, ty) \<in> set sch"
  obtains v where "map_of obj k = Some v" "has_type ty v"
  using assms by (fastforce simp: conforms_def)

lemma conforms_absent:
  assumes "conforms sch obj" and "k \<notin> insert ''nodes'' (fst ` set sch)"
  shows "map_of obj k = None"
  using assms by (auto simp: conforms_def map_of_eq_None_iff)

lemma typed_job_decodes:
  assumes "conforms JobArgs_schema obj"
  shows "\<exists>r. decode_JobResult obj = Inr r"
proof -
  have str: "\<exists>s. map_of obj k = Some (JStr s)" if "(k, TString) \<in> set JobArgs_schema" for k
    using conforms_member [OF assms that] by (auto simp: has_type_iff)
  have "map_of obj ''jobid'' = None" "map_of obj ''podid'' = None"
    by (intro conforms_absent [OF assms]; simp add: JobArgs_schema_def)+
  moreover have "\<exists>s. map_of obj ''nodes'' = Some (JStr s)" "\<exists>s. map_of obj ''podspec'' = Some (JStr s)"
    "\<exists>s. map_of obj ''names'' = Some (JStr s)" "\<exists>s. map_of obj ''namespace'' = Some (JStr s)"
    "\<exists>s. map_of obj ''groupName'' = Some (JStr s)"
    by (intro str; simp add: JobArgs_schema_def)+
  ultimately show ?thesis by (auto simp: decode_JobResult_def)
qed

section \<open>A healthy cycle on typed tables\<close>

lemma collect_jobs_quiet:
  "tape w = [] \<Longrightarrow> collect_jobs E ms l w = (Inr (job_lookup E (tables w) ms l), w)"
  by (induction ms arbitrary: l)
    (simp_all add: job_lookup_def SelectPods_def group_job_def group_pods_def)

lemma exec_batch_quiet:
  assumes "plain_keys (job_key ` set jobs)" and "\<forall>a \<in> set jobs. int4_range (ja_GroupSize a)"
  shows "exec_batch E (map pending_stmt jobs) t = Inr (mark_pending jobs t)"
  using assms
proof (induction jobs arbitrary: t)
  case Nil
  then show ?case by (simp add: mark_pending_def)
next
  case (Cons a jobs)
  have "stmt_ok (pending_stmt a)"
    using Cons.prems(1) by (auto simp: plain_keys_def stmt_ok_def pending_stmt_def job_key_def)
  then have "exec_stmt E (pending_stmt a) t =
      Inr (t\<lparr>pending_queue := insert_pending (pending_of a) (pending_queue t)\<rparr>, ())"
    using Cons.prems(2) by (simp add: exec_stmt_def pending_stmt_def pending_of_def)
  moreover have "plain_keys (job_key ` set jobs)" using Cons.prems(1) by (auto simp: plain_keys_def)
  ultimately show ?case using Cons.IH Cons.prems(2) by (simp add: mark_pending_def)
qed

lemma move_no_groups: "move_groups [] t = t"
  by (simp add: move_groups_def mark_pending_def delete_groups_def)

lemma ReadyJobs_quiet:
  assumes "tape w = []" and inv: "queue_inv E iter (tables w)" and typed: "well_typed (tables w)"
  obtains jobs where "ReadyJobs E iter w = ((jobs, None), put [] (move_groups jobs (tables w)) w)"
    "selected E (tables w) jobs"
proof -
  have env: "scans_ok E" "iter_ok iter" "plain_groups (tables w)"
    using inv by (auto simp: queue_inv_def strategy_env_def)
  obtain ms where ms: "SelectGroupsAtSize E (tables w) = Inr ms" by (simp add: SelectGroupsAtSize_def)
  let ?jobs = "iter (map snd (job_lookup E (tables w) ms []))"
  have sel: "selected E (tables w) ?jobs" using selected_job_lookup [OF env(1,2) ms [symmetric]] .
  have get: "getReadyGroups E iter w = (Inr ?jobs, w)"
    using assms(1) ms by (simp add: getReadyGroups_def collect_jobs_quiet)
  have same: "put [] (tables w) w = w" using assms(1) by (metis put_same)
  have run: "ReadyJobs E iter w = ((?jobs, None), put [] (move_groups ?jobs (tables w)) w)"
  proof (cases "?jobs = []")
    case True
    then show ?thesis using get same by (simp add: ReadyJobs_def move_no_groups)
  next
    case False
    have plain: "plain_keys (job_key ` set ?jobs)" by (rule selected_plain [OF sel env(3)])
    have "insertPending E ?jobs w = (Inr (), put [] (mark_pending ?jobs (tables w)) w)"
      unfolding insertPending_def using assms(1) exec_batch_quiet [OF plain] selected_in_range(1) [OF sel typed]
      by (intro quiet_pool_update) auto
    moreover have "deleteGroups E ?jobs (put [] (mark_pending ?jobs (tables w)) w) =
        (Inr (), put [] (move_groups ?jobs (tables w)) w)"
      using quiet_pool_exec [of "put [] (mark_pending ?jobs (tables w)) w", OF _ deleteGroups_stmt_ok [OF plain False],
          of "move_groups ?jobs (tables w)" E]
      by (simp add: deleteGroups_def move_groups_def mark_pending_def)
    ultimately show ?thesis using get False by (simp add: ReadyJobs_def)
  qed
  then show ?thesis using sel that by blast
qed

text \<open>The tables after a cycle whose calls all succeed, before \<open>PostSubmit\<close>.\<close>

definition after_submit :: "JobArgs list \<Rightarrow> tables \<Rightarrow> tables" where
  "after_submit jobs t =
     (move_groups jobs t)\<lparr>river_job := insert_jobs (map job_params jobs) (river_job t)\<rparr>"

lemma Queue_Schedule_quiet:
  assumes "tape w = []" and inv: "queue_inv E iter (tables w)" and typed: "well_typed (tables w)"
    and S: "q_Strategy q = EasyBackfill E C iter collect"
  obtains jobs where "Queue_Schedule q w = easy_PostSubmit E collect (put [] (after_submit jobs (tables w)) w)"
    "selected E (tables w) jobs"
proof -
  obtain jobs where rj: "ReadyJobs E iter w = ((jobs, None), put [] (move_groups jobs (tables w)) w)"
    and sel: "selected E (tables w) jobs"
    by (rule ReadyJobs_quiet [OF assms(1-3)])
  have "pool_update (InsertMany (map job_params jobs)) (put [] (move_groups jobs (tables w)) w) =
      (Inr (), put [] (after_submit jobs (tables w)) w)" if "jobs \<noteq> []"
    using quiet_pool_update [of "put [] (move_groups jobs (tables w)) w" "InsertMany (map job_params jobs)"
        "after_submit jobs (tables w)"] that
    by (simp add: InsertMany_def after_submit_def move_groups_def mark_pending_def)
  moreover have "after_submit [] (tables w) = tables w" by (simp add: after_submit_def move_no_groups)
  ultimately have "Queue_Schedule q w = easy_PostSubmit E collect (put [] (after_submit jobs (tables w)) w)"
    using rj S
    by (cases "jobs = []")
      (simp_all add: Queue_Schedule_def EasyBackfill_def easy_Schedule_def schedule_loop_params move_no_groups)
  then show ?thesis using sel that by blast
qed

section \<open>What the reachable states have\<close>

text \<open>Reading the reservations gives models with a Go \<open>int64\<close>.\<close>

definition collect_typed :: "(reservation_row list \<Rightarrow> goerror + ReservationModel list) \<Rightarrow> bool" where
  "collect_typed collect \<longleftrightarrow>
     (\<forall>rows ms. (\<forall>r \<in> set rows. int4_range (rv_flux_id r)) \<and> collect rows = Inr ms \<longrightarrow> (\<forall>m \<in> set ms. model_typed m))"

lemma reach_typed:
  assumes "queue_reach E C iter collect K F L w" and "strategy_env E iter" and "arity_checked E"
    and "collect_typed collect"
  shows "well_typed (tables w)"
proof (rule typed.reach_keeps [OF assms(1-3)])
  show "well_typed \<lparr>pods_provisional = [], groups_provisional = [], reservations = [], pending_queue = [], river_job = []\<rparr>"
    by (simp add: well_typed_def jobs_typed_def)
  show "model_typed m" if "well_typed t" "collect (reservations t) = Inr ms" "m \<in> set ms" for t ms m
    using that assms(4) unfolding collect_typed_def well_typed_def by blast
qed

lemma reach_complete:
  assumes "queue_reach E C iter collect K F L w" and "strategy_env E iter" and "arity_checked E"
  shows "complete (tables w)"
  by (rule counted.reach_keeps [OF assms]) (simp_all add: complete_def)

lemma reach_decodable:
  assumes "queue_reach E C iter collect K F L w" and "strategy_env E iter" and "arity_checked E"
  shows "decodable C (tables w)"
  by (rule stored.reach_keeps [OF assms]) (simp_all add: decodable_def)

text \<open>C7: the database is typed in every reachable state, whatever calls fail: every number fits
  its column, a flux id is no negative number, the job ids are distinct, every row of the job table
  has a kind the strategy has registered a worker for, the queue of its kind and arguments that
  conform to the schema of its kind, and so what the event loop decodes from a job of the scheduler
  never fails.\<close>

theorem reachable_tables_are_typed:
  assumes "queue_reach E C iter collect K F L w" and "strategy_env E iter" and "arity_checked E"
    and "collect_typed collect"
  shows "well_typed (tables w) \<and> rj_kind ` set (river_job (tables w)) \<subseteq> set (easy_AddWorkers []) \<and>
    (\<forall>row \<in> set (river_job (tables w)). rj_kind row = JobArgs_Kind \<longrightarrow>
       rj_queue row = QueueDefault \<and> (\<exists>r. decode_JobResult (rj_args row) = Inr r))"
proof -
  have "well_typed (tables w)" by (rule reach_typed [OF assms])
  moreover have "rj_queue row = QueueDefault \<and> (\<exists>r. decode_JobResult (rj_args row) = Inr r)"
    if "row \<in> set (river_job (tables w))" "rj_kind row = JobArgs_Kind" for row
    using calculation that typed_job_decodes
    by (auto simp: well_typed_def jobs_typed_def job_typed_def JobArgs_Kind_def CleanupArgs_Kind_def)
  moreover have "rj_kind row \<in> set (easy_AddWorkers [])" if "row \<in> set (river_job (tables w))" for row
    using calculation(1) that by (auto simp: well_typed_def jobs_typed_def job_typed_def easy_AddWorkers_def)
  ultimately show ?thesis by blast
qed

lemma ex_collect_typed: "collect_typed ex_collect"
  by (auto simp: collect_typed_def ex_collect_def model_typed_def int4_range_def)

lemma ex_reach_done: "queue_reach ex_env ex_codec id ex_collect ex_kube ex_flux ex_live (ex_world ex_done)"
  by (rule queue_reach.step [OF ex_reach_two queue_step.schedule_cycle [OF ex_cycle]]) (simp add: ex_queue_def)

lemma ex_done_jobs:
  "river_job ex_done = [\<lparr>rj_id = 1, rj_kind = JobArgs_Kind, rj_args = encode_JobArgs ex_job, rj_queue = QueueDefault,
     rj_tags = [easy_Name], rj_max_attempts = MaxAttempts, rj_scheduled_at = None\<rparr>]"
  by (simp add: ex_done_def ex_batch_def schedule_loop_params job_params_def next_job_id_def)

theorem reachable_tables_are_typed_witness:
  "well_typed ex_done \<and> (\<exists>r. map (\<lambda>row. decode_JobResult (rj_args row)) (river_job ex_done) = [Inr r])"
  using reachable_tables_are_typed [OF ex_reach_done ex_env_ok(1,2) ex_collect_typed] ex_done_jobs by auto

text \<open>C8: as long as no pod is enqueued twice, and no value between quotes has a quote, no job
  and no pending group ever asks for pods that do not exist: in every state reached that way, whatever
  calls failed, a pending group has at least as many stored pods as its size, and the names in a job's
  arguments are those of distinct stored pods of its group, again at least as many as its
  size.\<close>

theorem nothing_asks_for_missing_pods:
  assumes "queue_reach E C iter collect K F L w" and "strategy_env E iter" and "arity_checked E"
  shows "(\<forall>r \<in> set (pending_queue (tables w)). pq_group_size r \<le> int (length (pods_of (tables w) (pending_key r)))) \<and>
    (\<forall>row \<in> set (river_job (tables w)). rj_kind row = JobArgs_Kind \<longrightarrow> job_complete (tables w) (rj_args row))"
  using reach_complete [OF assms] by (simp add: complete_def)

theorem nothing_asks_for_missing_pods_witness:
  "job_complete ex_done (encode_JobArgs ex_job)"
  using nothing_asks_for_missing_pods [OF ex_reach_done ex_env_ok(1,2)] ex_done_jobs by simp

section \<open>Complete groups are submitted\<close>

lemma insert_jobs_new:
  assumes "ip \<in> set ps"
  shows "\<exists>row \<in> set (insert_jobs ps rows). rj_kind row = ip_kind ip \<and> rj_args row = ip_args ip \<and>
    rj_queue row = ip_queue ip \<and> rj_id row \<notin> rj_id ` set rows"
  using assms
proof (induction ps arbitrary: rows)
  case (Cons q ps)
  let ?row = "\<lparr>rj_id = next_job_id rows, rj_kind = ip_kind q, rj_args = ip_args q, rj_queue = ip_queue q,
    rj_tags = ip_tags q, rj_max_attempts = ip_max_attempts q, rj_scheduled_at = ip_scheduled_at q\<rparr>"
  have "next_job_id rows \<notin> rj_id ` set rows" using next_job_id_fresh by fastforce
  moreover obtain new where "insert_jobs (q # ps) rows = (rows @ [?row]) @ new"
    using insert_jobs_extends [of ps "rows @ [?row]"] by auto
  ultimately have "\<exists>row \<in> set (insert_jobs (q # ps) rows). rj_kind row = ip_kind q \<and> rj_args row = ip_args q \<and>
      rj_queue row = ip_queue q \<and> rj_id row \<notin> rj_id ` set rows"
    by (intro bexI [of _ ?row]) simp_all
  moreover have "\<exists>row \<in> set (insert_jobs (q # ps) rows). rj_kind row = ip_kind ip \<and> rj_args row = ip_args ip \<and>
      rj_queue row = ip_queue ip \<and> rj_id row \<notin> rj_id ` set rows" if "ip \<in> set ps"
    using Cons.IH [OF that, of "rows @ [?row]"] by auto
  ultimately show ?case using Cons.prems by auto
qed simp

text \<open>\<open>PostSubmit\<close> on a healthy network: only the emptying of the reservations can fail.\<close>

lemma easy_PostSubmit_quiet:
  assumes run: "easy_PostSubmit E collect w = (err, w')" and "tape w = []" and C: "clears_reservations E"
  shows "tape w' = []" and "provisional_kept (tables w) (tables w')"
    and "\<exists>extra. river_job (tables w') = river_job (tables w) @ extra"
    and "reservations (tables w) = [] \<Longrightarrow> collect [] = Inr [] \<Longrightarrow> err = None"
proof -
  have ins: "pool_update (InsertMany (map cleanup_params ms)) w =
      (Inr (), put [] ((tables w)\<lparr>river_job := insert_jobs (map cleanup_params ms) (river_job (tables w))\<rparr>) w)"
    if "ms \<noteq> []" for ms
    using assms(2) that by (intro quiet_pool_update) (simp_all add: InsertMany_def)
  have "w' = w \<or> (\<exists>ms ts. w' = put [] ((tables w)\<lparr>river_job := insert_jobs ms (river_job (tables w))\<rparr>) w) \<or>
      (\<exists>ms. w' = put [] ((tables w)\<lparr>river_job := insert_jobs ms (river_job (tables w)), reservations := []\<rparr>) w)"
  proof -
    have raw: "v' = v \<or> v' = put [] ((tables v)\<lparr>reservations := []\<rparr>) v"
      if "pool_exec_raw E DeleteReservationsQuery [] v = (x, v')" "tape v = []" for v x v'
    proof -
      obtain e t' where "raw_sql E DeleteReservationsQuery [] (tables v) = (e, t')" by (meson surj_pair)
      moreover from this have "e = None \<Longrightarrow> t' = (tables v)\<lparr>reservations := []\<rparr>"
        using C unfolding clears_reservations_def by (metis (mono_tags, lifting) old.prod.case option.simps(4))
      ultimately show ?thesis using that
        by (cases e) (auto simp: pool_exec_raw_def lift_tables_def exec_raw_def put_tables)
    qed
    show ?thesis using run assms(2) ins
      by (auto simp: easy_PostSubmit_def Let_def split: sum.splits prod.splits if_splits dest!: raw)
  qed
  moreover have "\<exists>extra. insert_jobs ms rows = rows @ extra" for ms rows using insert_jobs_extends by blast
  ultimately show "tape w' = []" and "provisional_kept (tables w) (tables w')"
    and "\<exists>extra. river_job (tables w') = river_job (tables w) @ extra"
    using assms(2) by (auto simp: provisional_kept_def)
  show "err = None" if "reservations (tables w) = []" "collect [] = Inr []"
    using run assms(2) that by (simp add: easy_PostSubmit_def)
qed

text \<open>One complete group through one healthy cycle; \<open>lookup_key\<close> joins name and namespace with a dash,
  so two groups may share it, and then only one of them is served.\<close>

lemma group_submitted:
  assumes reach: "queue_reach E C iter collect K F L w" and env: "strategy_env E iter" "arity_checked E" "collect_typed collect"
    and "tape w = []" and S: "q_Strategy q = EasyBackfill E C iter collect"
    and r: "r \<in> set (ready_rows (tables w))"
    and alone: "\<forall>r' \<in> set (ready_rows (tables w)). lookup_key r' = lookup_key r \<longrightarrow> r' = r"
  shows "\<exists>err w' row. Queue_Schedule q w = (err, w') \<and> tape w' = [] \<and>
    pods_provisional (tables w') = pods_provisional (tables w) \<and>
    group_key r \<in> pending_key ` set (pending_queue (tables w')) \<and>
    group_key r \<notin> group_key ` set (groups_provisional (tables w')) \<and>
    row \<in> set (river_job (tables w')) \<and> rj_id row \<notin> rj_id ` set (river_job (tables w)) \<and>
    rj_kind row = JobArgs_Kind \<and> rj_queue row = QueueDefault \<and> rj_args row = encode_JobArgs (group_job E (tables w) r) \<and>
    (reservations (tables w) = [] \<and> collect [] = Inr [] \<longrightarrow> err = None)"
proof -
  have inv: "reach_inv E iter (tables w)" by (rule reach_reach_inv [OF reach env(1,2)])
  obtain jobs where run: "Queue_Schedule q w = easy_PostSubmit E collect (put [] (after_submit jobs (tables w)) w)"
    and sel: "selected E (tables w) jobs"
    using Queue_Schedule_quiet [OF assms(5) _ reach_typed [OF reach env] S] inv by (auto simp: reach_inv_def)
  have job: "group_job E (tables w) r \<in> set jobs" using sel r alone by (auto simp: selected_def)
  let ?t = "after_submit jobs (tables w)"
  obtain err w' where post: "easy_PostSubmit E collect (put [] ?t w) = (err, w')" by (meson surj_pair)
  have "clears_reservations E" using env(1) by (simp add: strategy_env_def)
  note q = easy_PostSubmit_quiet [OF post _ this, simplified]
  have keys: "pending_key ` set (pending_queue ?t) = job_key ` set jobs \<union> pending_key ` set (pending_queue (tables w))"
    by (simp add: after_submit_def move_groups_def mark_pending_def keys_fold_pending image_image)
  have "group_key r \<in> pending_key ` set (pending_queue ?t)"
    unfolding keys using job by (metis UnI1 imageI job_key_group_job)
  moreover have "pending_key ` set (pending_queue (tables w')) = pending_key ` set (pending_queue ?t)"
    "groups_provisional (tables w') = groups_provisional ?t" "pods_provisional (tables w') = pods_provisional ?t"
    using kept_key_set [OF q(2)] q(2) by (simp_all add: provisional_kept_def)
  moreover have "group_key r \<notin> group_key ` set (groups_provisional ?t)"
  proof -
    have "group_key r \<in> job_key ` set jobs" using job by (metis imageI job_key_group_job)
    then show ?thesis by (auto simp: after_submit_def move_groups_def keys_delete_groups)
  qed
  moreover have "pods_provisional ?t = pods_provisional (tables w)" "reservations ?t = reservations (tables w)"
    by (simp_all add: after_submit_def move_groups_def mark_pending_def)
  moreover obtain row where "row \<in> set (river_job ?t)" "rj_kind row = JobArgs_Kind"
    "rj_args row = encode_JobArgs (group_job E (tables w) r)" "rj_queue row = QueueDefault"
    "rj_id row \<notin> rj_id ` set (river_job (tables w))"
    using insert_jobs_new [of "job_params (group_job E (tables w) r)" "map job_params jobs" "river_job (tables w)"] job
    by (auto simp: job_params_def after_submit_def)
  moreover from this have "row \<in> set (river_job (tables w'))" using q(3) by auto
  ultimately show ?thesis using run post q(1,4) by (intro exI [of _ err] exI [of _ w'] exI [of _ row]) simp
qed

text \<open>C5: a complete group is handed over: in any reachable state, on a healthy network, one
  schedule cycle moves every group that has enough pods, and whose name and namespace joined by a dash
  are those of no other such group, to the pending table, takes it off the provisional one, and
  inserts a new job with its pods in the queue the job workers serve; without reservations the cycle
  reports no error.\<close>

theorem complete_groups_are_submitted:
  assumes reach: "queue_reach E C iter collect K F L w" and env: "strategy_env E iter" "arity_checked E" "collect_typed collect"
    and "tape w = []" and S: "q_Strategy q = EasyBackfill E C iter collect"
    and r: "r \<in> set (ready_rows (tables w))"
    and alone: "\<forall>r' \<in> set (ready_rows (tables w)). lookup_key r' = lookup_key r \<longrightarrow> r' = r"
  shows "\<exists>err w' row. Queue_Schedule q w = (err, w') \<and>
    group_key r \<in> pending_key ` set (pending_queue (tables w')) \<and>
    group_key r \<notin> group_key ` set (groups_provisional (tables w')) \<and>
    row \<in> set (river_job (tables w')) \<and> rj_id row \<notin> rj_id ` set (river_job (tables w)) \<and>
    rj_kind row = JobArgs_Kind \<and> rj_queue row = QueueDefault \<and> rj_args row = encode_JobArgs (group_job E (tables w) r) \<and>
    (reservations (tables w) = [] \<and> collect [] = Inr [] \<longrightarrow> err = None)"
  using group_submitted [OF assms] by blast

lemma ex_ready_rows: "ready_rows ex_two = [(new_group_row ''A'' (ex_pod ''a'') ex_group)\<lparr>gr_current_size := 2\<rparr>]"
  by (simp add: ready_rows_def ex_two_def new_group_row_def ex_fields)

theorem complete_groups_are_submitted_witness:
  "\<exists>w' row. Queue_Schedule ex_queue (ex_world ex_two) = (None, w') \<and>
     (''lammps'', ''default'') \<in> pending_key ` set (pending_queue (tables w')) \<and>
     row \<in> set (river_job (tables w')) \<and> rj_queue row = QueueDefault"
proof -
  let ?r = "(new_group_row ''A'' (ex_pod ''a'') ex_group)\<lparr>gr_current_size := 2\<rparr>"
  have q: "q_Strategy ex_queue = EasyBackfill ex_env ex_codec id ex_collect" by (simp add: ex_queue_def)
  have r: "?r \<in> set (ready_rows (tables (ex_world ex_two)))"
    "\<forall>r' \<in> set (ready_rows (tables (ex_world ex_two))). lookup_key r' = lookup_key ?r \<longrightarrow> r' = ?r"
    by (simp_all add: ex_ready_rows)
  have "reservations (tables (ex_world ex_two)) = [] \<and> ex_collect [] = Inr []"
    by (simp add: ex_two_def empty_tables_def ex_collect_def)
  moreover have "group_key ?r = (''lammps'', ''default'')" by (simp add: group_key_def new_group_row_def ex_fields)
  ultimately show ?thesis
    using complete_groups_are_submitted [OF ex_reach_two ex_env_ok(1,2) ex_collect_typed ex_world_simps(2) q r] by metis
qed

end
