(* ===== verification/Jobspec.thy ===== *)
theory Jobspec
  imports Proto
begin

text \<open>
  \<open>src/fluxnetes/pkg/jobspec/jobspec.go\<close> and \<open>types.go\<close>: the Flux jobspec of a pod request. The
  YAML encoder is a parameter; a failure of it ends the process (\<open>log.Fatalf\<close>).
\<close>

datatype Resource = Resource (res_Type: string) (res_Count: int) (res_Label: string) (res_With: "Resource list")

record Task =
  tk_Command :: "string list"
  tk_Slot :: string
  tk_PerSlot :: int

record JobSpec =
  js_Version :: int
  js_Resources :: "Resource list"
  js_Duration :: int
  js_Tasks :: "Task list"

definition createSocketResources :: "PodSpec \<Rightarrow> Resource list" where
  "createSocketResources spec =
     [Resource ''core'' (sint (ps_Cpu spec)) [] []]
     @ (if 0 < sint (ps_Memory spec)
        then [Resource ''memory'' (sint (signed_drop_bit 20 (ps_Memory spec))) [] []] else [])
     @ (if 0 < sint (ps_Gpu spec) then [Resource ''gpu'' (sint (ps_Gpu spec)) [] []] else [])"

fun createResources_loop :: "string list \<Rightarrow> Resource list \<Rightarrow> Resource list" where
  "createResources_loop [] slotResource = slotResource"
| "createResources_loop (label # rest) slotResource =
     (if label = ''zone''
      then [Resource ''subnet'' 1 [] [Resource ''node'' 1 [] slotResource]]
      else createResources_loop rest slotResource)"

definition createResources :: "PodSpec \<Rightarrow> Resource list \<Rightarrow> int \<Rightarrow> Resource list" where
  "createResources spec socketResources cnt =
     (let slotResource = [Resource ''slot'' cnt ''default'' socketResources]
      in if 0 < length (ps_Labels spec) then createResources_loop (ps_Labels spec) slotResource
         else slotResource)"

definition build_JobSpec :: "PodSpec \<Rightarrow> int \<Rightarrow> JobSpec" where
  "build_JobSpec spec cnt =
     \<lparr>js_Version = 9999, js_Resources = createResources spec (createSocketResources spec) cnt,
      js_Duration = 3600,
      js_Tasks = [\<lparr>tk_Command = [ps_Container spec], tk_Slot = ''default'', tk_PerSlot = 1\<rparr>]\<rparr>"

definition CreateJobSpecYaml :: "(JobSpec \<Rightarrow> goerror + string) \<Rightarrow> PodSpec \<Rightarrow> int \<Rightarrow> string outcome" where
  "CreateJobSpecYaml yaml spec cnt =
     (case yaml (build_JobSpec spec cnt) of
        Inl e \<Rightarrow> Panics ''[JobSpec] yaml.Marshal failed''
      | Inr s \<Rightarrow> Returns s)"

section \<open>What a jobspec asks for\<close>

text \<open>The amount of a resource type in a request: counts multiply down the tree.\<close>

fun amount :: "string \<Rightarrow> Resource \<Rightarrow> int" where
  "amount ty (Resource t c l w) = c * ((if t = ty then 1 else 0) + (\<Sum>r\<leftarrow>w. amount ty r))"

definition total_amount :: "string \<Rightarrow> Resource list \<Rightarrow> int" where
  "total_amount ty rs = (\<Sum>r\<leftarrow>rs. amount ty r)"

lemma total_amount_createResources:
  assumes "ty \<noteq> ''slot''" and "ty \<noteq> ''subnet''" and "ty \<noteq> ''node''"
  shows "total_amount ty (createResources spec socket cnt) = cnt * total_amount ty socket"
proof -
  have "total_amount ty (createResources_loop ls [Resource ''slot'' cnt ''default'' socket]) =
      cnt * total_amount ty socket" for ls
    using assms by (induction ls) (auto simp: total_amount_def)
  then show ?thesis using assms
    by (simp add: createResources_def Let_def total_amount_def)
qed

end
