(* ===== verification/Fluxion.thy ===== *)
theory Fluxion
  imports Jobspec Tables
begin

text \<open>
  The Fluxion service, \<open>src/fluxnetes/pkg/fluxion/fluxion.go\<close>, and the reading of an allocation,
  \<open>ParseAllocResult\<close> of \<open>src/fluxnetes/pkg/utils/utils.go\<close>. The Fluxion library itself
  (\<open>fluxcli\<close>), the JSON parser and the YAML encoder are parameters. A failed type assertion of
  Go is a panic.
\<close>

section \<open>Reading an allocation\<close>

record allocation =
  al_Type :: string
  al_Name :: string
  al_Basename :: string
  al_CoreCount :: int

definition assertion_failed :: "'a outcome" where
  "assertion_failed = Panics ''interface conversion''"

text \<open>The three type assertions of the code, on the value a map lookup gives (absent is nil).\<close>

fun as_object :: "json option \<Rightarrow> json_object outcome" where
  "as_object (Some (JObj o')) = Returns o'"
| "as_object _ = assertion_failed"

fun as_array :: "json option \<Rightarrow> json list outcome" where
  "as_array (Some (JArr xs)) = Returns xs"
| "as_array _ = assertion_failed"

fun as_string :: "json option \<Rightarrow> string outcome" where
  "as_string (Some (JStr s)) = Returns s"
| "as_string _ = assertion_failed"

definition CoreType :: string where "CoreType = ''core''"
definition NodeType :: string where "NodeType = ''node''"

text \<open>The loop over the vertices: cores are counted until the node that closes them.\<close>

fun alloc_loop :: "json list \<Rightarrow> int \<Rightarrow> allocation list \<Rightarrow> allocation list outcome" where
  "alloc_loop [] corecount result = Returns result"
| "alloc_loop (item # rest) corecount result =
     bind_outcome (as_object (Some item)) (\<lambda>str1.
     bind_outcome (as_object (map_of str1 ''metadata'')) (\<lambda>metadata.
     bind_outcome (as_string (map_of metadata ''type'')) (\<lambda>ty.
       let corecount = (if ty = CoreType then corecount + 1 else corecount)
       in if ty = NodeType
          then bind_outcome (as_string (map_of metadata ''name'')) (\<lambda>name.
               bind_outcome (as_string (map_of metadata ''basename'')) (\<lambda>basename.
                 alloc_loop rest 0
                   (result @ [\<lparr>al_Type = ty, al_Name = name, al_Basename = basename,
                               al_CoreCount = corecount\<rparr>])))
          else alloc_loop rest corecount result)))"

definition ParseAllocResult :: "(string \<Rightarrow> json option) \<Rightarrow> string \<Rightarrow> allocation list outcome" where
  "ParseAllocResult parse allocated =
     (case parse allocated of
        Some (JObj dat) \<Rightarrow>
          bind_outcome (as_object (map_of dat ''graph'')) (\<lambda>str1.
          bind_outcome (as_array (map_of str1 ''nodes'')) (\<lambda>str2.
            alloc_loop str2 0 []))
      | Some JNull \<Rightarrow> assertion_failed
      | _ \<Rightarrow> Panics ''json: cannot unmarshal'')"

section \<open>The service\<close>

text \<open>
  What the library answers to \<open>MatchAllocate\<close>: reserved, the allocation as a text, the time of
  the reservation, the job id and the error.
\<close>

record match_result =
  ml_reserved :: bool
  ml_allocated :: string
  ml_at :: int
  ml_jobid :: uint64
  ml_fluxerr :: "goerror option"

record fluxcli =
  MatchAllocate :: "bool \<Rightarrow> string \<Rightarrow> match_result"
  cli_Cancel :: "int \<Rightarrow> bool \<Rightarrow> goerror option"
  yaml_marshal :: "JobSpec \<Rightarrow> goerror + string"
  json_parse :: "string \<Rightarrow> json option"

text \<open>One entry of the node list; the division panics when the request has no cpu.\<close>

definition node_alloc :: "int \<Rightarrow> allocation \<Rightarrow> NodeAlloc outcome" where
  "node_alloc cpu r =
     (if cpu = 0 then Panics ''integer divide by zero''
      else Returns \<lparr>na_NodeID = al_Basename r,
                    na_Tasks = wrap32 (go_div (wrap32 (al_CoreCount r)) cpu)\<rparr>)"

fun node_allocs :: "int \<Rightarrow> allocation list \<Rightarrow> NodeAlloc list outcome" where
  "node_allocs cpu [] = Returns []"
| "node_allocs cpu (r # rs) =
     bind_outcome (node_alloc cpu r) (\<lambda>n.
     bind_outcome (node_allocs cpu rs) (\<lambda>ns. Returns (n # ns)))"

definition Match :: "fluxcli \<Rightarrow> MatchRequest \<Rightarrow> (MatchResponse \<times> goerror option) outcome" where
  "Match F req =
     bind_outcome (CreateJobSpecYaml (yaml_marshal F) (mr_Podspec req) (mr_Count req)) (\<lambda>spec.
       let m = MatchAllocate F (mr_Reserve req) spec
       in case ml_fluxerr m of
            Some e \<Rightarrow> Returns (empty_MatchResponse, Some (GoErr ''[Fluxnetes] Error in ReapiCliMatchAllocate''))
          | None \<Rightarrow>
              let haveAllocation = (ml_allocated m \<noteq> [])
              in bind_outcome
                   (if haveAllocation
                    then bind_outcome (ParseAllocResult (json_parse F) (ml_allocated m))
                           (node_allocs (sint (ps_Cpu (mr_Podspec req))))
                    else Returns [])
                   (\<lambda>nodelist. Returns
                      (\<lparr>mp_FluxID = ml_jobid m, mp_Nodelist = nodelist, mp_Reserved = ml_reserved m,
                        mp_ReservedAt = ml_at m, mp_Allocated = haveAllocation\<rparr>, None)))"

definition Cancel :: "fluxcli \<Rightarrow> CancelRequest \<Rightarrow> CancelResponse option \<times> goerror option" where
  "Cancel F req =
     (case cli_Cancel F (sint (cr_FluxID req)) (cr_NoExistOK req) of
        Some e \<Rightarrow> (None, Some e)
      | None \<Rightarrow> (Some \<lparr>cp_FluxID = cr_FluxID req, cp_Error = 0\<rparr>, None))"

text \<open>\<open>InitFluxion\<close>: the options given to the library, from the match policy.\<close>

definition match_options :: "string \<Rightarrow> string" where
  "match_options policy =
     (if policy \<noteq> [] then ''{\"matcher_policy\": \"'' @ policy @ ''\"}'' else ''{}'')"

section \<open>What the node list says\<close>

text \<open>
  A vertex of the allocation graph, and what it is for a parsed graph to give the vertices: objects
  and members the code does not look at are free.
\<close>

record vertex =
  v_type :: string
  v_name :: string
  v_basename :: string

fun json_member :: "json \<Rightarrow> string \<Rightarrow> json option" where
  "json_member (JObj o') k = map_of o' k"
| "json_member _ k = None"

lemma json_member_Some: "json_member j k = Some x \<longleftrightarrow> (\<exists>o'. j = JObj o' \<and> map_of o' k = Some x)"
  by (cases j) auto

definition reads_vertex :: "json \<Rightarrow> vertex \<Rightarrow> bool" where
  "reads_vertex j v \<longleftrightarrow>
     (case json_member j ''metadata'' of
        None \<Rightarrow> False
      | Some md \<Rightarrow> json_member md ''type'' = Some (JStr (v_type v)) \<and>
          (v_type v = ''node'' \<longrightarrow> json_member md ''name'' = Some (JStr (v_name v)) \<and>
             json_member md ''basename'' = Some (JStr (v_basename v))))"

definition reads_graph :: "json \<Rightarrow> vertex list \<Rightarrow> bool" where
  "reads_graph j vs \<longleftrightarrow>
     (case json_member j ''graph'' of
        None \<Rightarrow> False
      | Some g \<Rightarrow> (case json_member g ''nodes'' of Some (JArr xs) \<Rightarrow> list_all2 reads_vertex xs vs | _ \<Rightarrow> False))"

text \<open>A graph with just those members, and what it lists: the hosts of the vertices of type node, in
  order, each with the number of vertices of type core between the node before it and the node.
  Vertices of any other type may stand anywhere.\<close>

definition vertex_json :: "vertex \<Rightarrow> json" where
  "vertex_json v =
     JObj [(''metadata'', JObj [(''type'', JStr (v_type v)), (''name'', JStr (v_name v)),
                               (''basename'', JStr (v_basename v))])]"

definition graph_json :: "vertex list \<Rightarrow> json" where
  "graph_json vs = JObj [(''graph'', JObj [(''nodes'', JArr (map vertex_json vs))])]"

lemma graph_json_reads: "reads_graph (graph_json vs) vs"
  by (simp add: reads_graph_def graph_json_def list_all2_conv_all_nth reads_vertex_def vertex_json_def)

fun lists_nodes :: "vertex list \<Rightarrow> (string \<times> nat) list \<Rightarrow> bool" where
  "lists_nodes vs [] \<longleftrightarrow> (\<forall>v \<in> set vs. v_type v \<noteq> ''node'')"
| "lists_nodes vs ((host, n) # hs) \<longleftrightarrow>
     (case dropWhile (\<lambda>v. v_type v \<noteq> ''node'') vs of
        [] \<Rightarrow> False
      | v # rest \<Rightarrow> v_basename v = host \<and>
          length (filter (\<lambda>u. v_type u = ''core'') (takeWhile (\<lambda>v. v_type v \<noteq> ''node'') vs)) = n \<and>
          lists_nodes rest hs)"

fun cores_per_node :: "vertex list \<Rightarrow> int \<Rightarrow> (vertex \<times> int) list" where
  "cores_per_node [] k = []"
| "cores_per_node (v # vs) k =
     (if v_type v = CoreType then cores_per_node vs (k + 1)
      else if v_type v = NodeType then (v, k) # cores_per_node vs 0
      else cores_per_node vs k)"

definition to_allocation :: "vertex \<times> int \<Rightarrow> allocation" where
  "to_allocation vk = \<lparr>al_Type = v_type (fst vk), al_Name = v_name (fst vk),
     al_Basename = v_basename (fst vk), al_CoreCount = snd vk\<rparr>"

lemma types_differ: "CoreType \<noteq> NodeType"
  by (simp add: CoreType_def NodeType_def)

lemma alloc_loop_vertices:
  assumes "list_all2 reads_vertex xs vs"
  shows "alloc_loop xs k acc = Returns (acc @ map to_allocation (cores_per_node vs k))"
  using assms
proof (induction arbitrary: k acc rule: list_all2_induct)
  case (Cons x xs v vs)
  from Cons(1) obtain o' md where "x = JObj o'" "map_of o' ''metadata'' = Some (JObj md)"
    "map_of md ''type'' = Some (JStr (v_type v))"
    "v_type v = ''node'' \<longrightarrow> map_of md ''name'' = Some (JStr (v_name v)) \<and> map_of md ''basename'' = Some (JStr (v_basename v))"
    by (auto simp: reads_vertex_def json_member_Some split: option.splits)
  then show ?case using Cons(3) by (auto simp: Let_def to_allocation_def CoreType_def NodeType_def)
qed simp

lemma ParseAllocResult_vertices:
  assumes "parse s = Some j" and "reads_graph j vs"
  shows "ParseAllocResult parse s = Returns (map to_allocation (cores_per_node vs 0))"
proof -
  obtain o' g xs where "j = JObj o'" "map_of o' ''graph'' = Some (JObj g)" "map_of g ''nodes'' = Some (JArr xs)"
    "list_all2 reads_vertex xs vs"
    using assms(2) by (auto simp: reads_graph_def json_member_Some split: option.splits json.splits)
  then show ?thesis using assms(1) alloc_loop_vertices [of xs vs 0 "[]"] by (simp add: ParseAllocResult_def)
qed

lemma node_allocs_returns:
  "cpu \<noteq> 0 \<Longrightarrow> node_allocs cpu rs = Returns (map (\<lambda>r. \<lparr>na_NodeID = al_Basename r,
     na_Tasks = wrap32 (go_div (wrap32 (al_CoreCount r)) cpu)\<rparr>) rs)"
  by (induction rs) (auto simp: node_alloc_def)

lemma node_allocs_zero_panics:
  "rs \<noteq> [] \<Longrightarrow> node_allocs 0 rs = Panics ''integer divide by zero''"
  by (cases rs) (auto simp: node_alloc_def)

lemma cores_per_node_nodes:
  "map fst (cores_per_node vs k) = filter (\<lambda>v. v_type v = NodeType) vs"
  by (induction vs arbitrary: k) (auto simp: types_differ types_differ [symmetric])

lemma cores_per_node_dropWhile:
  "cores_per_node vs k =
    (case dropWhile (\<lambda>v. v_type v \<noteq> ''node'') vs of
       [] \<Rightarrow> []
     | v # rest \<Rightarrow>
         (v, k + int (length (filter (\<lambda>u. v_type u = ''core'') (takeWhile (\<lambda>v. v_type v \<noteq> ''node'') vs)))) # cores_per_node rest 0)"
proof (induction vs arbitrary: k)
  case (Cons v vs)
  then show ?case by (auto simp: CoreType_def NodeType_def simp del: dropWhile_eq_Nil_conv split: list.split)
qed simp

lemma lists_nodes_cores:
  "lists_nodes vs hs \<Longrightarrow> map (\<lambda>(v, k). (v_basename v, k)) (cores_per_node vs 0) = map (\<lambda>(host, n). (host, int n)) hs"
proof (induction vs hs rule: lists_nodes.induct)
  case (1 vs)
  then have "dropWhile (\<lambda>v. v_type v \<noteq> ''node'') vs = []" by simp
  then show ?case by (subst cores_per_node_dropWhile) (simp only: list.case list.map)
next
  case (2 vs host n hs)
  then obtain v rest where "dropWhile (\<lambda>v. v_type v \<noteq> ''node'') vs = v # rest" "v_basename v = host"
    "length (filter (\<lambda>u. v_type u = ''core'') (takeWhile (\<lambda>v. v_type v \<noteq> ''node'') vs)) = n" "lists_nodes rest hs"
    by (auto split: list.splits)
  moreover from this have "map (\<lambda>(v, k). (v_basename v, k)) (cores_per_node rest 0) = map (\<lambda>(host, n). (host, int n)) hs"
    using 2(1) by simp
  ultimately show ?case by (subst cores_per_node_dropWhile) simp
qed

end
