(* ===== verification/JGF.thy ===== *)
theory JGF
  imports Kube
begin

text \<open>
  The resource graph, \<open>src/fluxnetes/pkg/jgf/jgf.go\<close> and \<open>types.go\<close>: a graph under construction
  with its counters, and the functions that add vertices and edges to it. A Go map is an
  association list updated in place. Counters are mathematical integers: a graph with $2^{63}$
  vertices does not fit in memory.
\<close>

section \<open>State\<close>

record nodeMetadata =
  nm_Type :: string
  nm_Basename :: string
  nm_Name :: string
  nm_Id :: int
  nm_Uniq_id :: int
  nm_Rank :: int
  nm_Exclusive :: bool
  nm_Unit :: string
  nm_Size :: int
  nm_Paths :: "(string \<times> string) list"

record Node =
  n_Id :: string
  n_Metadata :: nodeMetadata

record edge =
  e_Source :: string
  e_Target :: string
  e_Name :: "(string \<times> string) list"

record FluxJGF =
  g_Nodes :: "Node list"
  g_Edges :: "edge list"
  g_NodeMap :: "(string \<times> Node) list"
  g_counts :: "(string \<times> int) list"
  g_Elements :: int
  g_RootName :: string

record ResourceCount =
  rc_Name :: string
  rc_Type :: string
  rc_ElementId :: int
  rc_Index :: int

definition ContainsRelation :: string where "ContainsRelation = ''contains''"
definition InRelation :: string where "InRelation = ''in''"
definition containmentKey :: string where "containmentKey = ''containment''"

section \<open>Counters\<close>

definition NameWithIndex :: "ResourceCount \<Rightarrow> string" where
  "NameWithIndex r = rc_Name r @ show_int (rc_Index r)"

definition StringElementId :: "ResourceCount \<Rightarrow> string" where
  "StringElementId r = show_int (rc_ElementId r)"

definition StringResourceIndex :: "ResourceCount \<Rightarrow> string" where
  "StringResourceIndex r = show_int (rc_Index r)"

definition NextIndex :: "FluxJGF \<Rightarrow> int \<times> FluxJGF" where
  "NextIndex g = (let nextIndex = g_Elements g in (nextIndex, g\<lparr>g_Elements := nextIndex + 1\<rparr>))"

definition NextResourceIndex :: "string \<Rightarrow> FluxJGF \<Rightarrow> int \<times> FluxJGF" where
  "NextResourceIndex resourceType g =
     (let nextIndex = (case map_of (g_counts g) resourceType of None \<Rightarrow> 0 | Some i \<Rightarrow> i)
      in (nextIndex, g\<lparr>g_counts := AList.update resourceType (nextIndex + 1) (g_counts g)\<rparr>))"

definition getCounter :: "string \<Rightarrow> string \<Rightarrow> FluxJGF \<Rightarrow> ResourceCount \<times> FluxJGF" where
  "getCounter resourceName resourceType g0 =
     (let (idx, g1) = NextResourceIndex resourceName g0;
          (eid, g2) = NextIndex g1
      in (\<lparr>rc_Name = resourceName, rc_Type = resourceType, rc_ElementId = eid, rc_Index = idx\<rparr>, g2))"

section \<open>Vertices and edges\<close>

definition NewFluxJGF :: FluxJGF where
  "NewFluxJGF = \<lparr>g_Nodes = [], g_Edges = [], g_NodeMap = [], g_counts = [(''cluster'', 1)],
     g_Elements = 0, g_RootName = []\<rparr>"

definition getNodePath :: "string \<Rightarrow> string \<Rightarrow> string" where
  "getNodePath root subpath =
     filepath_Clean (if subpath = [] then ''/'' @ root else ''/'' @ root @ ''/'' @ subpath)"

definition getContainmentPath :: "FluxJGF \<Rightarrow> string \<Rightarrow> (string \<times> string) list" where
  "getContainmentPath g subpath = [(containmentKey, getNodePath (g_RootName g) subpath)]"

definition MakeEdge :: "string \<Rightarrow> string \<Rightarrow> string \<Rightarrow> FluxJGF \<Rightarrow> FluxJGF" where
  "MakeEdge source target contains g =
     g\<lparr>g_Edges := g_Edges g @
        [\<lparr>e_Source = source, e_Target = target, e_Name = [(containmentKey, contains)]\<rparr>]\<rparr>"

definition MakeBidirectionalEdge :: "string \<Rightarrow> string \<Rightarrow> FluxJGF \<Rightarrow> FluxJGF" where
  "MakeBidirectionalEdge parent child g =
     MakeEdge child parent InRelation (MakeEdge parent child ContainsRelation g)"

definition makeNewNode :: "ResourceCount \<Rightarrow> string \<Rightarrow> string \<Rightarrow> int \<Rightarrow> FluxJGF \<Rightarrow> Node \<times> FluxJGF" where
  "makeNewNode resource subpath unit sz g =
     (let newNode =
        \<lparr>n_Id = StringElementId resource,
         n_Metadata = \<lparr>nm_Type = rc_Type resource, nm_Basename = rc_Name resource,
           nm_Name = NameWithIndex resource, nm_Id = rc_Index resource,
           nm_Uniq_id = rc_ElementId resource, nm_Rank = - 1, nm_Exclusive = False,
           nm_Unit = unit, nm_Size = sz, nm_Paths = getContainmentPath g subpath\<rparr>\<rparr>
      in (newNode, g\<lparr>g_Nodes := g_Nodes g @ [newNode],
                     g_NodeMap := AList.update (n_Id newNode) newNode (g_NodeMap g)\<rparr>))"

definition MakeSubnet :: "string \<Rightarrow> int \<Rightarrow> FluxJGF \<Rightarrow> Node \<times> FluxJGF" where
  "MakeSubnet name index g0 =
     (let (resource, g) = getCounter name ''subnet'' g0;
          resource = resource\<lparr>rc_Index := index\<rparr>;
          subpath = NameWithIndex resource
      in makeNewNode resource subpath [] 1 g)"

definition MakeNode :: "string \<Rightarrow> string \<Rightarrow> int \<Rightarrow> FluxJGF \<Rightarrow> Node \<times> FluxJGF" where
  "MakeNode name subpath index g0 =
     (let (resource, g) = getCounter name ''node'' g0;
          resource = resource\<lparr>rc_Index := index\<rparr>;
          subpath = subpath @ ''/'' @ NameWithIndex resource
      in makeNewNode resource subpath [] 1 g)"

definition MakeCore :: "string \<Rightarrow> string \<Rightarrow> int \<Rightarrow> FluxJGF \<Rightarrow> Node \<times> FluxJGF" where
  "MakeCore name subpath index g0 =
     (let (resource, g) = getCounter name ''core'' g0;
          resource = resource\<lparr>rc_Index := index\<rparr>;
          subpath = subpath @ ''/'' @ NameWithIndex resource
      in makeNewNode resource subpath [] 1 g)"

definition MakeMemory :: "string \<Rightarrow> string \<Rightarrow> int \<Rightarrow> int \<Rightarrow> FluxJGF \<Rightarrow> Node \<times> FluxJGF" where
  "MakeMemory name subpath sz index g0 =
     (let (resource, g) = getCounter name ''memory'' g0;
          resource = resource\<lparr>rc_Index := index\<rparr>;
          subpath = subpath @ ''/'' @ NameWithIndex resource
      in makeNewNode resource subpath ''MB'' sz g)"

definition MakeGPU :: "string \<Rightarrow> string \<Rightarrow> int \<Rightarrow> int \<Rightarrow> FluxJGF \<Rightarrow> Node \<times> FluxJGF" where
  "MakeGPU name subpath sz index g0 =
     (let (resource, g) = getCounter name ''gpu'' g0;
          resource = resource\<lparr>rc_Index := index\<rparr>;
          subpath = subpath @ ''/'' @ NameWithIndex resource
      in makeNewNode resource subpath [] sz g)"

definition InitCluster :: "string \<Rightarrow> FluxJGF \<Rightarrow> (goerror + Node) \<times> FluxJGF" where
  "InitCluster name g0 =
     (if 0 < g_Elements g0
      then (Inl (GoErr ''init can only be called for a new cluster''), g0)
      else let g1 = g0\<lparr>g_RootName := name @ ''0''\<rparr>;
               (resource, g2) = getCounter name ''cluster'' g1;
               (node, g3) = makeNewNode resource [] [] 1 g2
           in (Inr node, g3))"

section \<open>Writing the graph\<close>

text \<open>
  The contents of the files by path, and what may go wrong: \<open>json.MarshalIndent\<close> (the text of a
  graph, or the error) and the errors of \<open>os.Create\<close>, of \<open>Write\<close> and of \<open>os.ReadFile\<close>. Every failure
  here ends in \<open>log.Fatalf\<close>, which exits the process.
\<close>

type_synonym files = "string \<rightharpoonup> string"

record file_io =
  marshal_indent :: "FluxJGF \<Rightarrow> goerror + string"
  os_create :: "string \<Rightarrow> goerror option"
  file_write :: "string \<Rightarrow> string \<Rightarrow> goerror option"
  os_read :: "string \<Rightarrow> goerror option"

definition ToBytes :: "file_io \<Rightarrow> FluxJGF \<Rightarrow> string outcome" where
  "ToBytes io g = (case marshal_indent io g of
     Inl e \<Rightarrow> Panics ''[JGF] json.Marshal failed''
   | Inr txt \<Rightarrow> Returns txt)"

definition WriteJGF :: "file_io \<Rightarrow> string \<Rightarrow> FluxJGF \<Rightarrow> files \<Rightarrow> files outcome" where
  "WriteJGF io path g fs =
     bind_outcome (ToBytes io g) (\<lambda>encodedJGF.
       if os_create io path \<noteq> None then Panics ''[JGF] Couldn't create JGF file!!''
       else if file_write io path encodedJGF \<noteq> None then Panics ''[JGF] Couldn't write JGF file!!''
       else Returns (fs(path \<mapsto> encodedJGF)))"

section \<open>The graph is a tree\<close>

text \<open>\<open>added g (nd, g')\<close>: one new vertex, with the next element number as its id.\<close>

definition added :: "FluxJGF \<Rightarrow> Node \<times> FluxJGF \<Rightarrow> bool" where
  "added g r \<longleftrightarrow> n_Id (fst r) = show_int (g_Elements g) \<and>
     g_Nodes (snd r) = g_Nodes g @ [fst r] \<and> g_Edges (snd r) = g_Edges g \<and>
     g_NodeMap (snd r) = AList.update (n_Id (fst r)) (fst r) (g_NodeMap g) \<and>
     g_Elements (snd r) = g_Elements g + 1 \<and> g_RootName (snd r) = g_RootName g"

lemmas make_defs = MakeSubnet_def MakeNode_def MakeCore_def MakeMemory_def MakeGPU_def
  makeNewNode_def getCounter_def NextResourceIndex_def NextIndex_def StringElementId_def Let_def

lemma added_Make:
  "added g (MakeSubnet name index g)"
  "added g (MakeNode name subpath index g)"
  "added g (MakeCore name subpath index g)"
  "added g (MakeMemory name subpath sz index g)"
  "added g (MakeGPU name subpath sz index g)"
  by (simp_all add: added_def make_defs)

definition node_path :: "Node \<Rightarrow> string option" where
  "node_path nd = map_of (nm_Paths (n_Metadata nd)) containmentKey"

lemma Make_path:
  "node_path (fst (MakeSubnet name index g)) =
     Some (getNodePath (g_RootName g) (name @ show_int index))"
  "node_path (fst (MakeNode name subpath index g)) =
     Some (getNodePath (g_RootName g) (subpath @ ''/'' @ name @ show_int index))"
  "node_path (fst (MakeCore name subpath index g)) =
     Some (getNodePath (g_RootName g) (subpath @ ''/'' @ name @ show_int index))"
  "node_path (fst (MakeMemory name subpath sz index g)) =
     Some (getNodePath (g_RootName g) (subpath @ ''/'' @ name @ show_int index))"
  "node_path (fst (MakeGPU name subpath sz index g)) =
     Some (getNodePath (g_RootName g) (subpath @ ''/'' @ name @ show_int index))"
  by (simp_all add: node_path_def make_defs NameWithIndex_def getContainmentPath_def)

lemma Make_name:
  "nm_Name (n_Metadata (fst (MakeSubnet name index g))) = name @ show_int index"
  "nm_Name (n_Metadata (fst (MakeNode name subpath index g))) = name @ show_int index"
  "nm_Name (n_Metadata (fst (MakeCore name subpath index g))) = name @ show_int index"
  "nm_Name (n_Metadata (fst (MakeMemory name subpath sz index g))) = name @ show_int index"
  "nm_Name (n_Metadata (fst (MakeGPU name subpath sz index g))) = name @ show_int index"
  by (simp_all add: make_defs NameWithIndex_def)

text \<open>
  \<open>tree_ok ps g\<close>: vertex 0 is the root, vertex \<open>k + 1\<close> has the one parent \<open>ps ! k\<close>, which was
  made before it; ids number the vertices in order, the node map holds exactly the vertices,
  and the edges are the \<open>contains\<close>/\<open>in\<close> pairs of the tree.
\<close>

definition link_edges :: "nat \<Rightarrow> nat \<Rightarrow> edge list" where
  "link_edges p c =
     [\<lparr>e_Source = show_int (int p), e_Target = show_int (int c),
       e_Name = [(containmentKey, ContainsRelation)]\<rparr>,
      \<lparr>e_Source = show_int (int c), e_Target = show_int (int p),
       e_Name = [(containmentKey, InRelation)]\<rparr>]"

definition tree_ok :: "nat list \<Rightarrow> FluxJGF \<Rightarrow> bool" where
  "tree_ok ps g \<longleftrightarrow>
     g_Elements g = int (length (g_Nodes g)) \<and> length (g_Nodes g) = Suc (length ps) \<and>
     map n_Id (g_Nodes g) = map (\<lambda>k. show_int (int k)) [0..<length (g_Nodes g)] \<and>
     g_NodeMap g = map (\<lambda>nd. (n_Id nd, nd)) (g_Nodes g) \<and>
     (\<forall>k < length ps. ps ! k \<le> k) \<and>
     g_Edges g = concat (map (\<lambda>k. link_edges (ps ! k) (Suc k)) [0..<length ps])"

definition attach :: "Node \<Rightarrow> Node \<times> FluxJGF \<Rightarrow> FluxJGF" where
  "attach parent r = MakeBidirectionalEdge (n_Id parent) (n_Id (fst r)) (snd r)"

lemma attach_simps:
  "g_Nodes (attach p r) = g_Nodes (snd r)" "g_Elements (attach p r) = g_Elements (snd r)"
  "g_NodeMap (attach p r) = g_NodeMap (snd r)" "g_RootName (attach p r) = g_RootName (snd r)"
  by (simp_all add: attach_def MakeBidirectionalEdge_def MakeEdge_def)

lemma tree_ok_id: "tree_ok ps g \<Longrightarrow> i < length (g_Nodes g) \<Longrightarrow> n_Id (g_Nodes g ! i) = show_int (int i)"
  unfolding tree_ok_def by (metis (no_types, lifting) add.left_neutral length_map nth_map nth_upt)

lemma AList_update_fresh: "k \<notin> fst ` set kvs \<Longrightarrow> AList.update k v kvs = kvs @ [(k, v)]"
  by (induction kvs) auto

lemma tree_ok_attach:
  assumes ok: "tree_ok ps g" and new: "added g r"
    and p: "p < length (g_Nodes g)" "n_Id parent = show_int (int p)"
  shows "tree_ok (ps @ [p]) (attach parent r)"
proof -
  let ?n = "length (g_Nodes g)"
  have n: "?n = Suc (length ps)" "g_Elements g = int ?n" using ok by (simp_all add: tree_ok_def)
  have "\<And>k. k < ?n \<Longrightarrow> show_int (int k) \<noteq> show_int (int ?n)" by (auto dest: show_int_inj)
  then have "show_int (int ?n) \<notin> n_Id ` set (g_Nodes g)"
    using tree_ok_id [OF ok] by (fastforce simp: in_set_conv_nth)
  then have "g_NodeMap (snd r) = map (\<lambda>nd. (n_Id nd, nd)) (g_Nodes g @ [fst r])"
    using ok new n by (simp add: added_def tree_ok_def AList_update_fresh image_image)
  moreover have "concat (map (\<lambda>k. link_edges ((ps @ [p]) ! k) (Suc k)) [0..<length ps]) = g_Edges g"
    using ok by (auto simp: tree_ok_def nth_append intro!: arg_cong [of _ _ concat])
  moreover have "g_Edges (attach parent r) = g_Edges g @ link_edges p (Suc (length ps))"
    using new p n by (simp add: attach_def MakeBidirectionalEdge_def MakeEdge_def link_edges_def added_def)
  moreover have "\<forall>k < Suc (length ps). (ps @ [p]) ! k \<le> k"
    using ok p n by (auto simp: tree_ok_def nth_append less_Suc_eq)
  ultimately show ?thesis using ok new n
    by (simp add: tree_ok_def attach_simps added_def)
qed

lemma InitCluster_tree:
  assumes "InitCluster name NewFluxJGF = (Inr root, g)"
  shows "tree_ok [] g \<and> n_Id root = show_int 0 \<and> g_Nodes g = [root] \<and>
    g_RootName g = name @ ''0'' \<and> node_path root = Some (getNodePath (name @ ''0'') [])"
  using assms
  by (auto simp: InitCluster_def NewFluxJGF_def make_defs tree_ok_def node_path_def getContainmentPath_def)

lemma InitCluster_new: "\<exists>root g. InitCluster name NewFluxJGF = (Inr root, g)"
  by (simp add: InitCluster_def NewFluxJGF_def make_defs)

text \<open>Containment paths of plain elements are the elements joined by slashes.\<close>

lemma getNodePath_plain:
  assumes "plain_element root" and "\<forall>e \<in> set es. plain_element e" and "es \<noteq> []"
  shows "getNodePath root (strings_Join es ''/'') = ''/'' @ strings_Join (root # es) ''/''"
proof -
  obtain e es' where es: "es = e # es'" using assms(3) by (cases es) auto
  have ne: "strings_Join es ''/'' \<noteq> []"
    using assms(2) es by (cases es') (auto simp: plain_element_def)
  have "filepath_Clean (''/'' @ strings_Join (root # es) ''/'') = ''/'' @ strings_Join (root # es) ''/''"
    by (rule filepath_Clean_plain) (use assms in auto)
  then show ?thesis using ne es by (simp add: getNodePath_def)
qed

end
