(* ===== verification/Cluster.thy ===== *)
theory Cluster
  imports JGF Proto
begin

text \<open>
  The functions of \<open>src/fluxnetes/pkg/utils/utils.go\<close> that read the cluster: the summary of the
  running pods by node, the totals of the requests of a node's pods, and the resource graph of
  the schedulable nodes. The Kubernetes client and \<open>resource.Quantity\<close> are parameters. The
  lemmas show which tree the graph is, vertex by vertex: it has one subnet vertex for every
  schedulable node, also where nodes share a zone, which the source's comments do not want.
\<close>

section \<open>The API objects\<close>

record 'q quantity_ops =
  q_Value :: "'q \<Rightarrow> int"
  q_MilliValue :: "'q \<Rightarrow> int"
  q_Add :: "'q \<Rightarrow> 'q \<Rightarrow> 'q"
  q_zero :: 'q

record 'q cluster_node =
  cn_Name :: string
  cn_Labels :: go_map
  cn_Unschedulable :: bool
  cn_Allocatable :: "(string \<times> 'q) list"

record ('p, 'q) cluster_client =
  InClusterConfig_error :: "goerror option"
  NewForConfig_error :: "goerror option"
  list_nodes :: "goerror + 'q cluster_node list"
  ParseSelector :: "string \<Rightarrow> goerror + string"
  list_pods :: "string \<Rightarrow> goerror + 'p list"
  PodRequestsAndLimits :: "'p \<Rightarrow> (string \<times> 'q) list"

section \<open>RegisterExisting\<close>

record utils_PodSpec =
  us_Id :: string
  us_Container :: string
  us_Cpu :: int32
  us_Memory :: int64
  us_Gpu :: int64
  us_Storage :: int64
  us_Labels :: "string list"

definition empty_summary :: utils_PodSpec where
  "empty_summary = \<lparr>us_Id = [], us_Container = [], us_Cpu = 0, us_Memory = 0, us_Gpu = 0,
     us_Storage = 0, us_Labels = []\<rparr>"

definition add_container :: "container \<Rightarrow> utils_PodSpec \<Rightarrow> utils_PodSpec" where
  "add_container c ps =
     ps\<lparr>us_Cpu := us_Cpu ps + ucast (cpu_request c),
        us_Memory := us_Memory ps + memory_request c,
        us_Storage := us_Storage ps + storage_request c,
        us_Gpu := us_Gpu ps + gpu_limit c\<rparr>"

definition register_pod ::
  "pod \<Rightarrow> (string \<times> utils_PodSpec) list \<Rightarrow> (string \<times> utils_PodSpec) list" where
  "register_pod p nodes =
     (let nodes = (case map_of nodes (NodeName p) of
                     None \<Rightarrow> AList.update (NodeName p) empty_summary nodes
                   | Some _ \<Rightarrow> nodes);
          ps = (case map_of nodes (NodeName p) of None \<Rightarrow> empty_summary | Some ps \<Rightarrow> ps)
      in AList.update (NodeName p) (fold add_container (Containers p) ps) nodes)"

definition RegisterExisting ::
  "goerror + pod list \<Rightarrow> (string \<times> utils_PodSpec) list \<times> goerror option" where
  "RegisterExisting pods =
     (case pods of
        Inl e \<Rightarrow> ([], Some e)
      | Inr items \<Rightarrow> (fold register_pod items [], None))"

definition node_containers :: "string \<Rightarrow> pod list \<Rightarrow> container list" where
  "node_containers n pods = concat (map Containers (filter (\<lambda>p. NodeName p = n) pods))"

lemma map_of_register_pod:
  "map_of (register_pod p nodes) n =
     (if n = NodeName p
      then Some (fold add_container (Containers p)
             (case map_of nodes n of None \<Rightarrow> empty_summary | Some ps \<Rightarrow> ps))
      else map_of nodes n)"
  by (auto simp: register_pod_def Let_def AList.update_conv' split: option.splits)

lemma map_of_fold_register_pod:
  "map_of (fold register_pod pods nodes) n =
     (if n \<in> NodeName ` set pods
      then Some (fold add_container (node_containers n pods)
             (case map_of nodes n of None \<Rightarrow> empty_summary | Some ps \<Rightarrow> ps))
      else map_of nodes n)"
proof (induction pods arbitrary: nodes)
  case Nil
  then show ?case by simp
next
  case (Cons p pods)
  have none: "node_containers n pods = []" if "n \<notin> NodeName ` set pods"
  proof -
    have "filter (\<lambda>p. NodeName p = n) pods = []" using that by (auto simp: filter_empty_conv)
    then show ?thesis by (simp add: node_containers_def)
  qed
  have step: "node_containers n (p # pods) =
      (if NodeName p = n then Containers p else []) @ node_containers n pods"
    by (simp add: node_containers_def)
  show ?case
    by (cases "n \<in> NodeName ` set pods"; cases "NodeName p = n")
      (simp_all add: Cons.IH map_of_register_pod step none)
qed

lemma fold_add_container:
  "us_Memory (fold add_container cs ps) = us_Memory ps + sum_list (map memory_request cs)"
  "us_Storage (fold add_container cs ps) = us_Storage ps + sum_list (map storage_request cs)"
  "us_Gpu (fold add_container cs ps) = us_Gpu ps + sum_list (map gpu_limit cs)"
  "us_Cpu (fold add_container cs ps) = us_Cpu ps + sum_list (map (ucast \<circ> cpu_request) cs)"
  by (induction cs arbitrary: ps) (simp_all add: add_container_def algebra_simps)

section \<open>The requests of a node's pods\<close>

definition add_requests ::
  "('p, 'q) cluster_client \<Rightarrow> 'q quantity_ops \<Rightarrow> 'p \<Rightarrow> (string \<times> 'q) list \<Rightarrow> (string \<times> 'q) list" where
  "add_requests api q p totals =
     fold (\<lambda>(podReqName, podReqValue) totals.
             case map_of totals podReqName of
               None \<Rightarrow> AList.update podReqName podReqValue totals
             | Some v \<Rightarrow> AList.update podReqName (q_Add q v podReqValue) totals)
       (PodRequestsAndLimits api p) totals"

definition computeTotalRequests ::
  "('p, 'q) cluster_client \<Rightarrow> 'q quantity_ops \<Rightarrow> 'p list \<Rightarrow> (string \<times> 'q) list" where
  "computeTotalRequests api q podList = fold (add_requests api q) podList []"

section \<open>The graph\<close>

definition controlPlaneLabel :: string where
  "controlPlaneLabel = ''node-role.kubernetes.io/control-plane''"

definition defaultClusterName :: string where "defaultClusterName = ''k8scluster''"

definition zoneLabel :: string where "zoneLabel = ''topology.kubernetes.io/zone''"

record build =
  b_graph :: FluxJGF
  b_subnetLookup :: "(string \<times> Node) list"
  b_subnetCounter :: int
  b_totalAllocCpu :: int

definition skip_node :: "string \<Rightarrow> 'q cluster_node \<Rightarrow> bool" where
  "skip_node skipLabel node \<longleftrightarrow>
     map_get (cn_Labels node) controlPlaneLabel \<noteq> None \<or>
     (skipLabel \<noteq> [] \<and> map_get (cn_Labels node) skipLabel \<noteq> None) \<or>
     cn_Unschedulable node"

definition node_selector :: "'q cluster_node \<Rightarrow> string" where
  "node_selector node = ''spec.nodeName='' @ cn_Name node @ '',status.phase!=Succeeded,status.phase!=Failed''"

definition quantity_of :: "'q quantity_ops \<Rightarrow> (string \<times> 'q) list \<Rightarrow> string \<Rightarrow> 'q" where
  "quantity_of q m name = (case map_of m name of None \<Rightarrow> q_zero q | Some v \<Rightarrow> v)"

definition availCpu_of :: "('p, 'q) cluster_client \<Rightarrow> 'q quantity_ops \<Rightarrow> 'q cluster_node \<Rightarrow> 'p list \<Rightarrow> int" where
  "availCpu_of api q node pods =
     (let reqs = computeTotalRequests api q pods;
          totalCpu = q_MilliValue q (quantity_of q (cn_Allocatable node) ''cpu'')
      in go_div (wrap64 (totalCpu - q_MilliValue q (quantity_of q reqs ''cpu''))) 1000)"

definition availMem_of :: "('p, 'q) cluster_client \<Rightarrow> 'q quantity_ops \<Rightarrow> 'q cluster_node \<Rightarrow> 'p list \<Rightarrow> int" where
  "availMem_of api q node pods =
     (let reqs = computeTotalRequests api q pods;
          totalMem = q_Value q (quantity_of q (cn_Allocatable node) ''memory'')
      in wrap64 (totalMem - q_Value q (quantity_of q reqs ''memory'')))"

definition gpus_of :: "'q quantity_ops \<Rightarrow> 'q cluster_node \<Rightarrow> nat" where
  "gpus_of q node =
     (case map_of (cn_Allocatable node) ''nvidia.com/gpu'' of
        None \<Rightarrow> 0
      | Some gpuAllocatable \<Rightarrow> nat (q_Value q gpuAllocatable))"

text \<open>The three loops that add the children of a compute node; \<open>n\<close> iterations.\<close>

definition add_gpus :: "Node \<Rightarrow> Node \<Rightarrow> nat \<Rightarrow> FluxJGF \<Rightarrow> FluxJGF" where
  "add_gpus subnetNode computeNode n g0 =
     fold (\<lambda>index g.
       let subpath = nm_Name (n_Metadata subnetNode) @ ''/'' @ nm_Name (n_Metadata computeNode);
           (gpuNode, g) = MakeGPU ''nvidiagpu'' subpath 1 (int index) g
       in MakeBidirectionalEdge (n_Id computeNode) (n_Id gpuNode) g) [0..<n] g0"

definition add_cores :: "Node \<Rightarrow> Node \<Rightarrow> nat \<Rightarrow> FluxJGF \<Rightarrow> FluxJGF" where
  "add_cores subnetNode computeNode n g0 =
     fold (\<lambda>index g.
       let subpath = nm_Name (n_Metadata subnetNode) @ ''/'' @ nm_Name (n_Metadata computeNode);
           (coreNode, g) = MakeCore ''core'' subpath (int index) g
       in MakeBidirectionalEdge (n_Id computeNode) (n_Id coreNode) g) [0..<n] g0"

definition add_memory :: "Node \<Rightarrow> Node \<Rightarrow> nat \<Rightarrow> FluxJGF \<Rightarrow> FluxJGF" where
  "add_memory subnetNode computeNode n g0 =
     fold (\<lambda>i g.
       let subpath = nm_Name (n_Metadata subnetNode) @ ''/'' @ nm_Name (n_Metadata computeNode);
           (memoryNode, g) = MakeMemory ''memory'' subpath 1024 (int i) g
       in MakeBidirectionalEdge (n_Id computeNode) (n_Id memoryNode) g) [0..<n] g0"

definition add_node ::
  "('p, 'q) cluster_client \<Rightarrow> 'q quantity_ops \<Rightarrow> Node \<Rightarrow> nat \<Rightarrow> 'q cluster_node \<Rightarrow> 'p list \<Rightarrow> build \<Rightarrow> build"
where
  "add_node api q clusterNode nodeCount node pods b =
     (let subnetName = map_get_zero (cn_Labels node) zoneLabel;
          (subnetNode, g, counter) =
            (case map_of (b_subnetLookup b) subnetName of
               Some subnetNode \<Rightarrow> (subnetNode, b_graph b, b_subnetCounter b)
             | None \<Rightarrow>
                 (let (subnetNode, g) = MakeSubnet subnetName (b_subnetCounter b) (b_graph b)
                  in (subnetNode, MakeBidirectionalEdge (n_Id clusterNode) (n_Id subnetNode) g,
                      b_subnetCounter b + 1)));
          availCpu = availCpu_of api q node pods;
          availMem = availMem_of api q node pods;
          (computeNode, g) = MakeNode (cn_Name node) (nm_Name (n_Metadata subnetNode)) (int nodeCount) g;
          g = MakeBidirectionalEdge (n_Id subnetNode) (n_Id computeNode) g;
          g = add_gpus subnetNode computeNode (gpus_of q node) g;
          g = add_cores subnetNode computeNode (nat availCpu) g;
          g = add_memory subnetNode computeNode (nat (availMem div 2 ^ 30)) g
      in b\<lparr>b_graph := g, b_subnetCounter := counter,
           b_totalAllocCpu := wrap64 (b_totalAllocCpu b + availCpu)\<rparr>)"

fun node_loop ::
  "('p, 'q) cluster_client \<Rightarrow> 'q quantity_ops \<Rightarrow> string \<Rightarrow> Node \<Rightarrow> (nat \<times> 'q cluster_node) list \<Rightarrow>
   build \<Rightarrow> goerror + build" where
  "node_loop api q skipLabel clusterNode [] b = Inr b"
| "node_loop api q skipLabel clusterNode ((nodeCount, node) # rest) b =
     (if skip_node skipLabel node then node_loop api q skipLabel clusterNode rest b
      else case ParseSelector api (node_selector node) of
             Inl e \<Rightarrow> Inl e
           | Inr fieldselector \<Rightarrow>
               (case list_pods api fieldselector of
                  Inl e \<Rightarrow> Inl e
                | Inr pods \<Rightarrow> node_loop api q skipLabel clusterNode rest
                    (add_node api q clusterNode nodeCount node pods b)))"

text \<open>The result \<open>Inr g\<close> says that the graph \<open>g\<close> was written to the file.\<close>

definition CreateInClusterJGF ::
  "('p, 'q) cluster_client \<Rightarrow> 'q quantity_ops \<Rightarrow> file_io \<Rightarrow> string \<Rightarrow> string \<Rightarrow> files \<Rightarrow>
   ((goerror + FluxJGF) \<times> files) outcome" where
  "CreateInClusterJGF api q io filename skipLabel fs =
     (case InClusterConfig_error api of Some e \<Rightarrow> Returns (Inl e, fs) | None \<Rightarrow>
      case NewForConfig_error api of Some e \<Rightarrow> Returns (Inl e, fs) | None \<Rightarrow>
      case list_nodes api of Inl e \<Rightarrow> Returns (Inl e, fs) | Inr items \<Rightarrow>
      case InitCluster defaultClusterName NewFluxJGF of
        (Inl e, g) \<Rightarrow> Returns (Inl e, fs)
      | (Inr clusterNode, g) \<Rightarrow>
          (case node_loop api q skipLabel clusterNode (List.enumerate 0 items)
                  \<lparr>b_graph = g, b_subnetLookup = [], b_subnetCounter = 0, b_totalAllocCpu = 0\<rparr> of
             Inl e \<Rightarrow> Returns (Inl e, fs)
           | Inr b \<Rightarrow> bind_outcome (WriteJGF io filename (b_graph b) fs) (\<lambda>fs'. Returns (Inr (b_graph b), fs'))))"

section \<open>The graph, vertex by vertex\<close>

text \<open>
  What a vertex is to the scheduler: its type and its containment path. A fold that attaches
  \<open>n\<close> new vertices to one parent extends the tree by \<open>n\<close> leaves of that parent.
\<close>

definition vertex_of :: "Node \<Rightarrow> string \<times> string option" where
  "vertex_of nd = (nm_Type (n_Metadata nd), node_path nd)"

definition grown :: "nat list \<Rightarrow> (string \<times> string option) list \<Rightarrow> FluxJGF \<Rightarrow> FluxJGF \<Rightarrow> bool" where
  "grown ps vs g g' \<longleftrightarrow> g_RootName g' = g_RootName g \<and>
     (\<forall>qs. tree_ok qs g \<longrightarrow> tree_ok (qs @ ps) g') \<and>
     (\<exists>nds. g_Nodes g' = g_Nodes g @ nds \<and> map vertex_of nds = vs)"

lemma grown_trans: "grown ps vs g g' \<Longrightarrow> grown ps' vs' g' g'' \<Longrightarrow> grown (ps @ ps') (vs @ vs') g g''"
  unfolding grown_def by (metis append.assoc map_append)

lemma grown_refl: "grown [] [] g g"
  by (simp add: grown_def)

lemma grown_attach:
  assumes new: "added g r" and p: "p < length (g_Nodes g)" "n_Id parent = show_int (int p)"
  shows "grown [p] [vertex_of (fst r)] g (attach parent r)"
  using tree_ok_attach [OF _ new p] new by (auto simp: grown_def attach_simps added_def)

lemma grown_fold:
  assumes new: "\<And>i g. added g (mk i g)"
    and lab: "\<And>i h. g_RootName h = g_RootName g \<Longrightarrow> vertex_of (fst (mk i h)) = L i"
    and p: "p < length (g_Nodes g)" "n_Id parent = show_int (int p)"
  shows "grown (replicate n p) (map L [0..<n]) g (fold (\<lambda>i g. attach parent (mk i g)) [0..<n] g)"
proof (induction n)
  case 0
  then show ?case by (simp add: grown_refl)
next
  case (Suc n)
  let ?h = "fold (\<lambda>i g. attach parent (mk i g)) [0..<n] g"
  have "g_RootName ?h = g_RootName g" "p < length (g_Nodes ?h)"
    using Suc p by (auto simp: grown_def)
  then have "grown [p] [L n] ?h (attach parent (mk n ?h))"
    using grown_attach [OF new _ p(2)] lab by metis
  then show ?case using grown_trans [OF Suc] by (simp add: replicate_append_same [symmetric])
qed

definition child_path :: "string \<Rightarrow> string list \<Rightarrow> string option" where
  "child_path root es = Some (getNodePath root (strings_Join es ''/''))"

lemmas make_vertex = vertex_of_def Make_path child_path_def

lemma Make_type:
  "nm_Type (n_Metadata (fst (MakeSubnet name index g))) = ''subnet''"
  "nm_Type (n_Metadata (fst (MakeNode name subpath index g))) = ''node''"
  "nm_Type (n_Metadata (fst (MakeCore name subpath index g))) = ''core''"
  "nm_Type (n_Metadata (fst (MakeMemory name subpath sz index g))) = ''memory''"
  "nm_Type (n_Metadata (fst (MakeGPU name subpath sz index g))) = ''gpu''"
  by (simp_all add: make_defs)

text \<open>The children of a compute node \<open>nm\<close> in the subnet \<open>sn\<close>.\<close>

definition leaves :: "string \<Rightarrow> string \<Rightarrow> string \<Rightarrow> string \<Rightarrow> string \<Rightarrow> nat \<Rightarrow> (string \<times> string option) list" where
  "leaves ty base root sn nm n =
     map (\<lambda>i. (ty, child_path root [sn, nm, base @ show_int (int i)])) [0..<n]"

lemma add_children_fold:
  "add_gpus s c n g = fold (\<lambda>i g. attach c (MakeGPU ''nvidiagpu''
     (nm_Name (n_Metadata s) @ ''/'' @ nm_Name (n_Metadata c)) 1 (int i) g)) [0..<n] g"
  "add_cores s c n g = fold (\<lambda>i g. attach c (MakeCore ''core''
     (nm_Name (n_Metadata s) @ ''/'' @ nm_Name (n_Metadata c)) (int i) g)) [0..<n] g"
  "add_memory s c n g = fold (\<lambda>i g. attach c (MakeMemory ''memory''
     (nm_Name (n_Metadata s) @ ''/'' @ nm_Name (n_Metadata c)) 1024 (int i) g)) [0..<n] g"
  by (simp_all add: add_gpus_def add_cores_def add_memory_def attach_def Let_def case_prod_unfold)

lemma grown_children:
  assumes p: "p < length (g_Nodes g)" "n_Id c = show_int (int p)"
    and sn: "nm_Name (n_Metadata s) = sn" and nm: "nm_Name (n_Metadata c) = nm"
  shows "grown (replicate n p) (leaves ''gpu'' ''nvidiagpu'' (g_RootName g) sn nm n) g (add_gpus s c n g)"
    and "grown (replicate n p) (leaves ''core'' ''core'' (g_RootName g) sn nm n) g (add_cores s c n g)"
    and "grown (replicate n p) (leaves ''memory'' ''memory'' (g_RootName g) sn nm n) g (add_memory s c n g)"
  unfolding add_children_fold leaves_def
  by (rule grown_fold [OF added_Make(5) _ p] grown_fold [OF added_Make(3) _ p]
        grown_fold [OF added_Make(4) _ p];
      simp add: make_vertex Make_type sn nm)+

section \<open>The tree of the demands\<close>

text \<open>
  A schedulable node, reduced to what the graph shows of it: its position in the listing, its
  zone, its name, and the numbers of its GPUs, cores and GiB of memory. \<open>tree_parents n\<close> gives
  the parents of the vertices made from vertex \<open>n\<close> on, \<open>tree_vertices s\<close> their types and
  paths, \<open>s\<close> being the index of the next subnet: every node gets a subnet of its own.
\<close>

record node_demand =
  nd_position :: nat
  nd_zone :: string
  nd_name :: string
  nd_gpus :: nat
  nd_cores :: nat
  nd_memory :: nat

definition nd_leaves :: "node_demand \<Rightarrow> nat" where
  "nd_leaves d = nd_gpus d + nd_cores d + nd_memory d"

fun tree_parents :: "nat \<Rightarrow> node_demand list \<Rightarrow> nat list" where
  "tree_parents n [] = []"
| "tree_parents n (d # ds) =
     0 # n # replicate (nd_leaves d) (Suc n) @ tree_parents (n + 2 + nd_leaves d) ds"

definition demand_vertices :: "string \<Rightarrow> nat \<Rightarrow> node_demand \<Rightarrow> (string \<times> string option) list" where
  "demand_vertices root s d =
     (let sn = nd_zone d @ show_int (int s); nm = nd_name d @ show_int (int (nd_position d))
      in [(''subnet'', child_path root [sn]), (''node'', child_path root [sn, nm])] @
         leaves ''gpu'' ''nvidiagpu'' root sn nm (nd_gpus d) @
         leaves ''core'' ''core'' root sn nm (nd_cores d) @
         leaves ''memory'' ''memory'' root sn nm (nd_memory d))"

fun tree_vertices :: "string \<Rightarrow> nat \<Rightarrow> node_demand list \<Rightarrow> (string \<times> string option) list" where
  "tree_vertices root s [] = []"
| "tree_vertices root s (d # ds) = demand_vertices root s d @ tree_vertices root (Suc s) ds"

text \<open>The demand of a node, from the listing of its pods; the error of the first failing call.\<close>

fun node_demands ::
  "('p, 'q) cluster_client \<Rightarrow> 'q quantity_ops \<Rightarrow> string \<Rightarrow> (nat \<times> 'q cluster_node) list \<Rightarrow>
   goerror + node_demand list" where
  "node_demands api q skipLabel [] = Inr []"
| "node_demands api q skipLabel ((i, node) # rest) =
     (if skip_node skipLabel node then node_demands api q skipLabel rest
      else case ParseSelector api (node_selector node) of Inl e \<Rightarrow> Inl e | Inr sel \<Rightarrow>
           case list_pods api sel of Inl e \<Rightarrow> Inl e | Inr pods \<Rightarrow>
           map_sum id ((#) \<lparr>nd_position = i, nd_zone = map_get_zero (cn_Labels node) zoneLabel,
              nd_name = cn_Name node, nd_gpus = gpus_of q node,
              nd_cores = nat (availCpu_of api q node pods),
              nd_memory = nat (availMem_of api q node pods div 2 ^ 30)\<rparr>)
             (node_demands api q skipLabel rest))"

lemma grown_length: "grown ps vs g g' \<Longrightarrow> length (g_Nodes g') = length (g_Nodes g) + length vs"
  by (auto simp: grown_def)

lemma grown_add_node:
  assumes sub: "b_subnetLookup b = []" "b_subnetCounter b = int s"
    and root: "n_Id clusterNode = show_int 0" "g_Nodes (b_graph b) \<noteq> []"
      "g_Elements (b_graph b) = int (length (g_Nodes (b_graph b)))"
    and d: "d = \<lparr>nd_position = i, nd_zone = map_get_zero (cn_Labels node) zoneLabel,
      nd_name = cn_Name node, nd_gpus = gpus_of q node, nd_cores = nat (availCpu_of api q node pods),
      nd_memory = nat (availMem_of api q node pods div 2 ^ 30)\<rparr>"
  shows "grown (0 # length (g_Nodes (b_graph b)) #
        replicate (nd_leaves d) (Suc (length (g_Nodes (b_graph b)))))
      (demand_vertices (g_RootName (b_graph b)) s d) (b_graph b)
      (b_graph (add_node api q clusterNode i node pods b))"
proof -
  let ?g = "b_graph b" and ?n = "length (g_Nodes (b_graph b))"
  let ?sn = "nd_zone d @ show_int (int s)" and ?nm = "nd_name d @ show_int (int i)"
  define r1 where "r1 = MakeSubnet (nd_zone d) (int s) ?g"
  define g1 where "g1 = attach clusterNode r1"
  define r2 where "r2 = MakeNode (cn_Name node) ?sn (int i) g1"
  define g2 where "g2 = attach (fst r1) r2"
  have a1: "added ?g r1" and a2: "added g1 r2" unfolding r1_def r2_def by (rule added_Make)+
  have G1: "grown [0] [(''subnet'', child_path (g_RootName ?g) [?sn])] ?g g1"
    using grown_attach [OF a1, of 0 clusterNode] root unfolding g1_def
    by (simp add: r1_def make_vertex Make_type)
  have id1: "n_Id (fst r1) = show_int (int ?n)" "length (g_Nodes g1) = Suc ?n" "g_Elements g1 = int (Suc ?n)"
    using a1 root(3) by (simp_all add: added_def g1_def attach_simps)
  have G2: "grown [?n] [(''node'', child_path (g_RootName ?g) [?sn, ?nm])] g1 g2"
    using grown_attach [OF a2, of ?n "fst r1"] id1 G1 unfolding g2_def
    by (simp add: r2_def make_vertex Make_type grown_def d)
  have id2: "n_Id (fst r2) = show_int (int (Suc ?n))" "length (g_Nodes g2) = Suc (Suc ?n)"
    using a2 id1 by (simp_all add: added_def g2_def attach_simps)
  have names: "nm_Name (n_Metadata (fst r1)) = ?sn" "nm_Name (n_Metadata (fst r2)) = ?nm"
    by (simp_all add: r1_def r2_def Make_name d)
  define g3 where "g3 = add_gpus (fst r1) (fst r2) (nd_gpus d) g2"
  define g4 where "g4 = add_cores (fst r1) (fst r2) (nd_cores d) g3"
  define g5 where "g5 = add_memory (fst r1) (fst r2) (nd_memory d) g4"
  note kids = grown_children [OF _ id2(1) names]
  have G3: "grown (replicate (nd_gpus d) (Suc ?n))
      (leaves ''gpu'' ''nvidiagpu'' (g_RootName ?g) ?sn ?nm (nd_gpus d)) g2 g3"
    using kids(1) [of g2] id2 G1 G2 by (simp add: g3_def grown_def)
  have G4: "grown (replicate (nd_cores d) (Suc ?n))
      (leaves ''core'' ''core'' (g_RootName ?g) ?sn ?nm (nd_cores d)) g3 g4"
    using kids(2) [of g3] id2 G1 G2 grown_length [OF G3] G3 by (simp add: g4_def grown_def)
  have G5: "grown (replicate (nd_memory d) (Suc ?n))
      (leaves ''memory'' ''memory'' (g_RootName ?g) ?sn ?nm (nd_memory d)) g4 g5"
    using kids(3) [of g4] id2 G1 G2 grown_length [OF G3] grown_length [OF G4] G3 G4
    by (simp add: g5_def grown_def)
  have "b_graph (add_node api q clusterNode i node pods b) = g5"
    using sub by (simp add: add_node_def Let_def case_prod_unfold attach_def d names
        r1_def g1_def r2_def g2_def g3_def g4_def g5_def Make_name)
  then show ?thesis
    using grown_trans [OF G1 grown_trans [OF G2 grown_trans [OF G3 grown_trans [OF G4 G5]]]]
    by (simp add: demand_vertices_def Let_def d nd_leaves_def replicate_add)
qed

lemma add_node_counters:
  "b_subnetLookup b = [] \<Longrightarrow> b_subnetCounter b = int s \<Longrightarrow>
   b_subnetLookup (add_node api q clusterNode i node pods b) = [] \<and>
   b_subnetCounter (add_node api q clusterNode i node pods b) = int (Suc s)"
  by (simp add: add_node_def Let_def case_prod_unfold)

lemma length_demand_vertices: "length (demand_vertices root s d) = 2 + nd_leaves d"
  by (simp add: demand_vertices_def Let_def leaves_def nd_leaves_def)

lemma node_loop_graph:
  assumes "b_subnetLookup b = []" "b_subnetCounter b = int s" "n_Id clusterNode = show_int 0"
    and "tree_ok qs (b_graph b)"
  shows "case node_demands api q skipLabel nodes of
      Inl e \<Rightarrow> node_loop api q skipLabel clusterNode nodes b = Inl e
    | Inr ds \<Rightarrow> \<exists>b'. node_loop api q skipLabel clusterNode nodes b = Inr b' \<and>
        grown (tree_parents (length (g_Nodes (b_graph b))) ds)
          (tree_vertices (g_RootName (b_graph b)) s ds) (b_graph b) (b_graph b')"
  using assms
proof (induction api q skipLabel clusterNode nodes b arbitrary: s qs rule: node_loop.induct)
  case (1 api q skipLabel clusterNode b)
  then show ?case by (simp add: grown_refl)
next
  case (2 api q skipLabel clusterNode i node rest b)
  show ?case
  proof (cases "skip_node skipLabel node")
    case True
    then show ?thesis using 2(1) [OF True 2(3-6)] by (simp split: sum.splits)
  next
    case work: False
    show ?thesis
    proof (cases "\<exists>sel pods. ParseSelector api (node_selector node) = Inr sel \<and> list_pods api sel = Inr pods")
      case False
      then show ?thesis using work by (auto split: sum.splits)
    next
      case True
      then obtain sel pods where ok: "ParseSelector api (node_selector node) = Inr sel"
        "list_pods api sel = Inr pods" by blast
      let ?b = "add_node api q clusterNode i node pods b"
      define d where "d = \<lparr>nd_position = i, nd_zone = map_get_zero (cn_Labels node) zoneLabel,
        nd_name = cn_Name node, nd_gpus = gpus_of q node, nd_cores = nat (availCpu_of api q node pods),
        nd_memory = nat (availMem_of api q node pods div 2 ^ 30)\<rparr>"
      have g: "grown (0 # length (g_Nodes (b_graph b)) #
            replicate (nd_leaves d) (Suc (length (g_Nodes (b_graph b)))))
          (demand_vertices (g_RootName (b_graph b)) s d) (b_graph b) (b_graph ?b)"
        by (rule grown_add_node [OF 2(3,4,5) _ _ d_def]) (use 2(6) in \<open>auto simp: tree_ok_def\<close>)
      from g 2(6) obtain qs' where "tree_ok qs' (b_graph ?b)" unfolding grown_def by blast
      note IH = 2(2) [OF work ok add_node_counters [OF 2(3,4), THEN conjunct1]
          add_node_counters [OF 2(3,4), THEN conjunct2] 2(5) this]
      have len: "length (g_Nodes (b_graph ?b)) = length (g_Nodes (b_graph b)) + 2 + nd_leaves d"
        using grown_length [OF g] length_demand_vertices by simp
      have root: "g_RootName (b_graph ?b) = g_RootName (b_graph b)" using g by (simp add: grown_def)
      show ?thesis
        using IH work ok grown_trans [OF g] len root
        by (cases "node_demands api q skipLabel rest") (fastforce simp: d_def)+
    qed
  qed
qed

end
