(* ===== verification/ServiceProps.thy ===== *)
theory ServiceProps
  imports Fluxion Resources Cluster
begin

text \<open>
  The properties of the service side: the resource request of a pod, the jobspec made from it, the
  node list read from an allocation, and the resource graph of the cluster.
\<close>

section \<open>The request and its jobspec\<close>

text \<open>C40: the request of a pod asks for the sum of its containers' cpus, one if that is
  nothing, as long as the requests are not negative and their sum fits 32 bits.\<close>

theorem request_sums_containers:
  assumes "\<forall>c \<in> set (Containers p). 0 \<le> sint (cpu_request c)"
    and "(\<Sum>c\<leftarrow>Containers p. sint (cpu_request c)) < 2 ^ 31"
  shows "sint (ps_Cpu (PreparePodJobSpec p g)) = max 1 (\<Sum>c\<leftarrow>Containers p. sint (cpu_request c)) \<and>
    ps_Id (PreparePodJobSpec p g) = g \<and>
    ps_Memory (PreparePodJobSpec p g) = (\<Sum>c\<leftarrow>Containers p. memory_request c)"
proof -
  let ?s = "\<Sum>c\<leftarrow>Containers p. sint (cpu_request c)"
  let ?w = "\<Sum>c\<leftarrow>Containers p. (ucast (cpu_request c) :: int32)"
  have s: "sint ?w = ?s" using sum_list_sint32 [of "Containers p" cpu_request] assms by simp
  have pos: "0 \<le> ?s" using assms(1) by (intro sum_list_nonneg) auto
  have "sint (if ?w = 0 then 1 else ?w) = max 1 ?s"
  proof (cases "?w = 0")
    case True
    then have "?s = 0" using s by simp
    then show ?thesis using True by simp
  next
    case False
    then have "?s \<noteq> 0" using s by (metis signed_0 signed_word_eqI)
    then have "1 \<le> ?s" using pos by simp
    then show ?thesis using False s by simp
  qed
  then show ?thesis by (auto simp: PreparePodJobSpec_def Let_def sum_containers_eq split: if_splits)
qed

definition ex_two_containers :: pod where
  "ex_two_containers = \<lparr>Name = ''a'', Namespace = ''default'', UID = [], Labels = None, CreationTimestamp = None,
     DeletionTimestamp = None, ActiveDeadlineSeconds = None,
     Containers = [\<lparr>cpu_request = 2, memory_request = 1048576, storage_request = 0, gpu_limit = 0\<rparr>,
                   \<lparr>cpu_request = 1, memory_request = 1048576, storage_request = 0, gpu_limit = 0\<rparr>],
     OwnerReferences = [], Phase = [], Priority = None, SchedulerName = [], NodeName = []\<rparr>"

theorem request_sums_containers_witness:
  "sint (ps_Cpu (PreparePodJobSpec ex_two_containers ''g'')) = 3"
  using request_sums_containers [of ex_two_containers "''g''"] by (simp add: ex_two_containers_def)

text \<open>A jobspec asks, over all its slots, for the count times the cores, gpus and whole
  mebibytes of memory of one pod, whether or not a zone label puts the slot under a subnet.\<close>

theorem jobspec_amounts:
  "total_amount ''core'' (js_Resources (build_JobSpec spec cnt)) = cnt * sint (ps_Cpu spec) \<and>
   total_amount ''gpu'' (js_Resources (build_JobSpec spec cnt)) = cnt * max 0 (sint (ps_Gpu spec)) \<and>
   total_amount ''memory'' (js_Resources (build_JobSpec spec cnt)) =
     cnt * max 0 (sint (ps_Memory spec) div 2 ^ 20)"
proof -
  have "0 < sint (ps_Memory spec) \<Longrightarrow> max 0 (sint (ps_Memory spec) div 2 ^ 20) = sint (ps_Memory spec) div 2 ^ 20"
    by (simp add: pos_imp_zdiv_nonneg_iff)
  moreover have "\<not> 0 < sint (ps_Memory spec) \<Longrightarrow> max 0 (sint (ps_Memory spec) div 2 ^ 20) = 0"
    using div_nonpos_pos_le0 [of "sint (ps_Memory spec)" "2 ^ 20"] by simp
  moreover have "sint (signed_drop_bit 20 (ps_Memory spec)) = sint (ps_Memory spec) div 2 ^ 20"
    by (simp add: sint_signed_drop_bit_eq drop_bit_eq_div)
  ultimately have "total_amount ''memory'' (createSocketResources spec) = max 0 (sint (ps_Memory spec) div 2 ^ 20)"
    by (cases "0 < sint (ps_Memory spec)"; cases "0 < sint (ps_Gpu spec)")
      (simp_all add: createSocketResources_def total_amount_def)
  moreover have "total_amount ''core'' (createSocketResources spec) = sint (ps_Cpu spec)"
    and "total_amount ''gpu'' (createSocketResources spec) = max 0 (sint (ps_Gpu spec))"
    by (cases "0 < sint (ps_Memory spec)"; cases "0 < sint (ps_Gpu spec)";
        simp add: createSocketResources_def total_amount_def)+
  ultimately show ?thesis by (simp add: build_JobSpec_def total_amount_createResources)
qed

section \<open>The node list\<close>

definition service_answers :: "fluxcli \<Rightarrow> MatchRequest \<Rightarrow> match_result \<Rightarrow> vertex list \<Rightarrow> bool" where
  "service_answers cli req m vs \<longleftrightarrow>
     (\<exists>spec. CreateJobSpecYaml (yaml_marshal cli) (mr_Podspec req) (mr_Count req) = Returns spec \<and>
        MatchAllocate cli (mr_Reserve req) spec = m) \<and>
     ml_fluxerr m = None \<and> ml_allocated m \<noteq> [] \<and>
     (case json_parse cli (ml_allocated m) of None \<Rightarrow> False | Some j \<Rightarrow> reads_graph j vs)"

lemma Match_allocation:
  assumes "service_answers cli req m vs"
  shows "Match cli req =
    bind_outcome (node_allocs (sint (ps_Cpu (mr_Podspec req))) (map to_allocation (cores_per_node vs 0)))
      (\<lambda>nodelist. Returns (\<lparr>mp_FluxID = ml_jobid m, mp_Nodelist = nodelist, mp_Reserved = ml_reserved m,
         mp_ReservedAt = ml_at m, mp_Allocated = True\<rparr>, None))"
  using assms
  by (auto simp: service_answers_def Match_def Let_def ParseAllocResult_vertices split: option.splits)

lemma match_nodes:
  assumes "service_answers cli req m vs" and "lists_nodes vs hs" and cpu: "0 < sint (ps_Cpu (mr_Podspec req))"
    and range: "\<forall>(host, n) \<in> set hs. int4_range (int n)"
  shows "Match cli req = Returns (\<lparr>mp_FluxID = ml_jobid m,
      mp_Nodelist = map (\<lambda>(host, n). \<lparr>na_NodeID = host, na_Tasks = int n div sint (ps_Cpu (mr_Podspec req))\<rparr>) hs,
      mp_Reserved = ml_reserved m, mp_ReservedAt = ml_at m, mp_Allocated = True\<rparr>, None)"
proof -
  let ?c = "sint (ps_Cpu (mr_Podspec req))"
  let ?entry = "\<lambda>(host, k). \<lparr>na_NodeID = host, na_Tasks = wrap32 (go_div (wrap32 k) ?c)\<rparr>"
  have one: "wrap32 (go_div (wrap32 (int n)) ?c) = int n div ?c" if "int4_range (int n)" for n
  proof -
    have "0 \<le> int n div ?c" "int n div ?c \<le> int n"
      using cpu zdiv_mono2 [of "int n" 1 ?c] by (simp_all add: pos_imp_zdiv_nonneg_iff)
    then have "int4_range (int n div ?c)" using that by (simp add: int4_range_def)
    then show ?thesis using that cpu by (simp add: wrap32_id go_div_nonneg)
  qed
  have "?c \<noteq> 0" using cpu by simp
  then have "node_allocs ?c (map to_allocation (cores_per_node vs 0)) =
      Returns (map ?entry (map (\<lambda>(v, k). (v_basename v, k)) (cores_per_node vs 0)))"
    by (simp add: node_allocs_returns to_allocation_def comp_def case_prod_unfold)
  also have "\<dots> = Returns (map (\<lambda>(host, n). \<lparr>na_NodeID = host, na_Tasks = int n div ?c\<rparr>) hs)"
    unfolding lists_nodes_cores [OF assms(2)] using range one by (auto intro!: map_cong)
  finally show ?thesis using Match_allocation [OF assms(1)] by simp
qed

text \<open>C23: an allocation comes back as one entry per vertex of type node, in their order, with
  as many tasks as the cores listed for the node hold pods of the request's cpus: the vertices of type
  core between the node before it and the node. Vertices of other types, as gpus, memory or the
  cluster, count for nothing, wherever they stand, and neither do cores after the last node. (The
  request asks for at least one cpu, and no node has 2 to the 31st cores.)\<close>

theorem match_lists_nodes:
  assumes "service_answers cli req m vs" and "lists_nodes vs hs" and cpu: "0 < sint (ps_Cpu (mr_Podspec req))"
    and range: "\<forall>(host, n) \<in> set hs. int4_range (int n)"
  shows "Match cli req = Returns (\<lparr>mp_FluxID = ml_jobid m,
      mp_Nodelist = map (\<lambda>(host, n). \<lparr>na_NodeID = host, na_Tasks = int n div sint (ps_Cpu (mr_Podspec req))\<rparr>) hs,
      mp_Reserved = ml_reserved m, mp_ReservedAt = ml_at m, mp_Allocated = True\<rparr>, None)"
  by (rule match_nodes [OF assms])

text \<open>A graph with a gpu, memory and a subnet among the cores and nodes, and the cluster at its end.\<close>

definition ex_vertices :: "vertex list" where
  "ex_vertices =
     map (\<lambda>(ty, base). \<lparr>v_type = ty, v_name = base @ ''0'', v_basename = base\<rparr>)
       [(''core'', ''core''), (''core'', ''core''), (''gpu'', ''gpu''), (''core'', ''core''), (''core'', ''core''),
        (''memory'', ''memory''), (''node'', ''n1''), (''subnet'', ''subnet''), (''core'', ''core''), (''memory'', ''memory''),
        (''core'', ''core''), (''node'', ''n2''), (''subnet'', ''subnet''), (''cluster'', ''k8scluster'')]"

lemma ex_lists: "lists_nodes ex_vertices [(''n1'', 4), (''n2'', 2)]"
  by (simp add: ex_vertices_def)

definition ex_cli :: fluxcli where
  "ex_cli = \<lparr>MatchAllocate = (\<lambda>r s. \<lparr>ml_reserved = False, ml_allocated = ''R'', ml_at = 0, ml_jobid = 7, ml_fluxerr = None\<rparr>),
     cli_Cancel = (\<lambda>_ _. None), yaml_marshal = (\<lambda>_. Inr ''spec''),
     json_parse = (\<lambda>s. if s = ''R'' then Some (graph_json ex_vertices) else None)\<rparr>"

definition ex_request :: MatchRequest where
  "ex_request = \<lparr>mr_Podspec = \<lparr>ps_Id = ''g'', ps_Container = ''g'', ps_Cpu = 2, ps_Memory = 0, ps_Gpu = 0,
     ps_Storage = 0, ps_Labels = []\<rparr>, mr_Count = 3, mr_Reserve = False, mr_JobName = ''g''\<rparr>"

lemma ex_answers:
  "service_answers ex_cli ex_request \<lparr>ml_reserved = False, ml_allocated = ''R'', ml_at = 0, ml_jobid = 7, ml_fluxerr = None\<rparr>
     ex_vertices"
  by (simp add: service_answers_def ex_cli_def CreateJobSpecYaml_def graph_json_reads)

theorem match_lists_nodes_witness:
  "\<exists>resp. Match ex_cli ex_request = Returns (resp, None) \<and>
     mp_Nodelist resp = [\<lparr>na_NodeID = ''n1'', na_Tasks = 2\<rparr>, \<lparr>na_NodeID = ''n2'', na_Tasks = 1\<rparr>]"
  using match_lists_nodes [OF ex_answers ex_lists] by (simp add: ex_request_def int4_range_def)

text \<open>The division that gives the tasks cannot fail for a request the job worker makes, since
  such a request never has zero cpus; a request with zero cpus makes the service panic as soon as
  the allocation has a node.\<close>

theorem match_division:
  assumes "service_answers cli req m vs"
  shows "((\<exists>msg. Match cli req = Panics msg) \<longleftrightarrow>
      ps_Cpu (mr_Podspec req) = 0 \<and> filter (\<lambda>v. v_type v = NodeType) vs \<noteq> []) \<and>
    (mr_Podspec req = PreparePodJobSpec p g \<longrightarrow> (\<exists>resp. Match cli req = Returns (resp, None)))"
proof -
  let ?c = "sint (ps_Cpu (mr_Podspec req))"
  have c: "?c = 0 \<longleftrightarrow> ps_Cpu (mr_Podspec req) = 0" by (metis signed_0 signed_word_eqI)
  have none: "map to_allocation (cores_per_node vs 0) = [] \<longleftrightarrow> filter (\<lambda>v. v_type v = NodeType) vs = []"
    using cores_per_node_nodes [of vs 0] by (metis map_is_Nil_conv)
  have "(\<exists>msg. Match cli req = Panics msg) \<longleftrightarrow> ?c = 0 \<and> map to_allocation (cores_per_node vs 0) \<noteq> []"
  proof (cases "?c = 0 \<and> map to_allocation (cores_per_node vs 0) \<noteq> []")
    case True
    then show ?thesis using Match_allocation [OF assms] node_allocs_zero_panics by auto
  next
    case False
    then have "node_allocs ?c (map to_allocation (cores_per_node vs 0)) = Returns [] \<or> ?c \<noteq> 0" by auto
    then show ?thesis using Match_allocation [OF assms] False by (auto simp: node_allocs_returns)
  qed
  moreover have "\<exists>resp. Match cli req = Returns (resp, None)" if "ps_Cpu (mr_Podspec req) \<noteq> 0"
    using Match_allocation [OF assms] that c by (simp add: node_allocs_returns)
  ultimately show ?thesis using c none PreparePodJobSpec_cpu_nonzero by metis
qed

theorem match_division_witness:
  "\<exists>resp. Match ex_cli ex_request = Returns (resp, None)"
proof -
  have "\<not> (\<exists>msg. Match ex_cli ex_request = Panics msg)"
    using match_division [OF ex_answers] by (simp add: ex_request_def)
  then have "\<exists>x. Match ex_cli ex_request = Returns x" by (cases "Match ex_cli ex_request") auto
  then show ?thesis using match_nodes [OF ex_answers ex_lists] by (simp add: ex_request_def int4_range_def)
qed

section \<open>The resource graph\<close>

lemma CreateInClusterJGF_built:
  assumes "InClusterConfig_error api = None" and "NewForConfig_error api = None" and "list_nodes api = Inr items"
  shows "case node_demands api q skipLabel (List.enumerate 0 items) of
      Inl e \<Rightarrow> CreateInClusterJGF api q io filename skipLabel fs = Returns (Inl e, fs)
    | Inr ds \<Rightarrow> \<exists>g. tree_ok (tree_parents 1 ds) g \<and>
        map vertex_of (g_Nodes g) = (''cluster'', Some ''/k8scluster0'') # tree_vertices ''k8scluster0'' 0 ds \<and>
        CreateInClusterJGF api q io filename skipLabel fs =
          bind_outcome (WriteJGF io filename g fs) (\<lambda>fs'. Returns (Inr g, fs'))"
proof -
  obtain root g0 where init: "InitCluster defaultClusterName NewFluxJGF = (Inr root, g0)"
    using InitCluster_new by blast
  note i = InitCluster_tree [OF init]
  let ?b = "\<lparr>b_graph = g0, b_subnetLookup = [], b_subnetCounter = 0, b_totalAllocCpu = 0\<rparr>"
  have name: "g_RootName g0 = ''k8scluster0''" using i by (simp add: defaultClusterName_def)
  have "getNodePath ''k8scluster0'' [] = ''/k8scluster0''"
    by (simp add: getNodePath_def filepath_Clean_def)
  moreover have "nm_Type (n_Metadata root) = ''cluster''"
    using init by (auto simp: InitCluster_def NewFluxJGF_def make_defs)
  ultimately have root: "vertex_of root = (''cluster'', Some ''/k8scluster0'')"
    using i by (simp add: vertex_of_def defaultClusterName_def)
  have run: "CreateInClusterJGF api q io filename skipLabel fs =
      (case node_loop api q skipLabel root (List.enumerate 0 items) ?b of
         Inl e \<Rightarrow> Returns (Inl e, fs)
       | Inr b \<Rightarrow> bind_outcome (WriteJGF io filename (b_graph b) fs) (\<lambda>fs'. Returns (Inr (b_graph b), fs')))"
    using assms init by (simp add: CreateInClusterJGF_def)
  have loop: "case node_demands api q skipLabel (List.enumerate 0 items) of
      Inl e \<Rightarrow> node_loop api q skipLabel root (List.enumerate 0 items) ?b = Inl e
    | Inr ds \<Rightarrow> \<exists>b'. node_loop api q skipLabel root (List.enumerate 0 items) ?b = Inr b' \<and>
        grown (tree_parents 1 ds) (tree_vertices ''k8scluster0'' 0 ds) g0 (b_graph b')"
    using node_loop_graph [of ?b 0 root "[]" api q skipLabel "List.enumerate 0 items"] i name
    by (simp split: sum.splits)
  show ?thesis
  proof (cases "node_demands api q skipLabel (List.enumerate 0 items)")
    case (Inl e)
    then show ?thesis using loop run by simp
  next
    case (Inr ds)
    then obtain b where b: "node_loop api q skipLabel root (List.enumerate 0 items) ?b = Inr b"
      and grown: "grown (tree_parents 1 ds) (tree_vertices ''k8scluster0'' 0 ds) g0 (b_graph b)"
      using loop by auto
    have "map vertex_of (g_Nodes (b_graph b)) = (''cluster'', Some ''/k8scluster0'') # tree_vertices ''k8scluster0'' 0 ds"
      using grown i root by (auto simp: grown_def)
    moreover have "tree_ok (tree_parents 1 ds) (b_graph b)" using grown i unfolding grown_def by (metis append_Nil)
    ultimately show ?thesis using Inr run b by auto
  qed
qed

text \<open>
  The graph that a listing of nodes leads to, stated without the functions of the code: which nodes
  can be used, what is left of a node beside the requests of its running pods, and the vertices with
  their types and containment paths, the path of a vertex being the names of the vertices from the
  cluster down to it. This is what is built, not what the source's comments listed: every node in use
  has a subnet vertex of its own, named after its zone, also where another node has the same zone.
\<close>

definition schedulable :: "string \<Rightarrow> 'q cluster_node \<Rightarrow> bool" where
  "schedulable skipLabel node \<longleftrightarrow>
     map_get (cn_Labels node) ''node-role.kubernetes.io/control-plane'' = None \<and>
     (skipLabel \<noteq> [] \<longrightarrow> map_get (cn_Labels node) skipLabel = None) \<and> \<not> cn_Unschedulable node"

definition running_pods :: "('p, 'q) cluster_client \<Rightarrow> 'q cluster_node \<Rightarrow> goerror + 'p list" where
  "running_pods api node =
     (case ParseSelector api (''spec.nodeName='' @ cn_Name node @ '',status.phase!=Succeeded,status.phase!=Failed'') of
        Inl e \<Rightarrow> Inl e | Inr sel \<Rightarrow> list_pods api sel)"

definition requested :: "('p, 'q) cluster_client \<Rightarrow> 'q quantity_ops \<Rightarrow> string \<Rightarrow> 'p list \<Rightarrow> 'q" where
  "requested api q name pods =
     (case concat (map (\<lambda>p. map snd (filter (\<lambda>r. fst r = name) (PodRequestsAndLimits api p))) pods) of
        [] \<Rightarrow> q_zero q
      | v # vs \<Rightarrow> foldl (q_Add q) v vs)"

definition left_on :: "('p, 'q) cluster_client \<Rightarrow> 'q quantity_ops \<Rightarrow> 'q cluster_node \<Rightarrow> string \<Rightarrow> ('q \<Rightarrow> int) \<Rightarrow> int" where
  "left_on api q node name scale =
     (let offered = (case map_of (cn_Allocatable node) name of None \<Rightarrow> q_zero q | Some v \<Rightarrow> v);
          pods = (case running_pods api node of Inl e \<Rightarrow> [] | Inr ps \<Rightarrow> ps)
      in wrap64 (scale offered - scale (requested api q name pods)))"

definition listed_demands :: "('p, 'q) cluster_client \<Rightarrow> 'q quantity_ops \<Rightarrow> string \<Rightarrow> 'q cluster_node list \<Rightarrow> node_demand list" where
  "listed_demands api q skipLabel items =
     map (\<lambda>(i, node).
         \<lparr>nd_position = i,
          nd_zone = (case map_get (cn_Labels node) ''topology.kubernetes.io/zone'' of None \<Rightarrow> [] | Some z \<Rightarrow> z),
          nd_name = cn_Name node,
          nd_gpus = (case map_of (cn_Allocatable node) ''nvidia.com/gpu'' of None \<Rightarrow> 0 | Some v \<Rightarrow> nat (q_Value q v)),
          nd_cores = nat (left_on api q node ''cpu'' (q_MilliValue q) div 1000),
          nd_memory = nat (left_on api q node ''memory'' (q_Value q) div 1073741824)\<rparr>)
       (filter (\<lambda>(i, node). schedulable skipLabel node) (List.enumerate 0 items))"

definition vertex_path :: "string list \<Rightarrow> string" where
  "vertex_path es = ''/'' @ strings_Join (''k8scluster0'' # es) ''/''"

definition listed_vertices :: "nat \<Rightarrow> node_demand \<Rightarrow> (string \<times> string option) list" where
  "listed_vertices s d =
     (let sub = nd_zone d @ show_int (int s); nm = nd_name d @ show_int (int (nd_position d));
          below = (\<lambda>ty base n. map (\<lambda>i. (ty, Some (vertex_path [sub, nm, base @ show_int (int i)]))) [0..<n])
      in (''subnet'', Some (vertex_path [sub])) # (''node'', Some (vertex_path [sub, nm])) #
         below ''gpu'' ''nvidiagpu'' (nd_gpus d) @ below ''core'' ''core'' (nd_cores d) @
         below ''memory'' ''memory'' (nd_memory d))"

definition no_slashes :: "string \<Rightarrow> 'q cluster_node list \<Rightarrow> bool" where
  "no_slashes skipLabel items \<longleftrightarrow>
     (\<forall>node \<in> set items. schedulable skipLabel node \<longrightarrow>
        CHR ''/'' \<notin> set (cn_Name node) \<and> CHR ''/'' \<notin> set (map_get_zero (cn_Labels node) ''topology.kubernetes.io/zone''))"

text \<open>The code computes just that.\<close>

lemma map_of_add_requests:
  "map_of (fold (\<lambda>(n, v) totals. case map_of totals n of None \<Rightarrow> AList.update n v totals
      | Some u \<Rightarrow> AList.update n (q_Add q u v) totals) es t) name =
    (let vs = map snd (filter (\<lambda>r. fst r = name) es)
     in case map_of t name of
          None \<Rightarrow> (case vs of [] \<Rightarrow> None | v # vs \<Rightarrow> Some (foldl (q_Add q) v vs))
        | Some u \<Rightarrow> Some (foldl (q_Add q) u vs))"
proof (induction es arbitrary: t)
  case (Cons e es)
  obtain n v where e: "e = (n, v)" by fastforce
  show ?case
    by (cases "map_of t n"; cases "n = name")
      (auto simp: e Cons.IH AList.update_conv' Let_def split: option.split)
qed (simp add: Let_def split: option.split)

lemma computeTotalRequests_requested:
  "quantity_of q (computeTotalRequests api q pods) name = requested api q name pods"
proof -
  let ?f = "\<lambda>(n, v) totals. case map_of totals n of None \<Rightarrow> AList.update n v totals
      | Some u \<Rightarrow> AList.update n (q_Add q u v) totals"
  have "fold (add_requests api q) pods t = fold ?f (concat (map (PodRequestsAndLimits api) pods)) t" for t
    by (induction pods arbitrary: t) (simp_all add: add_requests_def)
  then have total: "computeTotalRequests api q pods = fold ?f (concat (map (PodRequestsAndLimits api) pods)) []"
    by (simp add: computeTotalRequests_def)
  have vals: "map snd (filter (\<lambda>r. fst r = name) (concat (map (PodRequestsAndLimits api) pods))) =
      concat (map (\<lambda>p. map snd (filter (\<lambda>r. fst r = name) (PodRequestsAndLimits api p))) pods)" (is "_ = ?vs")
    by (induction pods) simp_all
  have "map_of (computeTotalRequests api q pods) name = (case ?vs of [] \<Rightarrow> None | v # vs \<Rightarrow> Some (foldl (q_Add q) v vs))"
    unfolding total map_of_add_requests vals by (simp only: Let_def map_of.simps option.case)
  then show ?thesis
    unfolding quantity_of_def requested_def by (cases ?vs) (simp_all only: list.case option.case)
qed

lemma skip_node_schedulable: "skip_node skipLabel node \<longleftrightarrow> \<not> schedulable skipLabel node"
  by (auto simp: skip_node_def schedulable_def controlPlaneLabel_def)

lemma nat_go_div: "0 < b \<Longrightarrow> nat (go_div a b) = nat (a div b)"
proof (cases "0 \<le> a")
  case False
  assume "0 < b"
  then have "a div b < 0" "go_div a b \<le> 0" using False by (simp_all add: div_neg_pos_less0 go_div_le_0)
  then show ?thesis by simp
qed (simp add: go_div_nonneg)

definition demand_of :: "('p, 'q) cluster_client \<Rightarrow> 'q quantity_ops \<Rightarrow> nat \<times> 'q cluster_node \<Rightarrow> node_demand" where
  "demand_of api q = (\<lambda>(i, node).
     \<lparr>nd_position = i,
      nd_zone = (case map_get (cn_Labels node) ''topology.kubernetes.io/zone'' of None \<Rightarrow> [] | Some z \<Rightarrow> z),
      nd_name = cn_Name node,
      nd_gpus = (case map_of (cn_Allocatable node) ''nvidia.com/gpu'' of None \<Rightarrow> 0 | Some v \<Rightarrow> nat (q_Value q v)),
      nd_cores = nat (left_on api q node ''cpu'' (q_MilliValue q) div 1000),
      nd_memory = nat (left_on api q node ''memory'' (q_Value q) div 1073741824)\<rparr>)"

lemma demand_of_eq:
  assumes "running_pods api node = Inr pods"
  shows "demand_of api q (i, node) = \<lparr>nd_position = i, nd_zone = map_get_zero (cn_Labels node) zoneLabel,
      nd_name = cn_Name node, nd_gpus = gpus_of q node, nd_cores = nat (availCpu_of api q node pods),
      nd_memory = nat (availMem_of api q node pods div 2 ^ 30)\<rparr>"
  using assms
  by (simp add: demand_of_def gpus_of_def availCpu_of_def availMem_of_def left_on_def Let_def nat_go_div
      computeTotalRequests_requested map_get_zero_def zoneLabel_def)
    (simp add: quantity_of_def)

lemma node_demands_listed:
  "node_demands api q skipLabel xs = Inr ds \<Longrightarrow>
     ds = map (demand_of api q) (filter (\<lambda>(i, node). schedulable skipLabel node) xs)"
proof (induction xs arbitrary: ds)
  case (Cons x xs)
  obtain i node where x: "x = (i, node)" by fastforce
  show ?case
  proof (cases "schedulable skipLabel node")
    case True
    then obtain sel pods ds' where ok: "ParseSelector api (node_selector node) = Inr sel" "list_pods api sel = Inr pods"
      "node_demands api q skipLabel xs = Inr ds'"
      using Cons.prems by (cases "node_demands api q skipLabel xs") (auto simp: x skip_node_schedulable split: sum.splits)
    then have "running_pods api node = Inr pods" by (simp add: running_pods_def node_selector_def)
    from demand_of_eq [OF this, of q i] show ?thesis
      using Cons.prems Cons.IH [OF ok(3)] True ok by (auto simp: x skip_node_schedulable)
  next
    case False
    then show ?thesis using Cons by (simp add: x skip_node_schedulable)
  qed
qed simp

lemma node_demands_fails:
  "(\<exists>e. node_demands api q skipLabel xs = Inl e) \<longleftrightarrow>
     (\<exists>node \<in> snd ` set xs. schedulable skipLabel node \<and> (\<exists>e. running_pods api node = Inl e))"
proof (induction xs)
  case (Cons x xs)
  obtain i node where x: "x = (i, node)" by fastforce
  have "running_pods api node = (case ParseSelector api (node_selector node) of Inl e \<Rightarrow> Inl e | Inr sel \<Rightarrow> list_pods api sel)"
    by (simp add: running_pods_def node_selector_def)
  then show ?case using Cons
    by (cases "node_demands api q skipLabel xs") (auto simp: x skip_node_schedulable split: sum.splits)
qed simp

lemma plain_name: "CHR ''/'' \<notin> set e \<Longrightarrow> plain_element (e @ show_int (int n))"
proof -
  assume e: "CHR ''/'' \<notin> set e"
  have digits: "\<not> is_digit (CHR ''.'')" "\<not> is_digit (CHR ''/'')" by (simp_all add: is_digit_def)
  have "show_int (int n) = show_nat n" by (simp add: show_int_def)
  then have "show_int (int n) \<noteq> []" "last (show_int (int n)) \<noteq> CHR ''.''" "CHR ''/'' \<notin> set (show_int (int n))"
    using show_nat_nonempty [of n] show_nat_digits [of n] last_in_set [of "show_nat n"] digits by metis+
  moreover from this have "last (e @ show_int (int n)) \<noteq> CHR ''.''" by simp
  then have "e @ show_int (int n) \<noteq> ''.''" "e @ show_int (int n) \<noteq> ''..''"
    by (metis last_ConsL, metis last_ConsL last_ConsR list.distinct(1))
  ultimately show ?thesis using e by (simp add: plain_element_def)
qed

lemma child_path_plain:
  assumes "\<forall>e \<in> set es. plain_element e" and "es \<noteq> []"
  shows "child_path ''k8scluster0'' es = Some (vertex_path es)"
  using getNodePath_plain [of "''k8scluster0''" es] assms by (simp add: child_path_def vertex_path_def plain_element_def)

lemma listed_vertices_eq:
  assumes "CHR ''/'' \<notin> set (nd_zone d)" and "CHR ''/'' \<notin> set (nd_name d)"
  shows "demand_vertices ''k8scluster0'' s d = listed_vertices s d"
proof -
  have "plain_element (nd_zone d @ show_int (int s))" "plain_element (nd_name d @ show_int (int n))"
    "plain_element (''nvidiagpu'' @ show_int (int n))" "plain_element (''core'' @ show_int (int n))"
    "plain_element (''memory'' @ show_int (int n))" for n
    using assms by (intro plain_name; simp)+
  then show ?thesis
    by (simp add: demand_vertices_def listed_vertices_def leaves_def child_path_plain Let_def del: append_Cons)
qed

lemma tree_vertices_listed:
  assumes "\<forall>d \<in> set ds. CHR ''/'' \<notin> set (nd_zone d) \<and> CHR ''/'' \<notin> set (nd_name d)"
  shows "tree_vertices ''k8scluster0'' s ds = concat (map (\<lambda>(s, d). listed_vertices s d) (List.enumerate s ds))"
  using assms by (induction ds arbitrary: s) (simp_all add: listed_vertices_eq)

lemma listed_demands_eq:
  "listed_demands api q skipLabel items = map (demand_of api q) (filter (\<lambda>(i, node). schedulable skipLabel node) (List.enumerate 0 items))"
  by (simp add: listed_demands_def demand_of_def)

lemma listed_no_slashes:
  assumes "no_slashes skipLabel items" and "d \<in> set (listed_demands api q skipLabel items)"
  shows "CHR ''/'' \<notin> set (nd_zone d) \<and> CHR ''/'' \<notin> set (nd_name d)"
proof -
  obtain i node where n: "(i, node) \<in> set (List.enumerate 0 items)" "schedulable skipLabel node" "d = demand_of api q (i, node)"
    using assms(2) by (auto simp: listed_demands_eq)
  then have "node \<in> snd ` set (List.enumerate 0 items)" by (metis image_eqI snd_conv)
  then have "node \<in> set items" by (metis list.set_map map_snd_enumerate)
  then show ?thesis using assms(1) n(2,3) by (simp add: no_slashes_def demand_of_def map_get_zero_def)
qed

definition is_cluster_graph :: "node_demand list \<Rightarrow> FluxJGF \<Rightarrow> bool" where
  "is_cluster_graph ds g \<longleftrightarrow> tree_ok (tree_parents 1 ds) g \<and>
     map vertex_of (g_Nodes g) = (''cluster'', Some ''/k8scluster0'') #
       concat (map (\<lambda>(s, d). listed_vertices s d) (List.enumerate 0 ds))"

text \<open>When every call of the API server succeeds the graph is made and written, otherwise neither.\<close>

definition cluster_readable :: "('p, 'q) cluster_client \<Rightarrow> string \<Rightarrow> 'q cluster_node list \<Rightarrow> bool" where
  "cluster_readable api skipLabel items \<longleftrightarrow>
     InClusterConfig_error api = None \<and> NewForConfig_error api = None \<and> list_nodes api = Inr items \<and>
     (\<forall>node \<in> set items. schedulable skipLabel node \<longrightarrow> (\<exists>pods. running_pods api node = Inr pods))"

lemma CreateInClusterJGF_readable:
  assumes "cluster_readable api skipLabel items" and "no_slashes skipLabel items"
  obtains g where "is_cluster_graph (listed_demands api q skipLabel items) g"
    "CreateInClusterJGF api q io filename skipLabel fs =
       bind_outcome (WriteJGF io filename g fs) (\<lambda>fs'. Returns (Inr g, fs'))"
proof -
  have api: "InClusterConfig_error api = None" "NewForConfig_error api = None" "list_nodes api = Inr items"
    and read: "\<forall>node \<in> set items. schedulable skipLabel node \<longrightarrow> (\<exists>pods. running_pods api node = Inr pods)"
    using assms(1) by (simp_all add: cluster_readable_def)
  have "snd ` set (List.enumerate 0 items) = set items" by (metis list.set_map map_snd_enumerate)
  with read have "\<not> (\<exists>e. node_demands api q skipLabel (List.enumerate 0 items) = Inl e)"
    unfolding node_demands_fails by auto
  then obtain ds where ds: "node_demands api q skipLabel (List.enumerate 0 items) = Inr ds"
    by (cases "node_demands api q skipLabel (List.enumerate 0 items)") auto
  then have listed: "ds = listed_demands api q skipLabel items"
    using node_demands_listed [OF ds] by (simp add: listed_demands_eq)
  have "tree_vertices ''k8scluster0'' 0 ds = concat (map (\<lambda>(s, d). listed_vertices s d) (List.enumerate 0 ds))"
    using tree_vertices_listed listed_no_slashes [OF assms(2)] unfolding listed by blast
  moreover from ds obtain g where "tree_ok (tree_parents 1 ds) g"
    "map vertex_of (g_Nodes g) = (''cluster'', Some ''/k8scluster0'') # tree_vertices ''k8scluster0'' 0 ds"
    "CreateInClusterJGF api q io filename skipLabel fs =
       bind_outcome (WriteJGF io filename g fs) (\<lambda>fs'. Returns (Inr g, fs'))"
    using CreateInClusterJGF_built [OF api, of q io filename skipLabel fs] by auto
  ultimately show ?thesis using that [of g] unfolding is_cluster_graph_def listed by metis
qed

lemma CreateInClusterJGF_unreadable:
  assumes "\<nexists>items. cluster_readable api skipLabel items"
  shows "\<exists>e. CreateInClusterJGF api q io filename skipLabel fs = Returns (Inl e, fs)"
proof (cases "InClusterConfig_error api = None \<and> NewForConfig_error api = None \<and> (\<exists>items. list_nodes api = Inr items)")
  case True
  then obtain items where api: "InClusterConfig_error api = None" "NewForConfig_error api = None" "list_nodes api = Inr items"
    by blast
  then obtain node where "node \<in> set items" "schedulable skipLabel node" "\<not> (\<exists>pods. running_pods api node = Inr pods)"
    using assms by (auto simp: cluster_readable_def)
  moreover have "snd ` set (List.enumerate 0 items) = set items" by (metis list.set_map map_snd_enumerate)
  moreover have "\<exists>e. running_pods api node = Inl e" using calculation(3) by (cases "running_pods api node") auto
  ultimately have "\<exists>e. node_demands api q skipLabel (List.enumerate 0 items) = Inl e"
    unfolding node_demands_fails by auto
  then show ?thesis using CreateInClusterJGF_built [OF api, of q io filename skipLabel fs] by auto
next
  case False
  then show ?thesis by (auto simp: CreateInClusterJGF_def split: option.split sum.split)
qed

lemma CreateInClusterJGF_written:
  assumes "CreateInClusterJGF api q io filename skipLabel fs = Returns (Inr g, fs')"
    and "list_nodes api = Inr items" and "no_slashes skipLabel items"
  shows "cluster_readable api skipLabel items \<and> is_cluster_graph (listed_demands api q skipLabel items) g \<and>
    (\<exists>text. marshal_indent io g = Inr text \<and> fs' = fs(filename \<mapsto> text))"
proof -
  have "\<exists>items. cluster_readable api skipLabel items"
    using assms(1) CreateInClusterJGF_unreadable [of api skipLabel q io filename fs] by auto
  then have read: "cluster_readable api skipLabel items" using assms(2) by (auto simp: cluster_readable_def)
  obtain g' where "is_cluster_graph (listed_demands api q skipLabel items) g'"
    "CreateInClusterJGF api q io filename skipLabel fs =
       bind_outcome (WriteJGF io filename g' fs) (\<lambda>fs'. Returns (Inr g', fs'))"
    by (rule CreateInClusterJGF_readable [OF read assms(3)])
  then show ?thesis using assms(1) read
    by (auto simp: bind_outcome_Returns_iff WriteJGF_def ToBytes_def split: sum.splits if_splits)
qed

text \<open>C12: which graph is built and written. It is a tree over the cluster vertex: ids number the
  vertices, the node map holds each under its id, every other vertex has one parent, made before it,
  and the edges are the contains/in pairs of the tree. Below the cluster there is one subnet vertex
  for every node of the listing that is not of the control plane, has no label of the given name and
  is schedulable, named after its zone and numbered; nodes of one zone do not share theirs, against
  the comment at the lookup that was to share them. Below it is the compute node with its gpus, one
  core for every whole cpu and one memory vertex for every whole GiB that the requests of its running
  pods leave; every path is that of the parent and the vertex's own name. (No name and no zone of a
  node has a slash.)\<close>

theorem cluster_graph_is_the_tree:
  assumes "CreateInClusterJGF api q io filename skipLabel fs = Returns (Inr g, fs')"
    and "list_nodes api = Inr items" and "no_slashes skipLabel items"
  shows "let ds = listed_demands api q skipLabel items
    in tree_ok (tree_parents 1 ds) g \<and>
       map vertex_of (g_Nodes g) =
         (''cluster'', Some ''/k8scluster0'') # concat (map (\<lambda>(s, d). listed_vertices s d) (List.enumerate 0 ds)) \<and>
       (\<exists>text. marshal_indent io g = Inr text \<and> fs' = fs(filename \<mapsto> text))"
  using CreateInClusterJGF_written [OF assms] by (simp add: Let_def is_cluster_graph_def)

text \<open>A cluster with a node of the control plane and two others, in two zones.\<close>

definition ex_ops :: "int quantity_ops" where
  "ex_ops = \<lparr>q_Value = (\<lambda>n. n div 1000), q_MilliValue = (\<lambda>n. n), q_Add = (+), q_zero = 0\<rparr>"

definition ex_node :: "string \<Rightarrow> (string \<times> string) list \<Rightarrow> int cluster_node" where
  "ex_node name labels = \<lparr>cn_Name = name, cn_Labels = Some labels, cn_Unschedulable = False,
     cn_Allocatable = [(''cpu'', 2000), (''memory'', 1000 * 2 ^ 30), (''nvidia.com/gpu'', 1000)]\<rparr>"

definition ex_nodes :: "int cluster_node list" where
  "ex_nodes = [ex_node ''cp'' [(''node-role.kubernetes.io/control-plane'', [])],
     ex_node ''a'' [(''topology.kubernetes.io/zone'', ''east'')], ex_node ''b'' [(''topology.kubernetes.io/zone'', ''west'')]]"

definition ex_client :: "(unit, int) cluster_client" where
  "ex_client = \<lparr>InClusterConfig_error = None, NewForConfig_error = None,
     list_nodes = Inr ex_nodes, ParseSelector = Inr, list_pods = (\<lambda>_. Inr [()]),
     PodRequestsAndLimits = (\<lambda>_. [(''cpu'', 500)])\<rparr>"

definition ex_output :: file_io where
  "ex_output = \<lparr>marshal_indent = (\<lambda>_. Inr ''{}''), os_create = (\<lambda>_. None), file_write = (\<lambda>_ _. None), os_read = (\<lambda>_. None)\<rparr>"

lemma ex_schedulable: "filter (\<lambda>(i, node). schedulable [] node) (List.enumerate 0 ex_nodes) =
    [(1, ex_nodes ! 1), (2, ex_nodes ! 2)]"
  by (simp add: ex_nodes_def schedulable_def ex_node_def map_get_def)

lemma ex_running: "running_pods ex_client node = Inr [()]"
  by (simp add: running_pods_def ex_client_def)

lemma ex_demands:
  "listed_demands ex_client ex_ops [] ex_nodes =
     [\<lparr>nd_position = 1, nd_zone = ''east'', nd_name = ''a'', nd_gpus = 1, nd_cores = 1, nd_memory = 1\<rparr>,
      \<lparr>nd_position = 2, nd_zone = ''west'', nd_name = ''b'', nd_gpus = 1, nd_cores = 1, nd_memory = 1\<rparr>]"
proof -
  have "requested ex_client ex_ops ''cpu'' [()] = 500" "requested ex_client ex_ops ''memory'' [()] = 0"
    by (simp_all add: requested_def ex_client_def ex_ops_def)
  then have "left_on ex_client ex_ops (ex_node n ls) ''cpu'' (q_MilliValue ex_ops) = 1500"
    "left_on ex_client ex_ops (ex_node n ls) ''memory'' (q_Value ex_ops) = 2 ^ 30" for n ls
    by (simp_all add: left_on_def ex_running) (simp_all add: ex_node_def ex_ops_def wrap64_id)
  then show ?thesis
    unfolding listed_demands_def ex_schedulable
    by (simp add: ex_nodes_def) (simp add: ex_node_def map_get_def ex_ops_def)
qed

lemma ex_readable: "cluster_readable ex_client [] ex_nodes" "no_slashes [] ex_nodes" "list_nodes ex_client = Inr ex_nodes"
  by (simp_all add: cluster_readable_def ex_running no_slashes_def) (simp_all add: ex_client_def ex_nodes_def ex_node_def map_get_zero_def map_get_def)

lemma ex_written:
  "\<exists>g. CreateInClusterJGF ex_client ex_ops ex_output filename [] fs = Returns (Inr g, fs(filename \<mapsto> ''{}''))"
proof -
  obtain g where "CreateInClusterJGF ex_client ex_ops ex_output filename [] fs =
       bind_outcome (WriteJGF ex_output filename g fs) (\<lambda>fs'. Returns (Inr g, fs'))"
    by (rule CreateInClusterJGF_readable [OF ex_readable(1,2)])
  then show ?thesis by (simp add: WriteJGF_def ToBytes_def ex_output_def)
qed

lemma ex_digits: "show_int 0 = ''0''" "show_int 1 = ''1''" "show_int 2 = ''2''"
proof -
  have "char_of (48 :: nat) = CHR ''0''" "char_of (49 :: nat) = CHR ''1''" "char_of (50 :: nat) = CHR ''2''"
    by (simp_all add: char_of_def bit_0)
  then show "show_int 0 = ''0''" "show_int 1 = ''1''" "show_int 2 = ''2''"
    by (simp_all add: show_int_def show_nat.simps digit_char_def)
qed

theorem cluster_graph_is_the_tree_witness:
  "\<exists>g fs'. CreateInClusterJGF ex_client ex_ops ex_output ''cluster.jgf'' [] Map.empty = Returns (Inr g, fs') \<and>
     tree_ok [0, 1, 2, 2, 2, 0, 6, 7, 7, 7] g \<and>
     map vertex_of (g_Nodes g) =
       [(''cluster'', Some ''/k8scluster0''),
        (''subnet'', Some ''/k8scluster0/east0''), (''node'', Some ''/k8scluster0/east0/a1''),
        (''gpu'', Some ''/k8scluster0/east0/a1/nvidiagpu0''), (''core'', Some ''/k8scluster0/east0/a1/core0''),
        (''memory'', Some ''/k8scluster0/east0/a1/memory0''),
        (''subnet'', Some ''/k8scluster0/west1''), (''node'', Some ''/k8scluster0/west1/b2''),
        (''gpu'', Some ''/k8scluster0/west1/b2/nvidiagpu0''), (''core'', Some ''/k8scluster0/west1/b2/core0''),
        (''memory'', Some ''/k8scluster0/west1/b2/memory0'')]"
proof -
  obtain g where g: "CreateInClusterJGF ex_client ex_ops ex_output ''cluster.jgf'' [] Map.empty =
      Returns (Inr g, [''cluster.jgf'' \<mapsto> ''{}''])"
    using ex_written by blast
  have "tree_ok [0, 1, 2, 2, 2, 0, 6, 7, 7, 7] g"
    using cluster_graph_is_the_tree [OF g ex_readable(3,2)]
    unfolding ex_demands Let_def by (simp add: nd_leaves_def eval_nat_numeral)
  moreover have "map vertex_of (g_Nodes g) =
      (''cluster'', Some ''/k8scluster0'') #
      concat (map (\<lambda>(s, d). listed_vertices s d) (List.enumerate 0 (listed_demands ex_client ex_ops [] ex_nodes)))"
    using cluster_graph_is_the_tree [OF g ex_readable(3,2)] unfolding Let_def by (elim conjE)
  ultimately show ?thesis
    using g unfolding ex_demands
    by (intro exI [of _ g] exI conjI) (assumption | simp add: listed_vertices_def vertex_path_def ex_digits)+
qed

lemma count_subnets:
  "length (filter (\<lambda>v. fst v = ''subnet'') (concat (map (\<lambda>(s, d). listed_vertices s d) (List.enumerate s ds)))) = length ds"
  by (induction ds arbitrary: s) (auto simp: listed_vertices_def Let_def filter_empty_conv)

text \<open>The lookup meant to share one subnet vertex among the nodes of a zone is never filled:
  the written graph has as many subnet vertices as schedulable nodes, whatever their zones.\<close>

theorem subnets_are_never_shared:
  assumes "CreateInClusterJGF api q io filename skipLabel fs = Returns (Inr g, fs')"
    and "list_nodes api = Inr items" and "no_slashes skipLabel items"
  shows "length (filter (\<lambda>nd. nm_Type (n_Metadata nd) = ''subnet'') (g_Nodes g)) =
    length (filter (schedulable skipLabel) items)"
proof -
  let ?ds = "listed_demands api q skipLabel items"
  have "length (filter (\<lambda>v. fst v = ''subnet'') (map vertex_of (g_Nodes g))) = length ?ds"
    using CreateInClusterJGF_written [OF assms] count_subnets [of 0 ?ds] by (simp add: is_cluster_graph_def)
  moreover have "length (filter (\<lambda>(i, node). schedulable skipLabel node) (List.enumerate n items)) =
      length (filter (schedulable skipLabel) items)" for n
    by (induction items arbitrary: n) simp_all
  ultimately show ?thesis by (simp add: filter_map comp_def vertex_of_def listed_demands_def)
qed

theorem subnets_are_never_shared_witness:
  "\<exists>g fs'. CreateInClusterJGF ex_client ex_ops ex_output ''cluster.jgf'' [] Map.empty = Returns (Inr g, fs') \<and>
     length (filter (\<lambda>nd. nm_Type (n_Metadata nd) = ''subnet'') (g_Nodes g)) = 2"
proof -
  obtain g where g: "CreateInClusterJGF ex_client ex_ops ex_output ''cluster.jgf'' [] Map.empty =
      Returns (Inr g, [''cluster.jgf'' \<mapsto> ''{}''])"
    using ex_written by blast
  have "length (filter (schedulable []) ex_nodes) = 2"
    by (simp add: ex_nodes_def schedulable_def ex_node_def map_get_def)
  then show ?thesis using subnets_are_never_shared [OF g ex_readable(3,2)] g by auto
qed

text \<open>The summary by node of the pods that run adds up, in the widths of its fields, the
  requests of all containers of the pods on that node, and has no entry for other nodes.\<close>

theorem RegisterExisting_sums:
  "map_of (fst (RegisterExisting (Inr pods))) n =
     (if n \<in> NodeName ` set pods
      then Some (fold add_container (node_containers n pods) empty_summary)
      else None) \<and>
   (let ps = fold add_container (node_containers n pods) empty_summary
    in us_Memory ps = sum_list (map memory_request (node_containers n pods)) \<and>
       us_Cpu ps = sum_list (map (ucast \<circ> cpu_request) (node_containers n pods)) \<and>
       us_Gpu ps = sum_list (map gpu_limit (node_containers n pods)) \<and>
       us_Storage ps = sum_list (map storage_request (node_containers n pods)))"
  by (simp add: RegisterExisting_def map_of_fold_register_pod Let_def fold_add_container empty_summary_def)

end
