(* ===== verification/NodeSelection.thy ===== *)
theory NodeSelection
  imports Kube
begin

text \<open>
  The parts of \<open>kubernetes/pkg/scheduler/schedule_one.go\<close> that choose nodes: how many feasible
  nodes to look for, which nodes the extenders let through, and the texts the scheduler writes.
  Extenders and framework plugins are not under src/: their answers are parameters. Go's \<open>int32\<close>
  is a word; its division truncates.
\<close>

section \<open>How many nodes to find\<close>

definition minFeasibleNodesToFind :: int32 where "minFeasibleNodesToFind = 100"
definition minFeasibleNodesPercentageToFind :: int32 where "minFeasibleNodesPercentageToFind = 5"

definition div32 :: "int32 \<Rightarrow> int32 \<Rightarrow> int32" where
  "div32 a b = word_of_int (go_div (sint a) (sint b))"

definition numFeasibleNodesToFind :: "int32 \<Rightarrow> int32 option \<Rightarrow> int32 \<Rightarrow> int32" where
  "numFeasibleNodesToFind schedPercentage percentageOfNodesToScore numAllNodes =
     (if numAllNodes <s minFeasibleNodesToFind then numAllNodes
      else let percentage = (case percentageOfNodesToScore of Some n \<Rightarrow> n | None \<Rightarrow> schedPercentage);
               percentage =
                 (if percentage = 0
                  then let adaptive = 50 - div32 numAllNodes 125
                       in if adaptive <s minFeasibleNodesPercentageToFind
                          then minFeasibleNodesPercentageToFind else adaptive
                  else percentage);
               numNodes = div32 (numAllNodes * percentage) 100
           in if numNodes <s minFeasibleNodesToFind then minFeasibleNodesToFind else numNodes)"

lemma sint_div32:
  assumes "0 \<le> sint a" and "0 < sint b"
  shows "sint (div32 a b) = sint a div sint b"
proof -
  have "sint a div sint b \<le> sint a" using assms zdiv_mono2 [of "sint a" 1 "sint b"] by simp
  moreover have "sint a < 2 ^ 31" using sint_lt [of a] by simp
  moreover have "0 \<le> sint a div sint b" using assms by (simp add: pos_imp_zdiv_nonneg_iff)
  ultimately have "int4_range (sint a div sint b)" by (simp add: int4_range_def)
  then show ?thesis using wrap32_id assms by (simp add: div32_def go_div_nonneg wrap32_def)
qed

lemma sint_mult32:
  "int4_range (sint a * sint b) \<Longrightarrow> sint (a * b :: int32) = sint a * sint b"
  using wrap32_id [of "sint a * sint b"] by (simp add: wrap32_def)

lemma sint_sub32:
  "int4_range (sint a - sint b) \<Longrightarrow> sint (a - b :: int32) = sint a - sint b"
  using wrap32_id [of "sint a - sint b"] by (simp add: wrap32_def)

text \<open>The percentage the search ends up with.\<close>

definition used_percentage :: "int32 \<Rightarrow> int32 option \<Rightarrow> int32 \<Rightarrow> int32" where
  "used_percentage g p n =
     (let percentage = (case p of Some n \<Rightarrow> n | None \<Rightarrow> g)
      in if percentage = 0
         then let adaptive = 50 - div32 n 125
              in if adaptive <s minFeasibleNodesPercentageToFind
                 then minFeasibleNodesPercentageToFind else adaptive
         else percentage)"

lemma sint_consts:
  "sint (100 :: int32) = 100" "sint (125 :: int32) = 125" "sint (5 :: int32) = 5" "sint (50 :: int32) = 50"
  by simp_all

lemma numFeasibleNodesToFind_large:
  assumes "100 \<le> sint n" and "0 \<le> sint (used_percentage g p n)"
    and "sint n * sint (used_percentage g p n) < 2 ^ 31"
  shows "sint (numFeasibleNodesToFind g p n) = max 100 (sint n * sint (used_percentage g p n) div 100)"
proof -
  let ?u = "used_percentage g p n"
  have big: "\<not> n <s minFeasibleNodesToFind"
    using assms(1) by (simp add: word_sless_alt minFeasibleNodesToFind_def)
  have pos: "0 \<le> sint n * sint ?u" using assms(1,2) by simp
  then have "int4_range (sint n * sint ?u)" using assms(3) by (simp add: int4_range_def)
  then have "sint (div32 (n * ?u) 100) = sint n * sint ?u div 100"
    using sint_div32 [of "n * ?u" 100] sint_mult32 pos by simp
  then show ?thesis
    using big unfolding numFeasibleNodesToFind_def used_percentage_def Let_def
    by (simp add: word_sless_alt minFeasibleNodesToFind_def max_def)
qed

lemma adaptive_percentage:
  assumes "0 \<le> sint n" and "case p of Some m \<Rightarrow> m = 0 | None \<Rightarrow> g = 0"
  shows "sint (used_percentage g p n) = max 5 (50 - sint n div 125)"
proof -
  have d: "sint (div32 n 125) = sint n div 125" using sint_div32 [of n 125] assms(1) by simp
  have "0 \<le> sint n div 125" "sint n div 125 \<le> sint n"
    using assms(1) zdiv_mono2 [of "sint n" 1 125] by (simp_all add: pos_imp_zdiv_nonneg_iff)
  moreover have "sint n < 2 ^ 31" using sint_lt [of n] by simp
  ultimately have "int4_range (50 - sint n div 125)" by (simp add: int4_range_def)
  then have "sint (50 - div32 n 125) = 50 - sint n div 125"
    using sint_sub32 [of 50 "div32 n 125"] d by simp
  then show ?thesis
    using assms(2) unfolding used_percentage_def Let_def
    by (auto simp: word_sless_alt minFeasibleNodesPercentageToFind_def max_def split: option.splits)
qed

section \<open>Extenders\<close>

datatype failure_code = Unschedulable | UnschedulableAndUnresolvable

text \<open>The status of a node that failed: its code and its reasons, oldest first.\<close>

type_synonym node_statuses = "(string \<times> failure_code \<times> string list) list"

record filter_result =
  fr_feasible :: "string list"
  fr_failed :: "(string \<times> string) list"
  fr_unresolvable :: "(string \<times> string) list"

record extender =
  IsInterested :: "pod \<Rightarrow> bool"
  IsIgnorable :: bool
  IsFilter :: bool
  IsPrioritizer :: bool
  IsBinder :: bool
  ext_Name :: string
  Filter :: "pod \<Rightarrow> string list \<Rightarrow> goerror + filter_result"
  Prioritize :: "pod \<Rightarrow> string list \<Rightarrow> goerror + (string \<times> int64) list \<times> int64"  \<comment> \<open>hosts with scores, and the weight\<close>
  ext_Bind :: "pod \<Rightarrow> string \<Rightarrow> goerror option"

fun hasExtenderFilters :: "extender list \<Rightarrow> bool" where
  "hasExtenderFilters [] = False"
| "hasExtenderFilters (x # xs) = (if IsFilter x then True else hasExtenderFilters xs)"

fun any_prioritizer :: "extender list \<Rightarrow> bool" where
  "any_prioritizer [] = False"
| "any_prioritizer (x # xs) = (if IsPrioritizer x then True else any_prioritizer xs)"

definition hasScoring :: "bool \<Rightarrow> extender list \<Rightarrow> bool" where
  "hasScoring hasScorePlugins extenders = (if hasScorePlugins then True else any_prioritizer extenders)"

definition add_unresolvable :: "(string \<times> string) list \<Rightarrow> node_statuses \<Rightarrow> node_statuses" where
  "add_unresolvable fmap statuses =
     fold (\<lambda>(node, msg) st.
             let reasons = (case map_of st node of None \<Rightarrow> [] | Some (c, rs) \<Rightarrow> rs)
             in AList.update node (UnschedulableAndUnresolvable, reasons @ [msg]) st) fmap statuses"

definition add_failed ::
  "(string \<times> string) list \<Rightarrow> (string \<times> string) list \<Rightarrow> node_statuses \<Rightarrow> node_statuses" where
  "add_failed unresolvable fmap statuses =
     fold (\<lambda>(node, msg) st.
             if map_of unresolvable node \<noteq> None then st
             else case map_of st node of
                    None \<Rightarrow> AList.update node (Unschedulable, [msg]) st
                  | Some (c, rs) \<Rightarrow> AList.update node (c, rs @ [msg]) st) fmap statuses"

fun findNodesThatPassExtenders ::
  "extender list \<Rightarrow> pod \<Rightarrow> string list \<Rightarrow> node_statuses \<Rightarrow> (goerror + string list) \<times> node_statuses" where
  "findNodesThatPassExtenders [] p feasibleNodes statuses = (Inr feasibleNodes, statuses)"
| "findNodesThatPassExtenders (x # xs) p feasibleNodes statuses =
     (if feasibleNodes = [] then (Inr feasibleNodes, statuses)
      else if \<not> IsInterested x p then findNodesThatPassExtenders xs p feasibleNodes statuses
      else case Filter x p feasibleNodes of
             Inl e \<Rightarrow> if IsIgnorable x then findNodesThatPassExtenders xs p feasibleNodes statuses
                      else (Inl e, statuses)
           | Inr r \<Rightarrow> findNodesThatPassExtenders xs p (fr_feasible r)
               (add_failed (fr_unresolvable r) (fr_failed r) (add_unresolvable (fr_unresolvable r) statuses)))"

text \<open>What an extender's filter promises: it answers with nodes it was given, and accounts for
  every node it drops.\<close>

definition extender_ok :: "extender \<Rightarrow> bool" where
  "extender_ok x \<longleftrightarrow> (\<forall>p nodes r. Filter x p nodes = Inr r \<longrightarrow>
     set (fr_feasible r) \<subseteq> set nodes \<and>
     set nodes \<subseteq> set (fr_feasible r) \<union> fst ` set (fr_failed r) \<union> fst ` set (fr_unresolvable r))"

lemma dom_add_unresolvable: "fst ` set (add_unresolvable fmap st) = fst ` set fmap \<union> fst ` set st"
proof -
  have "dom (map_of (add_unresolvable fmap st)) = fst ` set fmap \<union> dom (map_of st)"
    by (induction fmap arbitrary: st)
      (auto simp: add_unresolvable_def Let_def update_conv' split: if_splits)
  then show ?thesis by (simp add: dom_map_of_conv_image_fst)
qed

lemma dom_add_failed_sub:
  "fst ` set st \<subseteq> fst ` set (add_failed u fmap st) \<and>
   fst ` set fmap \<subseteq> fst ` set (add_failed u fmap st) \<union> fst ` set u"
proof -
  have "dom (map_of st) \<subseteq> dom (map_of (add_failed u fmap st)) \<and>
      fst ` set fmap \<subseteq> dom (map_of (add_failed u fmap st)) \<union> dom (map_of u)"
  proof (induction fmap arbitrary: st)
    case Nil
    then show ?case by (simp add: add_failed_def)
  next
    case (Cons f fs)
    obtain node msg where f: "f = (node, msg)" by (cases f)
    define st1 where "st1 = (if map_of u node \<noteq> None then st
      else case map_of st node of None \<Rightarrow> AList.update node (Unschedulable, [msg]) st
           | Some (c, rs) \<Rightarrow> AList.update node (c, rs @ [msg]) st)"
    have "add_failed u (f # fs) st = add_failed u fs st1" by (simp add: add_failed_def f st1_def)
    moreover have "dom (map_of st) \<subseteq> dom (map_of st1)" "node \<in> dom (map_of st1) \<union> dom (map_of u)"
      by (auto simp: st1_def update_conv' split: option.splits prod.splits)
    ultimately show ?case using Cons [of st1] unfolding f by (simp add: subset_iff) blast
  qed
  then show ?thesis by (simp add: dom_map_of_conv_image_fst)
qed

lemma findNodesThatPassExtenders_sound:
  assumes "findNodesThatPassExtenders xs p nodes st = (Inr res, st')" and "\<forall>x \<in> set xs. extender_ok x"
  shows "set res \<subseteq> set nodes \<and> set nodes \<subseteq> set res \<union> fst ` set st' \<and> fst ` set st \<subseteq> fst ` set st'"
  using assms
proof (induction xs p nodes st rule: findNodesThatPassExtenders.induct)
  case (1 p nodes st)
  then show ?case by auto
next
  case (2 x xs p nodes st)
  show ?case
  proof (cases "nodes \<noteq> [] \<and> IsInterested x p \<and> (\<exists>r. Filter x p nodes = Inr r)")
    case False
    then show ?thesis using 2 by (auto split: if_splits sum.splits)
  next
    case True
    then obtain r where r: "Filter x p nodes = Inr r" by blast
    let ?st = "add_failed (fr_unresolvable r) (fr_failed r) (add_unresolvable (fr_unresolvable r) st)"
    have ok: "set (fr_feasible r) \<subseteq> set nodes"
      "set nodes \<subseteq> set (fr_feasible r) \<union> fst ` set (fr_failed r) \<union> fst ` set (fr_unresolvable r)"
      using 2(5) r by (auto simp: extender_ok_def)
    have "findNodesThatPassExtenders xs p (fr_feasible r) ?st = (Inr res, st')" using 2(4) True r by simp
    then have IH: "set res \<subseteq> set (fr_feasible r)" "set (fr_feasible r) \<subseteq> set res \<union> fst ` set st'"
      "fst ` set ?st \<subseteq> fst ` set st'"
      using 2(3) True r 2(5) by auto
    let ?un = "add_unresolvable (fr_unresolvable r) st"
    have un: "fst ` set ?un = fst ` set (fr_unresolvable r) \<union> fst ` set st" by (rule dom_add_unresolvable)
    have 1: "fst ` set ?un \<subseteq> fst ` set ?st"
      and 2: "fst ` set (fr_failed r) \<subseteq> fst ` set ?st \<union> fst ` set (fr_unresolvable r)"
      using dom_add_failed_sub by blast+
    have st: "fst ` set st \<subseteq> fst ` set ?st" "fst ` set (fr_unresolvable r) \<subseteq> fst ` set ?st"
      using 1 unfolding un by simp_all
    then have "fst ` set (fr_failed r) \<subseteq> fst ` set ?st" using 2 by (simp add: Un_absorb2)
    then have "set nodes \<subseteq> set (fr_feasible r) \<union> fst ` set st'"
      using ok(2) IH(3) st(2) by (meson Un_least Un_upper1 le_supI2 order_trans)
    then show ?thesis using ok(1) IH st(1) by (meson Un_least Un_upper2 order_trans)
  qed
qed

section \<open>Texts\<close>

text \<open>\<open>NoteLengthLimit\<close> of the events API: 1024 bytes.\<close>

definition truncateMessage :: "nat \<Rightarrow> string \<Rightarrow> string" where
  "truncateMessage noteLengthLimit message =
     (if length message \<le> noteLengthLimit then message
      else let suffix = '' ...'' in take (noteLengthLimit - length suffix) message @ suffix)"

definition getAttemptsLabel :: "int \<Rightarrow> string" where
  "getAttemptsLabel attempts = (if 15 \<le> attempts then ''15+'' else show_int attempts)"

end
