(* ===== verification/Binding.thy ===== *)
theory Binding
  imports NodeSelection
begin

text \<open>
  From a chosen node to a bound pod, \<open>kubernetes/pkg/scheduler/schedule_one.go\<close>: assuming a pod
  in the scheduler cache, reserving, permitting, binding, and what undoes them. The framework's
  plugins, the cache and the scheduling queue are not under src/; their answers are the fields of
  \<open>framework\<close>, and what the code does to them is a trace of effects in order. A status is of
  an unknown type \<open>'s\<close> and is read through \<open>status_ops\<close>; the nil status is \<open>st_ok\<close>.
\<close>

section \<open>Statuses, answers and effects\<close>

text \<open>A \<open>NominatingInfo\<close>: none (or one that changes nothing), the cleared one, or a node.\<close>

datatype nominating = NoNominating | ClearNominated | Nominated string

datatype schedule_failure = NoNodesAvailable | FitFailure | OtherFailure goerror

record 's status_ops =
  IsSuccess :: "'s \<Rightarrow> bool"
  IsRejected :: "'s \<Rightarrow> bool"
  IsWait :: "'s \<Rightarrow> bool"
  IsSkip :: "'s \<Rightarrow> bool"
  st_ok :: 's
  AsStatus :: "goerror option \<Rightarrow> 's"
  fit_error_status :: "'s \<Rightarrow> 's"              \<comment> \<open>\<open>NewStatus(s.Code()).WithError(fitErr)\<close>\<close>
  unresolvable_status :: 's                    \<comment> \<open>\<open>NewStatus(UnschedulableAndUnresolvable)\<close> with the error\<close>
  unschedulable_status :: 's                   \<comment> \<open>\<open>NewStatus(Unschedulable)\<close> with the error\<close>

record 's framework =
  fw_SchedulePod :: "pod \<Rightarrow> schedule_failure + string"
  HasPostFilterPlugins :: bool
  RunPostFilterPlugins :: "pod \<Rightarrow> nominating"   \<comment> \<open>what the result nominates; nil is \<open>NoNominating\<close>\<close>
  RunReservePluginsReserve :: "pod \<Rightarrow> string \<Rightarrow> 's"
  RunPermitPlugins :: "pod \<Rightarrow> string \<Rightarrow> 's"
  RunPreBindPlugins :: "pod \<Rightarrow> string \<Rightarrow> 's"
  RunBindPlugins :: "pod \<Rightarrow> string \<Rightarrow> 's"
  cache_AssumePod :: "pod \<Rightarrow> goerror option"
  cache_ForgetPod :: "bool \<Rightarrow> pod \<Rightarrow> goerror option"   \<comment> \<open>the flag: in the binding cycle\<close>
  pod_extenders :: "extender list"
  informer_pod :: "string \<Rightarrow> string \<Rightarrow> pod option"  \<comment> \<open>the informer's copy: namespace, name\<close>
  NominatedNodeName :: "pod \<Rightarrow> string"               \<comment> \<open>of the pod's status\<close>
  UpdatePodCondition :: "pod \<Rightarrow> string \<Rightarrow> bool"      \<comment> \<open>whether the condition with this message changes the status\<close>

datatype effect =
    Assumed pod | NominatedDropped pod | Forgotten pod
  | Reserved pod string | Unreserved pod string | Permitted pod string | PostFiltered pod
  | PreBound pod string | ExtenderBound pod string | PluginsBound pod string | PostBound pod string
  | BindingFinished pod | EventScheduled pod string
  | PodsMoved pod bool                    \<comment> \<open>the flag: all but the pod itself\<close>
  | FailureEvent pod string | StatusPatched pod | Requeued pod | NominatedAdded pod | QueueDone string | QueueDeleted pod

record ScheduleResult =
  SuggestedHost :: string
  sr_nominating :: nominating

section \<open>Scheduling cycle\<close>

definition failed_result :: "nominating \<Rightarrow> ScheduleResult" where
  "failed_result n = \<lparr>SuggestedHost = [], sr_nominating = n\<rparr>"

text \<open>\<open>assume\<close>: the pod gets the node's name, whatever the cache says.\<close>

definition assume_pod :: "'s framework \<Rightarrow> pod \<Rightarrow> string \<Rightarrow> goerror option \<times> pod \<times> effect list" where
  "assume_pod F assumed host =
     (let assumed = assumed\<lparr>NodeName := host\<rparr>
      in case cache_AssumePod F assumed of
           Some e \<Rightarrow> (Some e, assumed, [])
         | None \<Rightarrow> (None, assumed, [Assumed assumed, NominatedDropped assumed]))"

text \<open>An error of the cache is only logged. What the cache says depends on its state, so that the calls
  of the two cycles may get different answers.\<close>

definition forget_effect :: "'s framework \<Rightarrow> bool \<Rightarrow> pod \<Rightarrow> effect list" where
  "forget_effect F binding p = (if cache_ForgetPod F binding p = None then [Forgotten p] else [])"

definition schedulingCycle ::
  "'s status_ops \<Rightarrow> 's framework \<Rightarrow> pod \<Rightarrow> (ScheduleResult \<times> pod \<times> 's) \<times> effect list" where
  "schedulingCycle S F p =
     (case fw_SchedulePod F p of
        Inl NoNodesAvailable \<Rightarrow> ((failed_result ClearNominated, p, unresolvable_status S), [])
      | Inl (OtherFailure e) \<Rightarrow> ((failed_result ClearNominated, p, AsStatus S (Some e)), [])
      | Inl FitFailure \<Rightarrow>
          if \<not> HasPostFilterPlugins F
          then ((failed_result NoNominating, p, unschedulable_status S), [])
          else ((failed_result (RunPostFilterPlugins F p), p, unschedulable_status S), [PostFiltered p])
      | Inr host \<Rightarrow>
          (case assume_pod F p host of
             (Some e, assumed, t1) \<Rightarrow> ((failed_result ClearNominated, assumed, AsStatus S (Some e)), t1)
           | (None, assumed, t1) \<Rightarrow>
          (let sts = RunReservePluginsReserve F assumed host;
               t2 = t1 @ [Reserved assumed host]
           in if \<not> IsSuccess S sts
              then ((failed_result ClearNominated, assumed,
                     if IsRejected S sts then fit_error_status S sts else sts),
                    t2 @ [Unreserved assumed host] @ forget_effect F False assumed)
              else
          (let runPermitStatus = RunPermitPlugins F assumed host;
               t3 = t2 @ [Permitted assumed host]
           in if \<not> IsWait S runPermitStatus \<and> \<not> IsSuccess S runPermitStatus
              then ((failed_result ClearNominated, assumed,
                     if IsRejected S runPermitStatus then fit_error_status S runPermitStatus
                     else runPermitStatus),
                    t3 @ [Unreserved assumed host] @ forget_effect F False assumed)
              else ((\<lparr>SuggestedHost = host, sr_nominating = NoNominating\<rparr>, assumed, st_ok S), t3)))))"

section \<open>Binding cycle\<close>

fun extendersBinding :: "extender list \<Rightarrow> pod \<Rightarrow> string \<Rightarrow> (bool \<times> goerror option) \<times> effect list" where
  "extendersBinding [] p node = ((False, None), [])"
| "extendersBinding (x # xs) p node =
     (if \<not> IsBinder x \<or> \<not> IsInterested x p then extendersBinding xs p node
      else case ext_Bind x p node of
             Some e \<Rightarrow> if IsIgnorable x then extendersBinding xs p node else ((True, Some e), [])
           | None \<Rightarrow> ((True, None), [ExtenderBound p node]))"

definition finishBinding :: "'s status_ops \<Rightarrow> pod \<Rightarrow> string \<Rightarrow> 's \<Rightarrow> effect list" where
  "finishBinding S assumed targetNode status =
     BindingFinished assumed #
     (if \<not> IsSuccess S status then [] else [EventScheduled assumed targetNode])"

definition bind_pod :: "'s status_ops \<Rightarrow> 's framework \<Rightarrow> pod \<Rightarrow> string \<Rightarrow> 's \<times> effect list" where
  "bind_pod S F assumed targetNode =
     (let ((bound, err), t1) = extendersBinding (pod_extenders F) assumed targetNode;
          status = (if bound then AsStatus S err else RunBindPlugins F assumed targetNode);
          t2 = (if bound then [] else if IsSuccess S status then [PluginsBound assumed targetNode] else [])
      in (status, t1 @ t2 @ finishBinding S assumed targetNode status))"

definition bindingCycle ::
  "'s status_ops \<Rightarrow> 's framework \<Rightarrow> ScheduleResult \<Rightarrow> pod \<Rightarrow> 's \<times> effect list" where
  "bindingCycle S F plan assumedPod =
     (let status = RunPreBindPlugins F assumedPod (SuggestedHost plan)
      in if \<not> IsSuccess S status
         then (if IsRejected S status then fit_error_status S status else status,
               [PreBound assumedPod (SuggestedHost plan)])
         else
     (let (status, t) = bind_pod S F assumedPod (SuggestedHost plan);
          t = PreBound assumedPod (SuggestedHost plan) # t
      in if \<not> IsSuccess S status then (status, t)
         else (st_ok S, t @ [PostBound assumedPod (SuggestedHost plan)])))"

text \<open>
  \<open>handleSchedulingFailure\<close>, the scheduler's failure handler: the pod goes back to the queue only
  if the informer still has it without a node; otherwise it is done with. \<open>AsError\<close> of a status is nil
  for the codes \<open>Success\<close>, \<open>Wait\<close> and \<open>Skip\<close>.
\<close>

definition updatePod :: "'s framework \<Rightarrow> pod \<Rightarrow> string \<Rightarrow> nominating \<Rightarrow> effect list" where
  "updatePod F p message nominatingInfo =
     (let nnnNeedsUpdate = (case nominatingInfo of
            NoNominating \<Rightarrow> False
          | ClearNominated \<Rightarrow> NominatedNodeName F p \<noteq> []
          | Nominated n \<Rightarrow> NominatedNodeName F p \<noteq> n)
      in if \<not> UpdatePodCondition F p message \<and> \<not> nnnNeedsUpdate then [] else [StatusPatched p])"

definition handleSchedulingFailure ::
  "'s status_ops \<Rightarrow> 's framework \<Rightarrow> nat \<Rightarrow> ('s \<Rightarrow> string) \<Rightarrow> pod \<Rightarrow> 's \<Rightarrow> nominating \<Rightarrow> effect list" where
  "handleSchedulingFailure S F noteLengthLimit status_message p status nominatingInfo =
     (let errMsg = status_message status;
          (requeue, calledDone) =
            (case informer_pod F (Namespace p) (Name p) of
               None \<Rightarrow> ([], False)
             | Some cachedPod \<Rightarrow>
                 if NodeName cachedPod \<noteq> [] then ([], False) else ([Requeued cachedPod], True));
          queued = (case requeue of [Requeued c] \<Rightarrow> c | _ \<Rightarrow> p)
      in requeue @ [NominatedAdded queued] @
         (if IsSuccess S status \<or> IsWait S status \<or> IsSkip S status then []
          else FailureEvent p (truncateMessage noteLengthLimit errMsg) # updatePod F p errMsg nominatingInfo) @
         (if calledDone then [] else [QueueDone (UID queued)]))"

definition handleBindingCycleError ::
  "'s status_ops \<Rightarrow> 's framework \<Rightarrow> nat \<Rightarrow> ('s \<Rightarrow> string) \<Rightarrow> pod \<Rightarrow> ScheduleResult \<Rightarrow> 's \<Rightarrow> effect list" where
  "handleBindingCycleError S F lim msg assumedPod plan status =
     (let forgot = forget_effect F True assumedPod;
          moved = (if forgot = [] then [] else [PodsMoved assumedPod (IsRejected S status)]);
          failure = handleSchedulingFailure S F lim msg assumedPod status ClearNominated
      in [Unreserved assumedPod (SuggestedHost plan)] @ forgot @
         (if IsRejected S status then failure @ moved else moved @ failure))"

section \<open>The cache's view of a trace\<close>

text \<open>The pods that are assumed after a trace, given those before it, by UID.\<close>

fun assumed_after :: "effect list \<Rightarrow> string set \<Rightarrow> string set" where
  "assumed_after [] A = A"
| "assumed_after (Assumed p # es) A = assumed_after es (insert (UID p) A)"
| "assumed_after (Forgotten p # es) A = assumed_after es (A - {UID p})"
| "assumed_after (_ # es) A = assumed_after es A"

lemma assumed_after_append: "assumed_after (s @ t) A = assumed_after t (assumed_after s A)"
  by (induction s A rule: assumed_after.induct) simp_all

definition status_ok :: "'s status_ops \<Rightarrow> bool" where
  "status_ok S \<longleftrightarrow> IsSuccess S (st_ok S) \<and> IsSuccess S (AsStatus S None) \<and>
     (\<forall>e. \<not> IsSuccess S (AsStatus S (Some e))) \<and>
     (\<forall>s. IsRejected S s \<longrightarrow> \<not> IsSuccess S s) \<and>
     (\<forall>s. IsSuccess S (fit_error_status S s) = IsSuccess S s) \<and>
     \<not> IsSuccess S (unresolvable_status S) \<and> \<not> IsSuccess S (unschedulable_status S)"

text \<open>A cycle that fails after its pod was assumed forgets it, unless the cache refuses to.\<close>

lemma schedulingCycle_assumed:
  assumes "schedulingCycle S F p = ((r, p', st), es)" and S: "status_ok S" and "UID p \<notin> A"
  shows "UID p' = UID p \<and>
    assumed_after es A = (if Assumed p' \<in> set es \<and> (IsSuccess S st \<or> cache_ForgetPod F False p' \<noteq> None)
      then insert (UID p) A else A) \<and>
    (IsSuccess S st \<longrightarrow> Assumed p' \<in> set es \<and> NodeName p' = SuggestedHost r)"
proof -
  have S': "IsSuccess S (st_ok S)" "\<And>e. \<not> IsSuccess S (AsStatus S (Some e))"
    "\<And>s. IsSuccess S (fit_error_status S s) = IsSuccess S s"
    "\<not> IsSuccess S (unresolvable_status S)" "\<not> IsSuccess S (unschedulable_status S)"
    using S by (simp_all add: status_ok_def)
  show ?thesis
    using assms(1,3) S'
    by (auto simp: schedulingCycle_def assume_pod_def Let_def forget_effect_def
        split: sum.splits schedule_failure.splits option.splits if_splits)
qed

lemma finishBinding_assumed: "assumed_after (finishBinding S p n st) A = A"
  by (simp add: finishBinding_def)

lemma extendersBinding_assumed: "assumed_after (snd (extendersBinding xs p node)) A = A"
  by (induction xs) (auto split: option.splits)

lemma bindingCycle_assumed: "assumed_after (snd (bindingCycle S F plan p)) A = A"
  using extendersBinding_assumed [of "pod_extenders F" p "SuggestedHost plan"]
  by (auto simp: bindingCycle_def bind_pod_def Let_def assumed_after_append finishBinding_assumed
      split: prod.splits)

lemma handleSchedulingFailure_assumed: "assumed_after (handleSchedulingFailure S F lim msg p st n) A = A"
  by (auto simp: handleSchedulingFailure_def updatePod_def Let_def assumed_after_append split: option.splits)

lemma handleBindingCycleError_assumed:
  "assumed_after (handleBindingCycleError S F lim msg p plan st) A =
     (if cache_ForgetPod F True p = None then A - {UID p} else A)"
  by (auto simp: handleBindingCycleError_def Let_def forget_effect_def assumed_after_append
      handleSchedulingFailure_assumed)

end
