(* ===== verification/EventLoop.thy ===== *)
theory EventLoop
  imports QueueManager Binding
begin

text \<open>
  The two loops of the scheduler: \<open>ScheduleOne\<close> of \<open>kubernetes/pkg/scheduler/schedule_one.go\<close>, which
  enqueues the next pod, and \<open>waitForJob\<close> inside \<open>Run\<close> of \<open>scheduler.go\<close>, which binds the pods of
  the jobs whose completion river reports. The event channel is the list of the events still to
  come, \<open>None\<close> for a closed channel; a binding that the code starts in its own goroutine is
  recorded as a trace of its own, in no order with the others.
\<close>

section \<open>ScheduleOne\<close>

text \<open>What the scheduler knows: the profiles by scheduler name, the pod cache, the queue.\<close>

record 's scheduler =
  Profiles :: "string \<Rightarrow> 's framework option"
  IsAssumedPod :: "pod \<Rightarrow> goerror + bool"
  sched_Queue :: queue

definition frameworkForPod :: "'s scheduler \<Rightarrow> pod \<Rightarrow> goerror + 's framework" where
  "frameworkForPod sched p =
     (case Profiles sched (SchedulerName p) of
        None \<Rightarrow> Inl (GoErr (''profile not found for scheduler name '' @ SchedulerName p))
      | Some fwk \<Rightarrow> Inr fwk)"

definition skipPodSchedule :: "'s scheduler \<Rightarrow> pod \<Rightarrow> bool" where
  "skipPodSchedule sched p =
     (if DeletionTimestamp p \<noteq> None then True
      else case IsAssumedPod sched p of Inl e \<Rightarrow> False | Inr isAssumed \<Rightarrow> isAssumed)"

text \<open>\<open>next\<close> is the pod \<open>NextPod\<close> gives, \<open>None\<close> when the queue is closed or empty. A panic in
  \<open>Enqueue\<close> ends the call.\<close>

definition ScheduleOne ::
  "dbenv \<Rightarrow> 's scheduler \<Rightarrow> int \<Rightarrow> goerror + pod option \<Rightarrow> world \<Rightarrow> (effect list \<times> world) outcome" where
  "ScheduleOne E sched now next w0 =
     (case next of
        Inl e \<Rightarrow> Returns ([], w0)
      | Inr None \<Rightarrow> Returns ([], w0)
      | Inr (Some p) \<Rightarrow>
     (case frameworkForPod sched p of
        Inl e \<Rightarrow> Returns ([], w0)
      | Inr fwk \<Rightarrow>
     if skipPodSchedule sched p then Returns ([], w0)
     else bind_outcome (Queue_Enqueue E (sched_Queue sched) now p w0) (\<lambda>((enqueueStatus, err), w1).
       let deletePod = (enqueueStatus = GroupAlreadyInPending \<or> enqueueStatus = PodInvalid);
           (err, w2) = Queue_Schedule (sched_Queue sched) w1
       in Returns ([QueueDone (UID p)] @ (if deletePod then [QueueDeleted p] else []), w2))))"

section \<open>waitForJob\<close>

record river_event =
  ev_Kind :: string
  ev_State :: string
  ev_Args :: json_object

definition CancelledState :: string where "CancelledState = ''cancelled''"
definition CleanupQueue :: string where "CleanupQueue = ''cleanup''"

text \<open>How the loop ends: the channel was closed, a cancelled job was seen, the process panicked, or
  it still waits for the next event.\<close>

datatype loop_end = ChannelClosed | JobCancelled | LoopPanics string | Waiting

record loop_result =
  lr_end :: loop_end
  lr_left :: "river_event option list"
  lr_cycles :: "effect list"            \<comment> \<open>the effects of the loop itself\<close>
  lr_bindings :: "effect list list"     \<comment> \<open>one trace for each binding started\<close>
  lr_world :: world

text \<open>One node of a job: the pod with the name at the same position is fetched, run through a
  scheduling cycle whose outcome is not looked at, and bound to the node.\<close>

definition bind_trace ::
  "'s status_ops \<Rightarrow> 's framework \<Rightarrow> nat \<Rightarrow> ('s \<Rightarrow> string) \<Rightarrow> string \<Rightarrow> pod \<Rightarrow> effect list" where
  "bind_trace S fwk lim msg node p =
     (let plan = \<lparr>SuggestedHost = node, sr_nominating = NoNominating\<rparr>;
          (status, t) = bindingCycle S fwk plan p
      in if \<not> IsSuccess S status then t @ handleBindingCycleError S fwk lim msg p plan status
         else t @ [QueueDone (UID p)])"

fun bind_nodes ::
  "'s status_ops \<Rightarrow> 's scheduler \<Rightarrow> codec \<Rightarrow> nat \<Rightarrow> ('s \<Rightarrow> string) \<Rightarrow> JobResult \<Rightarrow> (nat \<times> string) list \<Rightarrow>
   effect list \<Rightarrow> effect list list \<Rightarrow> world \<Rightarrow> string option \<times> effect list \<times> effect list list \<times> world"
where
  "bind_nodes S sched C lim msg args [] cycles bindings w = (None, cycles, bindings, w)"
| "bind_nodes S sched C lim msg args ((i, node) # rest) cycles bindings w =
     (if length (GetPodNames args) \<le> i then (Some ''index out of range'', cycles, bindings, w)
      else case GetPodSpec C (jr_Namespace args) (GetPodNames args ! i) (jr_GroupName args) w of
             ((None, err), w1) \<Rightarrow> (Some ''nil pointer dereference'', cycles, bindings, w1)
           | ((Some bindingPod, err), w1) \<Rightarrow>
               (case Profiles sched (SchedulerName bindingPod) of
                  None \<Rightarrow> (Some ''nil framework'', cycles, bindings, w1)
                | Some fwk \<Rightarrow>
                    (let ((result, queuedPod, status), t) = schedulingCycle S fwk bindingPod
                     in bind_nodes S sched C lim msg args rest (cycles @ t)
                          (bindings @ [bind_trace S fwk lim msg node queuedPod]) w1)))"

fun waitForJob ::
  "dbenv \<Rightarrow> codec \<Rightarrow> kube_api \<Rightarrow> flux_client \<Rightarrow> 's status_ops \<Rightarrow> 's scheduler \<Rightarrow> nat \<Rightarrow> ('s \<Rightarrow> string) \<Rightarrow>
   river_event option list \<Rightarrow> effect list \<Rightarrow> effect list list \<Rightarrow> world \<Rightarrow> loop_result" where
  "waitForJob E C K F S sched lim msg [] cycles bindings w =
     \<lparr>lr_end = Waiting, lr_left = [], lr_cycles = cycles, lr_bindings = bindings, lr_world = w\<rparr>"
| "waitForJob E C K F S sched lim msg (None # evs) cycles bindings w =
     \<lparr>lr_end = ChannelClosed, lr_left = evs, lr_cycles = cycles, lr_bindings = bindings, lr_world = w\<rparr>"
| "waitForJob E C K F S sched lim msg (Some event # evs) cycles bindings w =
     (if ev_Kind event = CleanupQueue
      then waitForJob E C K F S sched lim msg evs cycles bindings w
      else case decode_JobResult (ev_Args event) of
             Inl err \<Rightarrow> waitForJob E C K F S sched lim msg evs cycles bindings w
           | Inr args \<Rightarrow>
               if ev_State event = CancelledState
               then (let p = (case unmarshal C (jr_PodSpec args) of Inl e \<Rightarrow> partly C (jr_PodSpec args) | Inr p \<Rightarrow> p);
                         (err, w1) = Queue_Cleanup E C K F (jr_PodSpec args) [] w
                     in \<lparr>lr_end = JobCancelled, lr_left = evs, lr_cycles = cycles @ [QueueDeleted p],
                         lr_bindings = bindings, lr_world = w1\<rparr>)
               else if 0 < length (GetNodes args)
               then (case bind_nodes S sched C lim msg args (List.enumerate 0 (GetNodes args)) cycles bindings w of
                       (Some m, cycles', bindings', w1) \<Rightarrow>
                         \<lparr>lr_end = LoopPanics m, lr_left = evs, lr_cycles = cycles',
                          lr_bindings = bindings', lr_world = w1\<rparr>
                     | (None, cycles', bindings', w1) \<Rightarrow>
                         waitForJob E C K F S sched lim msg evs cycles' bindings' w1)
               else waitForJob E C K F S sched lim msg evs cycles bindings w)"

section \<open>Lemmas\<close>

text \<open>Events that the loop gets through leave it where it was, with what they have added.\<close>

lemma waitForJob_append:
  assumes "r = waitForJob E C K F S sched lim msg pre cycles bindings w" and "lr_end r = Waiting"
  shows "waitForJob E C K F S sched lim msg (pre @ evs) cycles bindings w =
    waitForJob E C K F S sched lim msg evs (lr_cycles r) (lr_bindings r) (lr_world r)"
  using assms
proof (induction pre arbitrary: cycles bindings w)
  case (Cons ev pre)
  show ?case
  proof (cases ev)
    case (Some event)
    then show ?thesis using Cons
      by (auto simp: Let_def case_prod_unfold split: if_splits sum.splits option.splits)
  qed (use Cons.prems in simp)
qed simp

text \<open>The pod a scheduling cycle hands to the binding, and the pod that the database holds under a name.\<close>

definition queued_pod :: "'s status_ops \<Rightarrow> 's framework \<Rightarrow> pod \<Rightarrow> pod" where
  "queued_pod S fwk p = fst (snd (fst (schedulingCycle S fwk p)))"

definition stored_pod :: "codec \<Rightarrow> tables \<Rightarrow> string \<times> string \<times> string \<Rightarrow> pod \<Rightarrow> bool" where
  "stored_pod C t k p \<longleftrightarrow>
     (\<exists>row. row_of pod_key (pods_provisional t) k = Some row \<and>
        p = (case unmarshal C (pr_podspec row) of Inr q \<Rightarrow> q | Inl e \<Rightarrow> partly C (pr_podspec row)))"

lemma GetPodSpec_stored:
  assumes "GetPodSpec C ns name g w = ((Some p, err), w')"
  shows "stored_pod C (tables w) (g, ns, name) p \<and> tables w' = tables w"
proof (cases "row_of pod_key (pods_provisional (tables w)) (g, ns, name)")
  case None
  then show ?thesis using assms
    by (auto simp: GetPodSpec_def select_podspec_def split: prod.splits sum.splits elim!: call_ok_cases query_cases)
next
  case (Some row)
  then show ?thesis using assms
    by (auto simp: GetPodSpec_def stored_pod_def select_podspec_def split: prod.splits sum.splits
        elim!: call_ok_cases query_cases)
qed

lemma bind_nodes_bindings:
  assumes "bind_nodes S sched C lim msg args (List.enumerate n nodes) cycles bindings w = (None, cycles', bindings', w')"
  shows "\<exists>ps. length ps = length nodes \<and>
    bindings' = bindings @ map (\<lambda>(node, fwk, p). bind_trace S fwk lim msg node (queued_pod S fwk p)) (zip nodes ps) \<and>
    (\<forall>i < length nodes. stored_pod C (tables w) (jr_GroupName args, jr_Namespace args, GetPodNames args ! (n + i)) (snd (ps ! i)) \<and>
       Profiles sched (SchedulerName (snd (ps ! i))) = Some (fst (ps ! i)))"
  using assms
proof (induction nodes arbitrary: n cycles bindings w)
  case (Cons node nodes)
  let ?name = "GetPodNames args ! n"
  obtain x err w1 where g: "GetPodSpec C (jr_Namespace args) ?name (jr_GroupName args) w = ((x, err), w1)"
    by (metis surj_pair)
  from Cons.prems g obtain p fwk where p: "x = Some p" "Profiles sched (SchedulerName p) = Some fwk"
    by (auto split: if_splits option.splits)
  obtain res q st t where cyc: "schedulingCycle S fwk p = ((res, q, st), t)" by (metis surj_pair)
  have rest: "bind_nodes S sched C lim msg args (List.enumerate (Suc n) nodes) (cycles @ t)
      (bindings @ [bind_trace S fwk lim msg node q]) w1 = (None, cycles', bindings', w')"
    using Cons.prems g p cyc by (auto split: if_splits)
  note s = GetPodSpec_stored [OF g [unfolded p]]
  obtain ps where ps: "length ps = length nodes"
    "bindings' = (bindings @ [bind_trace S fwk lim msg node q]) @
       map (\<lambda>(node, fwk, p). bind_trace S fwk lim msg node (queued_pod S fwk p)) (zip nodes ps)"
    "\<forall>i < length nodes. stored_pod C (tables w1) (jr_GroupName args, jr_Namespace args, GetPodNames args ! (Suc n + i)) (snd (ps ! i)) \<and>
       Profiles sched (SchedulerName (snd (ps ! i))) = Some (fst (ps ! i))"
    using Cons.IH [OF rest] by blast
  have "stored_pod C (tables w) (jr_GroupName args, jr_Namespace args, GetPodNames args ! (n + i)) (snd (((fwk, p) # ps) ! i)) \<and>
       Profiles sched (SchedulerName (snd (((fwk, p) # ps) ! i))) = Some (fst (((fwk, p) # ps) ! i))"
    if "i < length (node # nodes)" for i
    using that ps(3) s p by (cases i) auto
  then show ?case using ps(1,2) cyc by (intro exI [of _ "(fwk, p) # ps"]) (simp add: queued_pod_def)
qed simp

lemma bind_nodes_short:
  assumes "length (GetPodNames args) < n + length nodes" and "n \<le> length (GetPodNames args)"
  shows "fst (bind_nodes S sched C lim msg args (List.enumerate n nodes) cycles bindings w) \<noteq> None"
  using assms
proof (induction nodes arbitrary: n cycles bindings w)
  case Nil
  then show ?case by simp
next
  case (Cons node nodes)
  then show ?case by (auto split: prod.splits option.splits)
qed

end
