(* ===== verification/SortPlugin.thy ===== *)
theory SortPlugin
  imports PodGroups "HOL-Library.List_Lexorder"
begin

text \<open>
  The queue-sort plugin of \<open>kubernetes/pkg/fluxnetes/fluxnetes.go\<close>. \<open>now1\<close> and \<open>now2\<close> are what the
  two calls of \<open>time.Now()\<close> give for pods without a creation time. Strings compare by bytes.
\<close>

section \<open>The plugin\<close>

definition fluxnetes_Name :: string where "fluxnetes_Name = ''Fluxnetes''"

text \<open>The plugin has no state.\<close>

datatype fluxnetes_plugin = Fluxnetes

definition fluxnetes_New :: "'ctx \<Rightarrow> 'obj \<Rightarrow> 'handle \<Rightarrow> goerror + fluxnetes_plugin" where
  "fluxnetes_New ctx obj handle = Inr Fluxnetes"

text \<open>\<open>main\<close> of \<open>kubernetes/cmd/kube-scheduler/scheduler.go\<close>: the exit code of the command of the
  Kubernetes scheduler that has the plugin. The command and its runner are parameters.\<close>

definition kube_scheduler_main ::
  "((string \<times> ('ctx \<Rightarrow> 'obj \<Rightarrow> 'handle \<Rightarrow> goerror + fluxnetes_plugin)) list \<Rightarrow> 'cmd) \<Rightarrow> ('cmd \<Rightarrow> int) \<Rightarrow> int" where
  "kube_scheduler_main NewSchedulerCommand cli_Run =
     (let command = NewSchedulerCommand [(fluxnetes_Name, fluxnetes_New)] in cli_Run command)"

section \<open>The order of the scheduling queue\<close>

text \<open>\<open>helpers.PodPriority\<close>: the priority of a pod, 0 when it has none.\<close>

definition PodPriority :: "pod \<Rightarrow> int" where
  "PodPriority p = (case Priority p of None \<Rightarrow> 0 | Some n \<Rightarrow> n)"

definition fluxnetes_Less :: "int \<Rightarrow> int \<Rightarrow> pod \<Rightarrow> pod \<Rightarrow> bool" where
  "fluxnetes_Less now1 now2 p1 p2 =
     (let prio1 = PodPriority p1; prio2 = PodPriority p2
      in if prio1 \<noteq> prio2 then prio1 > prio2
         else let name1 = GetPodGroupFullName p1; name2 = GetPodGroupFullName p2;
                  creationTime1 = GetPodCreationTimestamp now1 p1;
                  creationTime2 = GetPodCreationTimestamp now2 p2
              in if creationTime1 = creationTime2 then name1 < name2
                 else creationTime1 < creationTime2)"

text \<open>The key the plugin compares by, when both pods have a creation time, as a linear order: the
  higher priority first, then the earlier time, then the name of the group.\<close>

datatype pod_rank = PodRank (rank_priority: int) (rank_time: int) (rank_name: string)

instantiation pod_rank :: linorder
begin

definition less_pod_rank :: "pod_rank \<Rightarrow> pod_rank \<Rightarrow> bool" where
  "less_pod_rank a b \<longleftrightarrow> rank_priority a > rank_priority b \<or> rank_priority a = rank_priority b \<and>
     (rank_time a < rank_time b \<or> rank_time a = rank_time b \<and> rank_name a < rank_name b)"

definition less_eq_pod_rank :: "pod_rank \<Rightarrow> pod_rank \<Rightarrow> bool" where
  "less_eq_pod_rank a b \<longleftrightarrow> a < b \<or> a = b"

instance
proof
  fix a b c :: pod_rank
  show "a < b \<longleftrightarrow> a \<le> b \<and> \<not> b \<le> a" by (auto simp: less_pod_rank_def less_eq_pod_rank_def)
  show "a \<le> a" by (simp add: less_eq_pod_rank_def)
  show "a \<le> b \<Longrightarrow> b \<le> c \<Longrightarrow> a \<le> c" by (auto simp: less_pod_rank_def less_eq_pod_rank_def dest: less_trans)
  show "a \<le> b \<Longrightarrow> b \<le> a \<Longrightarrow> a = b" by (auto simp: less_pod_rank_def less_eq_pod_rank_def)
  show "a \<le> b \<or> b \<le> a" by (cases a; cases b) (auto simp: less_pod_rank_def less_eq_pod_rank_def)
qed

end

definition pod_sort_key :: "pod \<Rightarrow> pod_rank" where
  "pod_sort_key p = PodRank (PodPriority p) (GetPodCreationTimestamp 0 p) (GetPodGroupFullName p)"

lemma Less_by_key:
  assumes "CreationTimestamp p1 \<noteq> None" and "CreationTimestamp p2 \<noteq> None"
  shows "fluxnetes_Less now1 now2 p1 p2 \<longleftrightarrow> pod_sort_key p1 < pod_sort_key p2"
  using assms
  by (auto simp: fluxnetes_Less_def less_pod_rank_def pod_sort_key_def GetPodCreationTimestamp_def Let_def)

end
