(* ===== verification/SchedProps.thy ===== *)
theory SchedProps
  imports EventLoop SortPlugin Examples
begin

text \<open>
  The properties of the scheduler: the order of the scheduling queue, the number of nodes to look
  for, the cache over a scheduling and a binding cycle, and the loop over river's events.
\<close>

section \<open>The scheduling queue\<close>

text \<open>C39: on pods that have creation times the plugin's order is a strict order, total up to pods
  of the same priority, time and group name; without creation times it is not: a pod compared
  with itself while the clock advances comes before itself.\<close>

theorem Less_is_a_strict_order:
  assumes "CreationTimestamp p1 \<noteq> None" and "CreationTimestamp p2 \<noteq> None" and "CreationTimestamp p3 \<noteq> None"
  shows "\<not> fluxnetes_Less n1 n2 p1 p1 \<and>
    (fluxnetes_Less n1 n2 p1 p2 \<and> fluxnetes_Less n2 n3 p2 p3 \<longrightarrow> fluxnetes_Less n1 n3 p1 p3) \<and>
    (\<not> fluxnetes_Less n1 n2 p1 p2 \<and> \<not> fluxnetes_Less n2 n1 p2 p1 \<longrightarrow>
       PodPriority p1 = PodPriority p2 \<and> CreationTimestamp p1 = CreationTimestamp p2 \<and>
       GetPodGroupFullName p1 = GetPodGroupFullName p2) \<and>
    (now1 < now2 \<longrightarrow> fluxnetes_Less now1 now2 (p1\<lparr>CreationTimestamp := None\<rparr>) (p1\<lparr>CreationTimestamp := None\<rparr>))"
proof -
  have key: "pod_sort_key p1 = pod_sort_key p2 \<Longrightarrow> PodPriority p1 = PodPriority p2 \<and>
      CreationTimestamp p1 = CreationTimestamp p2 \<and> GetPodGroupFullName p1 = GetPodGroupFullName p2"
    using assms by (auto simp: pod_sort_key_def GetPodCreationTimestamp_def)
  have "fluxnetes_Less now1 now2 (p1\<lparr>CreationTimestamp := None\<rparr>) (p1\<lparr>CreationTimestamp := None\<rparr>)"
    if "now1 < now2"
    using that by (simp add: fluxnetes_Less_def GetPodCreationTimestamp_def Let_def)
  then show ?thesis
    using key less_trans [of "pod_sort_key p1" "pod_sort_key p2" "pod_sort_key p3"] less_irrefl [of "pod_sort_key p1"]
      less_linear [of "pod_sort_key p1" "pod_sort_key p2"]
    unfolding Less_by_key [OF assms(1,1)] Less_by_key [OF assms(1,2)] Less_by_key [OF assms(2,1)]
      Less_by_key [OF assms(2,3)] Less_by_key [OF assms(1,3)]
    by blast
qed

theorem Less_is_a_strict_order_witness:
  "\<not> fluxnetes_Less 0 1 (ex_pod ''a'') (ex_pod ''a'') \<and>
   fluxnetes_Less 0 1 ((ex_pod ''a'')\<lparr>CreationTimestamp := None\<rparr>) ((ex_pod ''a'')\<lparr>CreationTimestamp := None\<rparr>)"
proof -
  have t: "CreationTimestamp (ex_pod ''a'') \<noteq> None" by (simp add: ex_pod_def)
  show ?thesis
    using Less_is_a_strict_order [OF t t t, of 0 1 1 0 1] by simp
qed

section \<open>Nodes to find\<close>

text \<open>C38: the number of feasible nodes the search stops at lies between 100 and the number of
  nodes, and is the number itself for fewer than 100 nodes, for every percentage from 0 to 100
  and every cluster of at most 21474836 nodes: the products stay in 32 bits, so that the buffer
  made with this length is never longer than the node list.\<close>

theorem nodes_to_find_bounds:
  assumes "0 \<le> sint n" and "sint n \<le> 21474836"
    and "0 \<le> sint (case p of Some m \<Rightarrow> m | None \<Rightarrow> g)" and "sint (case p of Some m \<Rightarrow> m | None \<Rightarrow> g) \<le> 100"
  shows "min 100 (sint n) \<le> sint (numFeasibleNodesToFind g p n) \<and>
    sint (numFeasibleNodesToFind g p n) \<le> sint n"
proof (cases "sint n < 100")
  case True
  then have "n <s minFeasibleNodesToFind" by (simp add: word_sless_alt minFeasibleNodesToFind_def)
  then show ?thesis by (simp add: numFeasibleNodesToFind_def)
next
  case False
  let ?u = "used_percentage g p n"
  have "0 \<le> sint ?u \<and> sint ?u \<le> 100"
  proof (cases "(case p of Some m \<Rightarrow> m | None \<Rightarrow> g) = 0")
    case True
    then have "sint ?u = max 5 (50 - sint n div 125)"
      using adaptive_percentage [OF assms(1), where p = p and g = g] by (auto split: option.splits)
    moreover have "0 \<le> sint n div 125" using assms(1) by (simp add: pos_imp_zdiv_nonneg_iff)
    ultimately show ?thesis by simp
  next
    case False
    then show ?thesis using assms(3,4) by (simp add: used_percentage_def Let_def)
  qed
  then have u: "0 \<le> sint ?u" "sint n * sint ?u \<le> sint n * 100"
    using assms(1) by (auto intro: mult_left_mono)
  then have small: "sint n * sint ?u \<le> 2147483600" using assms(2) by linarith
  then have "sint (numFeasibleNodesToFind g p n) = max 100 (sint n * sint ?u div 100)"
    using assms(2) False u(1) small by (intro numFeasibleNodesToFind_large) simp_all
  moreover have "sint n * sint ?u div 100 \<le> sint n" using u(2) by simp
  ultimately show ?thesis using False by simp
qed

theorem nodes_to_find_bounds_witness:
  "100 \<le> sint (numFeasibleNodesToFind 0 None 6000) \<and> sint (numFeasibleNodesToFind 0 None 6000) \<le> 6000"
  using nodes_to_find_bounds [where n = 6000 and p = None and g = 0] by simp

section \<open>The cache\<close>

text \<open>C15: a pod stays assumed in the scheduler cache exactly when the code means it to or the
  cache refuses: after the scheduling cycle of a pod that was not assumed and the binding cycle that
  follows it, the cache assumes the pods it assumed before, and this pod too if the scheduling cycle
  assumed it, and each of the two cycles either succeeded or got an error when it asked the cache to
  forget the pod. Such an error is only logged, so that it is the one way in which a pod
  leaks.\<close>

theorem assumed_pods_do_not_leak:
  assumes "status_ok S" and "UID p \<notin> A" and "schedulingCycle S F p = ((r, p', st), es)"
  shows "let cycle_done = IsSuccess S st;
      binding_done = IsSuccess S (fst (bindingCycle S F \<lparr>SuggestedHost = node, sr_nominating = NoNominating\<rparr> p'));
      kept = (Assumed p' \<in> set es \<and> (cycle_done \<or> cache_ForgetPod F False p' \<noteq> None))
    in (cycle_done \<longrightarrow> Assumed p' \<in> set es) \<and>
      assumed_after es A = (if kept then insert (UID p) A else A) \<and>
      assumed_after (es @ bind_trace S F lim msg node p') A =
        (if kept \<and> (binding_done \<or> cache_ForgetPod F True p' \<noteq> None) then insert (UID p) A else A)"
proof -
  note c = schedulingCycle_assumed [OF assms(3,1,2)]
  let ?plan = "\<lparr>SuggestedHost = node, sr_nominating = NoNominating\<rparr>"
  have "assumed_after (bind_trace S F lim msg node p') B =
      (if IsSuccess S (fst (bindingCycle S F ?plan p')) \<or> cache_ForgetPod F True p' \<noteq> None then B else B - {UID p'})" for B
    using bindingCycle_assumed [of S F ?plan p']
    by (auto simp: bind_trace_def Let_def case_prod_unfold assumed_after_append handleBindingCycleError_assumed)
  then show ?thesis using c assms(2) by (auto simp: Let_def assumed_after_append)
qed

definition ex_status_ops :: "bool status_ops" where
  "ex_status_ops = \<lparr>IsSuccess = (\<lambda>b. b), IsRejected = (\<lambda>_. False), IsWait = (\<lambda>_. False), IsSkip = (\<lambda>_. False), st_ok = True,
     AsStatus = (\<lambda>e. e = None), fit_error_status = (\<lambda>b. b), unresolvable_status = False, unschedulable_status = False\<rparr>"

definition ex_framework :: "bool \<Rightarrow> bool framework" where
  "ex_framework binds = \<lparr>fw_SchedulePod = (\<lambda>_. Inr ''n0''), HasPostFilterPlugins = False,
     RunPostFilterPlugins = (\<lambda>_. NoNominating), RunReservePluginsReserve = (\<lambda>_ _. True),
     RunPermitPlugins = (\<lambda>_ _. True), RunPreBindPlugins = (\<lambda>_ _. True), RunBindPlugins = (\<lambda>_ _. binds),
     cache_AssumePod = (\<lambda>_. None), cache_ForgetPod = (\<lambda>_ _. None), pod_extenders = [],
     informer_pod = (\<lambda>_ _. None), NominatedNodeName = (\<lambda>_. []), UpdatePodCondition = (\<lambda>_ _. True)\<rparr>"

lemma ex_status_ops_ok: "status_ok ex_status_ops"
  by (simp add: status_ok_def ex_status_ops_def)

theorem assumed_pods_do_not_leak_witness:
  "\<exists>r p' es. schedulingCycle ex_status_ops (ex_framework False) (ex_pod ''a'') = ((r, p', True), es) \<and>
     assumed_after es {} = {''u''} \<and>
     assumed_after (es @ bind_trace ex_status_ops (ex_framework False) 1024 (\<lambda>_. []) ''n1'' p') {} = {}"
proof -
  obtain r p' st es where c: "schedulingCycle ex_status_ops (ex_framework False) (ex_pod ''a'') = ((r, p', st), es)"
    by (metis surj_pair)
  then have st: "st = True" and p': "p' = (ex_pod ''a'')\<lparr>NodeName := ''n0''\<rparr>"
    by (auto simp: schedulingCycle_def ex_framework_def ex_status_ops_def assume_pod_def Let_def)
  have "\<not> IsSuccess ex_status_ops (fst (bindingCycle ex_status_ops (ex_framework False) \<lparr>SuggestedHost = ''n1'', sr_nominating = NoNominating\<rparr> p'))"
    by (simp add: bindingCycle_def bind_pod_def ex_framework_def ex_status_ops_def Let_def)
  moreover have "UID (ex_pod ''a'') = ''u''" by (simp add: ex_pod_def)
  ultimately show ?thesis
    using assumed_pods_do_not_leak [OF ex_status_ops_ok _ c, of "{}" "''n1''" 1024 "\<lambda>_. []"] c st
    by (auto simp: Let_def ex_framework_def ex_status_ops_def)
qed

section \<open>The event loop\<close>

definition cancelled_event :: "river_event \<Rightarrow> bool" where
  "cancelled_event ev \<longleftrightarrow> ev_Kind ev \<noteq> CleanupQueue \<and> ev_State ev = CancelledState \<and>
     (\<exists>args. decode_JobResult (ev_Args ev) = Inr args)"

text \<open>C28: the first cancelled job ends the loop: whatever events the loop got through before,
  at the event of a cancelled job it cleans up the job's pod, takes the pod that the job's podspec
  decodes to off the scheduling queue and ends; the bindings it had started are all it ever starts,
  and every later event stays in the channel, so that no job completed afterwards is bound.\<close>

theorem cancelled_job_ends_the_loop:
  assumes "r = waitForJob E C K F S sched lim msg pre [] [] w" and "lr_end r = Waiting"
    and "ev_Kind ev \<noteq> CleanupQueue" and "ev_State ev = CancelledState" and "decode_JobResult (ev_Args ev) = Inr args"
  shows "waitForJob E C K F S sched lim msg (pre @ Some ev # later) [] [] w =
    \<lparr>lr_end = JobCancelled, lr_left = later,
     lr_cycles = lr_cycles r @ [QueueDeleted
       (case unmarshal C (jr_PodSpec args) of Inr p \<Rightarrow> p | Inl e \<Rightarrow> partly C (jr_PodSpec args))],
     lr_bindings = lr_bindings r,
     lr_world = snd (Cleanup E C K F (jr_PodSpec args) (- 1) True [] (lr_world r))\<rparr>"
  using waitForJob_append [OF assms(1,2), of "Some ev # later"] assms(3-5)
  by (simp add: Let_def case_prod_unfold Queue_Cleanup_def)

definition ex_sched :: "bool scheduler" where
  "ex_sched = \<lparr>Profiles = (\<lambda>n. if n = ''fluxnetes'' then Some (ex_framework True) else None),
     IsAssumedPod = (\<lambda>_. Inr False), sched_Queue = ex_queue\<rparr>"

definition ex_event :: "string \<Rightarrow> river_event" where
  "ex_event state = \<lparr>ev_Kind = JobArgs_Kind, ev_State = state, ev_Args = [(''podspec'', JStr ''A'')]\<rparr>"

theorem cancelled_job_ends_the_loop_witness:
  "let r = waitForJob ex_env ex_codec ex_kube ex_flux ex_status_ops ex_sched 1024 (\<lambda>_. [])
     [Some (ex_event CancelledState), Some (ex_event ''completed'')] [] [] (ex_world empty_tables)
   in lr_left r = [Some (ex_event ''completed'')] \<and> lr_cycles r = [QueueDeleted (ex_pod ''a'')]"
proof -
  let ?args = "\<lparr>jr_JobID = 0, jr_Nodes = [], jr_PodID = [], jr_PodSpec = ''A'', jr_Names = [], jr_Namespace = [], jr_GroupName = []\<rparr>"
  have ev: "ev_Kind (ex_event CancelledState) \<noteq> CleanupQueue" "ev_State (ex_event CancelledState) = CancelledState"
    "decode_JobResult (ev_Args (ex_event CancelledState)) = Inr ?args" "unmarshal ex_codec ''A'' = Inr (ex_pod ''a'')"
    by (simp_all add: ex_event_def JobArgs_Kind_def CleanupQueue_def decode_JobResult_def ex_codec_def)
  from cancelled_job_ends_the_loop [of _ ex_env ex_codec ex_kube ex_flux ex_status_ops ex_sched 1024 "\<lambda>_. []" "[]", OF refl _ ev(1-3),
      of "ex_world empty_tables" "[Some (ex_event ''completed'')]"]
  show ?thesis by (simp add: Let_def ev(4))
qed

text \<open>C27: a completed job binds pod after pod to the nodes at the same positions: if the loop
  gets through the event, then for every position in the list of nodes the pod that the database holds
  under the name at that position has gone through a scheduling cycle, and its binding to that node
  was started, and no others; and if the job carries fewer pod names than nodes, the loop does not get
  through: the index runs out and the scheduler panics.\<close>

theorem completed_job_bindings:
  assumes "ev_Kind ev \<noteq> CleanupQueue" and "decode_JobResult (ev_Args ev) = Inr args"
    and "ev_State ev \<noteq> CancelledState"
  shows "let r = waitForJob E C K F S sched lim msg [Some ev] [] [] w;
      nodes = split_char (CHR '','') (jr_Nodes args); names = split_char (CHR '','') (jr_Names args)
    in (length names < length nodes \<longrightarrow> (\<exists>m. lr_end r = LoopPanics m)) \<and>
       (lr_end r = Waiting \<longrightarrow> length (lr_bindings r) = length nodes \<and>
          (\<forall>i < length nodes. \<exists>p fwk. stored_pod C (tables w) (jr_GroupName args, jr_Namespace args, names ! i) p \<and>
             Profiles sched (SchedulerName p) = Some fwk \<and>
             lr_bindings r ! i = bind_trace S fwk lim msg (nodes ! i) (fst (snd (fst (schedulingCycle S fwk p)))))) \<and>
       lr_end r \<noteq> JobCancelled \<and> lr_end r \<noteq> ChannelClosed"
proof -
  obtain res cycles bindings w1 where b: "bind_nodes S sched C lim msg args (List.enumerate 0 (GetNodes args)) [] [] w =
      (res, cycles, bindings, w1)" by (metis surj_pair)
  have nodes: "0 < length (GetNodes args)" using GetNodes_nonempty by simp
  have short: "res \<noteq> None" if "length (GetPodNames args) < length (GetNodes args)"
    using bind_nodes_short [of args 0 "GetNodes args" S sched C lim msg "[]" "[]" w] that b by simp
  have bound: "length bindings = length (GetNodes args) \<and>
      (\<forall>i < length (GetNodes args). \<exists>p fwk. stored_pod C (tables w) (jr_GroupName args, jr_Namespace args, GetPodNames args ! i) p \<and>
         Profiles sched (SchedulerName p) = Some fwk \<and>
         bindings ! i = bind_trace S fwk lim msg (GetNodes args ! i) (queued_pod S fwk p))" if "res = None"
    using bind_nodes_bindings [OF b [unfolded that]] by (fastforce simp: case_prod_unfold)
  have r: "waitForJob E C K F S sched lim msg [Some ev] [] [] w =
      (case res of None \<Rightarrow> \<lparr>lr_end = Waiting, lr_left = [], lr_cycles = cycles, lr_bindings = bindings, lr_world = w1\<rparr>
       | Some m \<Rightarrow> \<lparr>lr_end = LoopPanics m, lr_left = [], lr_cycles = cycles, lr_bindings = bindings, lr_world = w1\<rparr>)"
    using assms nodes b by (simp split: option.splits)
  show ?thesis
  proof (cases res)
    case None
    then have "\<not> length (GetPodNames args) < length (GetNodes args)" using short by blast
    then show ?thesis
      unfolding r using bound [OF None] None by (simp add: GetNodes_def GetPodNames_def queued_pod_def)
  next
    case (Some m)
    then show ?thesis unfolding r by simp
  qed
qed

theorem completed_job_bindings_witness:
  "\<exists>m. lr_end (waitForJob ex_env ex_codec ex_kube ex_flux ex_status_ops ex_sched 1024 (\<lambda>_. [])
     [Some \<lparr>ev_Kind = JobArgs_Kind, ev_State = ''completed'',
            ev_Args = [(''nodes'', JStr ''n1,n2''), (''names'', JStr ''a'')]\<rparr>] [] [] (ex_world empty_tables)) = LoopPanics m"
  using completed_job_bindings [of "\<lparr>ev_Kind = JobArgs_Kind, ev_State = ''completed'',
        ev_Args = [(''nodes'', JStr ''n1,n2''), (''names'', JStr ''a'')]\<rparr>"
      "\<lparr>jr_JobID = 0, jr_Nodes = ''n1,n2'', jr_PodID = [], jr_PodSpec = [], jr_Names = ''a'', jr_Namespace = [], jr_GroupName = []\<rparr>"
      ex_env ex_codec ex_kube ex_flux ex_status_ops ex_sched 1024 "\<lambda>_. []" "ex_world empty_tables"]
  by (simp add: JobArgs_Kind_def CleanupQueue_def CancelledState_def decode_JobResult_def Let_def
      GetNodes_def GetPodNames_def)

end
