(* ===== verification/EndToEnd.thy ===== *)
theory EndToEnd
  imports TypingProps ServiceProps SchedProps
begin

text \<open>
  The pieces joined: the Fluxion service behind the client of the workers, the worker's run for an
  answer that lists whole slots, and the loop that binds the pods of a finished job. The root theory
  puts them together into one run from a complete group to its bindings.
\<close>

section \<open>The service as the workers see it\<close>

text \<open>
  A gRPC call returns what the handler of \<open>Fluxion.thy\<close> returns, and an error when the handler
  panics.
\<close>

definition service_client :: "fluxcli \<Rightarrow> flux_client" where
  "service_client cli =
     \<lparr>match_rpc = (\<lambda>req. case Match cli req of
                            Panics m \<Rightarrow> Inl (GoErr m)
                          | Returns (resp, Some e) \<Rightarrow> Inl e
                          | Returns (resp, None) \<Rightarrow> Inr resp),
      cancel_rpc = (\<lambda>req. snd (Cancel cli req))\<rparr>"

lemma split_nodes:
  assumes "xs \<noteq> []" and "\<forall>x \<in> set xs. CHR '','' \<notin> set x"
  shows "split_char (CHR '','') (strings_Join xs '','') = xs"
  using split_char_Join assms by simp

text \<open>\<open>slots\<close> are the hosts of an allocation, each with the number of slots it gives: as many as its
  cores hold pods of \<open>c\<close> cpus.\<close>

definition slots_of :: "nat \<Rightarrow> (string \<times> nat) list \<Rightarrow> (string \<times> nat) list" where
  "slots_of c hs = map (\<lambda>(host, n). (host, n div c)) hs"


definition slot_nodes :: "(string \<times> nat) list \<Rightarrow> string list" where
  "slot_nodes slots = concat (map (\<lambda>(host, k). replicate k host) slots)"

lemma length_slot_nodes: "length (slot_nodes slots) = sum_list (map snd slots)"
  unfolding slot_nodes_def by (induction slots) auto

lemma set_slot_nodes: "x \<in> set (slot_nodes slots) \<Longrightarrow> \<exists>k. (x, k) \<in> set slots"
  by (auto simp: slot_nodes_def)

lemma service_rpc:
  assumes ans: "service_answers cli req m vs" "lists_nodes vs hs"
    and c: "sint (ps_Cpu (mr_Podspec req)) = int c" "0 < c"
    and range: "\<forall>(host, n) \<in> set hs. int4_range (int n)"
  obtains resp where "match_rpc (service_client cli) req = Inr resp" "mp_Allocated resp"
    "mp_FluxID resp = ml_jobid m" "mp_Reserved resp = ml_reserved m"
    "allocated_nodes resp = strings_Join (slot_nodes (slots_of c hs)) '',''"
proof -
  let ?resp = "\<lparr>mp_FluxID = ml_jobid m,
      mp_Nodelist = map (\<lambda>(host, n). \<lparr>na_NodeID = host, na_Tasks = int n div int c\<rparr>) hs,
      mp_Reserved = ml_reserved m, mp_ReservedAt = ml_at m, mp_Allocated = True\<rparr>"
  have "Match cli req = Returns (?resp, None)"
    using match_nodes [OF ans _ range] c by simp
  then have "match_rpc (service_client cli) req = Inr ?resp" by (simp add: service_client_def)
  moreover have "nat (int n div int c) = n div c" for n
    by (metis nat_int zdiv_int)
  then have "allocated_nodes ?resp = strings_Join (slot_nodes (slots_of c hs)) '',''"
    by (simp add: allocated_nodes_def slot_nodes_def slots_of_def comp_def case_prod_unfold)
  ultimately show ?thesis using that [of ?resp] by simp
qed

text \<open>The worker's run for such an answer.\<close>

lemma slots_recorded:
  assumes "tape w = []" and "unmarshal C (ja_Podspec a) = Inr p"
    and ans: "service_answers cli (request_of C a p) m vs" "lists_nodes vs hs" and slots: "slots = slots_of c hs"
    and m: "\<not> ml_reserved m" "int4_range (uint (ml_jobid m))"
    and c: "sint (ps_Cpu (PreparePodJobSpec p (ja_GroupName a))) = int c" "0 < c"
    and range: "\<forall>(host, n) \<in> set hs. int4_range (int n) \<and> CHR '','' \<notin> set host"
    and group: "int (sum_list (map snd slots)) = ja_GroupSize a" "0 < ja_GroupSize a"
    and deadline: "0 < ja_Duration a \<longrightarrow> ActiveDeadlineSeconds p \<noteq> None"
    and row: "row \<in> set (river_job (tables w))" "rj_id row = jobid" "rj_args row = encode_JobArgs a"
  shows "\<exists>w' row' r. Work now C (service_client cli) jobid a w = (Returns None, w') \<and> tape w' = [] \<and>
    pods_provisional (tables w') = pods_provisional (tables w) \<and>
    row' \<in> set (river_job (tables w')) \<and> rj_id row' = jobid \<and> rj_kind row' = rj_kind row \<and>
    decode_JobResult (rj_args row') = Inr r \<and> GetNodes r = slot_nodes slots \<and>
    jr_Names r = ja_Names a \<and> jr_Namespace r = ja_Namespace a \<and> jr_GroupName r = ja_GroupName a"
proof -
  have cpu: "sint (ps_Cpu (mr_Podspec (request_of C a p))) = int c" using c(1) by (simp add: request_of_def)
  have range1: "\<forall>(host, n) \<in> set hs. int4_range (int n)" using range by fast
  have commas: "CHR '','' \<notin> set host" if "(host, k) \<in> set slots" for host k
    using that range by (auto simp: slots slots_of_def)
  obtain resp where resp: "match_rpc (service_client cli) (request_of C a p) = Inr resp" "mp_Allocated resp"
    "mp_FluxID resp = ml_jobid m" "mp_Reserved resp = ml_reserved m"
    "allocated_nodes resp = strings_Join (slot_nodes slots) '',''"
    unfolding slots by (rule service_rpc [OF ans cpu c(2) range1])
  have "0 < length (slot_nodes slots)" unfolding length_slot_nodes using group by linarith
  then have "slot_nodes slots \<noteq> []" by (simp only: length_greater_0_conv not_False_eq_True)
  then have split: "split_char (CHR '','') (allocated_nodes resp) = slot_nodes slots"
    unfolding resp(5) by (intro split_nodes) (auto dest!: set_slot_nodes commas)
  have "\<not> mp_Reserved resp" "int4_range (uint (mp_FluxID resp))" using resp m by simp_all
  from allocation_recorded [OF assms(1,2) resp(1,2) this(1) deadline this(2) row, of now]
  obtain w' row' where "Work now C (service_client cli) jobid a w = (Returns None, w')" "tape w' = []"
    "pods_provisional (tables w') = pods_provisional (tables w)" "row' \<in> set (river_job (tables w'))"
    "rj_id row' = jobid" "rj_kind row' = rj_kind row"
    "decode_JobResult (rj_args row') = Inr \<lparr>jr_JobID = 0, jr_Nodes = allocated_nodes resp, jr_PodID = [],
         jr_PodSpec = ja_Podspec a, jr_Names = ja_Names a, jr_Namespace = ja_Namespace a, jr_GroupName = ja_GroupName a\<rparr>"
    by blast
  then show ?thesis
    by (intro exI [of _ w'] exI [of _ row'] exI [of _ "\<lparr>jr_JobID = 0, jr_Nodes = allocated_nodes resp, jr_PodID = [],
         jr_PodSpec = ja_Podspec a, jr_Names = ja_Names a, jr_Namespace = ja_Namespace a, jr_GroupName = ja_GroupName a\<rparr>"])
      (simp add: GetNodes_def split)
qed

section \<open>The loop that binds\<close>

text \<open>When every name is there, can be fetched and has a profile, the node at each position gets the
  pod with the name at that position.\<close>

lemma bind_nodes_all:
  assumes "n + length nodes \<le> length pods" and "length (GetPodNames args) = length pods"
    and "\<forall>i < length pods. GetPodSpec C (jr_Namespace args) (GetPodNames args ! i) (jr_GroupName args) w = ((Some (pods ! i), None), w)"
    and "\<forall>p \<in> set pods. Profiles sched (SchedulerName p) = Some fwk"
  shows "\<exists>cycles'. bind_nodes S sched C lim msg args (List.enumerate n nodes) cycles bindings w =
    (None, cycles', bindings @ map (\<lambda>(node, p). bind_trace S fwk lim msg node (queued_pod S fwk p)) (zip nodes (drop n pods)), w)"
  using assms(1)
proof (induction nodes arbitrary: n cycles bindings)
  case Nil
  then show ?case by simp
next
  case (Cons node nodes)
  then have n: "n < length pods" by simp
  obtain res q st t where cyc: "schedulingCycle S fwk (pods ! n) = ((res, q, st), t)" by (metis surj_pair)
  have step: "bind_nodes S sched C lim msg args (List.enumerate n (node # nodes)) cycles bindings w =
      bind_nodes S sched C lim msg args (List.enumerate (Suc n) nodes) (cycles @ t)
        (bindings @ [bind_trace S fwk lim msg node q]) w"
    using assms(2,3,4) n cyc by simp
  have "zip (node # nodes) (drop n pods) = (node, pods ! n) # zip nodes (drop (Suc n) pods)"
    using n by (metis Cons_nth_drop_Suc zip_Cons_Cons)
  then show ?case
    unfolding step using Cons.IH [of "Suc n" "cycles @ t" "bindings @ [bind_trace S fwk lim msg node q]"] Cons.prems cyc
    by (simp add: queued_pod_def)
qed

section \<open>Reading the stored pods back\<close>

lemma fetch_stored:
  assumes "tape w = []" and pods: "pods_provisional (tables w) = pods_provisional t"
    and unique: "unique_pods (pods_provisional t)" and q: "q \<in> set (pods_of t (g, ns))"
    and dec: "unmarshal C (pr_podspec q) = Inr p"
  shows "GetPodSpec C ns (pr_name q) g w = ((Some p, None), w)"
proof -
  have "q \<in> set (pods_provisional t)" "pod_key q = (g, ns, pr_name q)"
    using q by (auto simp: pods_of_def pod_key_def)
  then have "row_of pod_key (pods_provisional t) (g, ns, pr_name q) = Some q"
    using row_of_iff [of pod_key "pods_provisional t"] unique by (simp add: unique_pods_def)
  then show ?thesis using assms(1) pods dec by (simp add: GetPodSpec_def select_podspec_def)
qed

text \<open>The pods behind the rows of a group, in the order of the rows.\<close>

lemma pods_behind_rows:
  assumes "decodable C t" and "codec_ok C" and "set rows \<subseteq> set (pods_provisional t)"
  obtains ps where "map Name ps = map pr_name rows"
    "list_all2 (\<lambda>q p. unmarshal C (pr_podspec q) = Inr p) rows ps"
proof -
  have "\<exists>p. unmarshal C (pr_podspec q) = Inr p \<and> Name p = pr_name q" if "q \<in> set rows" for q
    using assms that unfolding decodable_def codec_ok_def by (meson subsetD)
  then obtain f where f: "\<And>q. q \<in> set rows \<Longrightarrow> unmarshal C (pr_podspec q) = Inr (f q) \<and> Name (f q) = pr_name q"
    by metis
  have "map Name (map f rows) = map pr_name rows" using f by simp
  moreover have "list_all2 (\<lambda>q p. unmarshal C (pr_podspec q) = Inr p) rows (map f rows)"
    using f by (simp add: list_all2_conv_all_nth)
  ultimately show ?thesis using that by blast
qed

text \<open>The event of a finished job, its arguments as they are in the job's row.\<close>

definition finished_event :: "string \<Rightarrow> river_row \<Rightarrow> river_event" where
  "finished_event st row = \<lparr>ev_Kind = rj_kind row, ev_State = st, ev_Args = rj_args row\<rparr>"

lemma finished_job_binds:
  assumes "tape w = []" and pods: "pods_provisional (tables w) = pods_provisional t"
    and unique: "unique_pods (pods_provisional t)" and rows: "set rows \<subseteq> set (pods_of t (jr_GroupName args, jr_Namespace args))"
    and ps: "list_all2 (\<lambda>q p. unmarshal C (pr_podspec q) = Inr p) rows ps"
    and names: "GetPodNames args = map pr_name rows" and enough: "length (GetNodes args) \<le> length rows"
    and prof: "\<forall>p \<in> set ps. Profiles sched (SchedulerName p) = Some fwk"
    and ev: "rj_kind row = JobArgs_Kind" "decode_JobResult (rj_args row) = Inr args" "st \<noteq> CancelledState"
  shows "\<exists>cycles. waitForJob E C K F S sched lim msg [Some (finished_event st row)] [] [] w =
    \<lparr>lr_end = Waiting, lr_left = [], lr_cycles = cycles,
     lr_bindings = map (\<lambda>(node, p). bind_trace S fwk lim msg node (queued_pod S fwk p)) (zip (GetNodes args) ps),
     lr_world = w\<rparr>"
proof -
  have len: "length rows = length ps" using ps by (rule list_all2_lengthD)
  have "GetPodSpec C (jr_Namespace args) (GetPodNames args ! i) (jr_GroupName args) w = ((Some (ps ! i), None), w)"
    if "i < length ps" for i
  proof -
    have "rows ! i \<in> set (pods_of t (jr_GroupName args, jr_Namespace args))" using that len rows by (simp add: subset_iff)
    moreover have "unmarshal C (pr_podspec (rows ! i)) = Inr (ps ! i)" using ps that len by (simp add: list_all2_conv_all_nth)
    ultimately show ?thesis using fetch_stored [OF assms(1) pods unique] names that len by simp
  qed
  then obtain cycles where "bind_nodes S sched C lim msg args (List.enumerate 0 (GetNodes args)) [] [] w =
      (None, cycles, map (\<lambda>(node, p). bind_trace S fwk lim msg node (queued_pod S fwk p)) (zip (GetNodes args) ps), w)"
    using bind_nodes_all [of 0 "GetNodes args" ps args C w sched fwk S lim msg "[]" "[]"] enough len names prof by auto
  then show ?thesis using ev GetNodes_nonempty [of args]
    by (intro exI [of _ cycles]) (simp add: finished_event_def JobArgs_Kind_def CleanupQueue_def)
qed

text \<open>The event of the job of a group that was ready in the tables \<open>t\<close>.\<close>

lemma ready_group_binds:
  assumes inv: "reach_inv E iter t" and dec: "decodable C t" "codec_ok C" and r: "r \<in> set (ready_rows t)"
    and w: "tape w = []" "pods_provisional (tables w) = pods_provisional t"
    and args: "GetNodes args = slot_nodes slots" "jr_Names args = ja_Names (group_job E t r)"
      "(jr_GroupName args, jr_Namespace args) = group_key r"
    and group: "int (sum_list (map snd slots)) = gr_group_size r" "0 < gr_group_size r"
    and commas: "\<forall>row \<in> set (pods_of t (group_key r)). CHR '','' \<notin> set (pr_name row)"
    and prof: "\<forall>row \<in> set (pods_of t (group_key r)). \<forall>p. unmarshal C (pr_podspec row) = Inr p \<longrightarrow>
      Profiles sched (SchedulerName p) = Some fwk"
    and ev: "rj_kind row = JobArgs_Kind" "decode_JobResult (rj_args row) = Inr args" "st \<noteq> CancelledState"
  shows "\<exists>pods cycles. waitForJob E C K F S sched lim msg [Some (finished_event st row)] [] [] w =
      \<lparr>lr_end = Waiting, lr_left = [], lr_cycles = cycles,
       lr_bindings = map (\<lambda>(node, p). bind_trace S fwk lim msg node (queued_pod S fwk p)) (zip (slot_nodes slots) pods),
       lr_world = w\<rparr> \<and>
    distinct (map Name pods) \<and> Name ` set pods = pr_name ` set (pods_of t (group_key r)) \<and>
    int (length (slot_nodes slots)) = gr_group_size r \<and> length (slot_nodes slots) \<le> length pods"
proof -
  let ?rows = "group_pods E t r"
  note rows = ready_group_pods [OF inv r]
  have set: "set ?rows = set (pods_of t (group_key r))" by (rule mset_eq_set [OF rows(1)])
  have "set ?rows \<subseteq> set (pods_provisional t)" unfolding set by (auto simp: pods_of_def)
  then obtain ps where ps: "map Name ps = map pr_name ?rows"
    "list_all2 (\<lambda>row p. unmarshal C (pr_podspec row) = Inr p) ?rows ps"
    by (rule pods_behind_rows [OF dec])
  have ne: "0 < length ?rows" using rows(3) group(2) by linarith
  have names: "GetPodNames args = map pr_name ?rows"
    unfolding GetPodNames_def args(2) rows(4) using ne commas set by (intro split_nodes) auto
  have nodes: "int (length (slot_nodes slots)) = gr_group_size r" by (simp only: length_slot_nodes group(1))
  have len: "length (slot_nodes slots) \<le> length ?rows" using nodes rows(3) by linarith
  have profs: "\<forall>p \<in> set ps. Profiles sched (SchedulerName p) = Some fwk"
  proof
    fix p
    assume "p \<in> set ps"
    then obtain i where "i < length ps" "p = ps ! i" by (auto simp: in_set_conv_nth)
    moreover from this have "?rows ! i \<in> set ?rows" "unmarshal C (pr_podspec (?rows ! i)) = Inr p"
      using ps(2) by (auto simp: list_all2_conv_all_nth)
    ultimately show "Profiles sched (SchedulerName p) = Some fwk" using prof set by blast
  qed
  have "unique_pods (pods_provisional t)" using inv by (simp add: reach_inv_def queue_inv_def tables_ok_def)
  from finished_job_binds [OF w this _ ps(2) names _ profs ev, unfolded args(1,3)]
  have "\<exists>cycles. waitForJob E C K F S sched lim msg [Some (finished_event st row)] [] [] w =
      \<lparr>lr_end = Waiting, lr_left = [], lr_cycles = cycles,
       lr_bindings = map (\<lambda>(node, p). bind_trace S fwk lim msg node (queued_pod S fwk p)) (zip (slot_nodes slots) ps),
       lr_world = w\<rparr>"
    using set len by blast
  moreover have "distinct (map Name ps)" "length ps = length ?rows" using ps rows(2) by (metis, metis length_map)
  moreover have "Name ` set ps = pr_name ` set (pods_of t (group_key r))" using ps(1) set by (metis list.set_map)
  ultimately show ?thesis using nodes len by metis
qed

end
