(* ===== verification/RunLoop.thy ===== *)
theory RunLoop
  imports EventLoop
begin

text \<open>
  \<open>Run\<close> of \<open>kubernetes/pkg/scheduler/scheduler.go\<close>: what is done before the loop over river's
  events and after it, with the subscription and \<open>Stop\<close> of \<open>kubernetes/pkg/fluxnetes/queue.go\<close>.
  The goroutine of \<open>ScheduleOne\<close> and the informer run beside it and are not part of this function.
\<close>

section \<open>Channels\<close>

text \<open>An unbuffered Go channel: whether it is closed and how many senders wait at it. \<open>None\<close> is a
  receive that blocks.\<close>

datatype go_chan = GoChan (chan_closed: bool) (chan_senders: nat)

definition make_chan :: go_chan where "make_chan = GoChan False 0"

definition chan_recv :: "go_chan \<Rightarrow> go_chan option" where
  "chan_recv c =
     (if 0 < chan_senders c then Some (GoChan (chan_closed c) (chan_senders c - 1))
      else if chan_closed c then Some c else None)"

section \<open>The queue's events\<close>

text \<open>The kinds of events subscribed to, as river writes them; the channel carries the others not.\<close>

definition subscribed_kinds :: "string list" where
  "subscribed_kinds = [''job_completed'', ''job_cancelled'']"

definition setupEvents :: "(string \<times> river_event) list \<Rightarrow> river_event option list" where
  "setupEvents evs = map (\<lambda>(_, ev). Some ev) (filter (\<lambda>(kind, _). kind \<in> set subscribed_kinds) evs)"

text \<open>The queue of \<open>NewQueue\<close> always has a client.\<close>

definition Queue_Stop :: "bool \<Rightarrow> world \<Rightarrow> goerror option \<times> world" where
  "Queue_Stop has_client w0 =
     (if has_client then (case call_ok w0 of (Inl e, w1) \<Rightarrow> (Some e, w1) | (Inr _, w1) \<Rightarrow> (None, w1))
      else (None, w0))"

section \<open>Run\<close>

datatype run_end = RunPanics string | RunWaits string | RunReturned

datatype shutdown = StoppedQueue | ClosedSchedulingQueue | ClosedProfiles | ClosedPool | ClosedSubscription

record run_result =
  rr_end :: run_end
  rr_loop :: "loop_result option"
  rr_shutdown :: "shutdown list"
  rr_world :: world

text \<open>What follows the loop: the wait for the shutdown, and the shutdown.\<close>

definition run_shutdown :: "go_chan \<Rightarrow> bool \<Rightarrow> loop_result \<Rightarrow> run_result" where
  "run_shutdown stopping ctx_done r =
     (let w2 = lr_world r
      in if chan_recv stopping = None
         then \<lparr>rr_end = RunWaits ''stopping'', rr_loop = Some r, rr_shutdown = [], rr_world = w2\<rparr>
         else let (err, w3) = Queue_Stop True w2
              in if \<not> ctx_done
                 then \<lparr>rr_end = RunWaits ''context'', rr_loop = Some r, rr_shutdown = [StoppedQueue], rr_world = w3\<rparr>
                 else let (err, w4) = Queue_Stop True w3
                      in \<lparr>rr_end = RunReturned, rr_loop = Some r,
                          rr_shutdown = [StoppedQueue, ClosedSchedulingQueue, StoppedQueue, ClosedProfiles,
                                         ClosedSubscription, ClosedPool],
                          rr_world = w4\<rparr>)"

text \<open>\<open>closed_end\<close> tells whether the event channel is closed after the events; \<open>ctx_done\<close> whether
  the context ends. A queue that could not be made is dereferenced for its pool.\<close>

definition Run ::
  "dbenv \<Rightarrow> codec \<Rightarrow> kube_api \<Rightarrow> flux_client \<Rightarrow> 's status_ops \<Rightarrow> 's scheduler \<Rightarrow> nat \<Rightarrow> ('s \<Rightarrow> string) \<Rightarrow>
   strategy \<Rightarrow> (string \<times> river_event) list \<Rightarrow> bool \<Rightarrow> bool \<Rightarrow> world \<Rightarrow> run_result" where
  "Run E C K F S sched lim msg strategy evs closed_end ctx_done w0 =
     (case NewQueue strategy w0 of
        (Inl err, w1) \<Rightarrow>
          \<lparr>rr_end = RunPanics ''nil pointer dereference'', rr_loop = None, rr_shutdown = [], rr_world = w1\<rparr>
      | (Inr queue, w1) \<Rightarrow>
          let stopping = make_chan;
              events = setupEvents evs @ (if closed_end then [None] else []);
              r = waitForJob E C K F S (sched\<lparr>sched_Queue := queue\<rparr>) lim msg events [] [] w1;
              w2 = lr_world r
          in case lr_end r of
               LoopPanics m \<Rightarrow>
                 \<lparr>rr_end = RunPanics m, rr_loop = Some r, rr_shutdown = [ClosedSubscription, ClosedPool], rr_world = w2\<rparr>
             | Waiting \<Rightarrow> \<lparr>rr_end = RunWaits ''events'', rr_loop = Some r, rr_shutdown = [], rr_world = w2\<rparr>
             | _ \<Rightarrow> run_shutdown stopping ctx_done r)"

text \<open>Nothing sends on the channel or closes it: the shutdown is never reached, whatever happens,
  and after the first cancelled job \<open>Run\<close> does nothing any more.\<close>

theorem Run_never_shuts_down:
  "rr_end (Run E C K F S sched lim msg strategy evs closed_end ctx_done w) \<noteq> RunReturned \<and>
   StoppedQueue \<notin> set (rr_shutdown (Run E C K F S sched lim msg strategy evs closed_end ctx_done w))"
  by (simp add: Run_def run_shutdown_def Let_def make_chan_def chan_recv_def split: sum.splits prod.splits loop_end.splits)

end
