(* ===== verification/GoHeap.thy ===== *)
theory GoHeap
  imports Prelude
begin

text \<open>
  Go's \<open>container/heap\<close> on a slice: \<open>Init\<close>, \<open>Pop\<close> and their common \<open>down\<close>, for a type whose
  \<open>Swap\<close> exchanges two elements and whose \<open>Pop\<close> method removes the last one. The test for an
  overflow of the child's index is left out: no slice is that long. \<open>prio_queue\<close> is the contract
  a client relies on; \<open>heap_order\<close> gives it for every strict weak order.
\<close>

section \<open>The operations\<close>

definition swap_at :: "nat \<Rightarrow> nat \<Rightarrow> 'a list \<Rightarrow> 'a list" where
  "swap_at i j h = h[i := h ! j, j := h ! i]"

definition slice_pop :: "'a list \<Rightarrow> 'a \<times> 'a list" where
  "slice_pop h = (last h, butlast h)"

function heap_down :: "('a \<Rightarrow> 'a \<Rightarrow> bool) \<Rightarrow> nat \<Rightarrow> nat \<Rightarrow> 'a list \<Rightarrow> 'a list" where
  "heap_down lt i n h =
     (let j1 = 2 * i + 1
      in if n \<le> j1 then h
         else let j2 = j1 + 1;
                  j = (if j2 < n \<and> lt (h ! j2) (h ! j1) then j2 else j1)
              in if \<not> lt (h ! j) (h ! i) then h
                 else heap_down lt j n (swap_at i j h))"
  by pat_completeness auto
termination
  by (relation "measure (\<lambda>(lt, i, n, h). n - i)") (auto simp: Let_def)

declare heap_down.simps [simp del]

fun init_loop :: "('a \<Rightarrow> 'a \<Rightarrow> bool) \<Rightarrow> nat \<Rightarrow> nat \<Rightarrow> 'a list \<Rightarrow> 'a list" where
  "init_loop lt 0 n h = h"
| "init_loop lt (Suc i) n h = init_loop lt i n (heap_down lt i n h)"

definition heap_Init :: "('a \<Rightarrow> 'a \<Rightarrow> bool) \<Rightarrow> 'a list \<Rightarrow> 'a list" where
  "heap_Init lt h = init_loop lt (length h div 2) (length h) h"

text \<open>On an empty slice the swap indexes element -1.\<close>

definition heap_Pop :: "('a \<Rightarrow> 'a \<Rightarrow> bool) \<Rightarrow> 'a list \<Rightarrow> ('a \<times> 'a list) outcome" where
  "heap_Pop lt h =
     (if h = [] then Panics ''index out of range''
      else let n = length h - 1
           in Returns (slice_pop (heap_down lt 0 n (swap_at 0 n h))))"

text \<open>Popping until nothing is left, at most \<open>fuel\<close> times.\<close>

fun drain :: "('h \<Rightarrow> ('a \<times> 'h) outcome) \<Rightarrow> nat \<Rightarrow> 'h \<Rightarrow> 'a list" where
  "drain pop 0 h = []"
| "drain pop (Suc fuel) h =
     (case pop h of Panics m \<Rightarrow> [] | Returns (x, h') \<Rightarrow> x # drain pop fuel h')"

section \<open>The contract\<close>

locale prio_queue =
  fixes init :: "'a list \<Rightarrow> 'h" and pop :: "'h \<Rightarrow> ('a \<times> 'h) outcome"
    and inv :: "'h \<Rightarrow> bool" and elems :: "'h \<Rightarrow> 'a multiset" and before :: "'a \<Rightarrow> 'a \<Rightarrow> bool"
  assumes init_inv: "inv (init xs)"
    and init_elems: "elems (init xs) = mset xs"
    and pop_empty: "inv h \<Longrightarrow> elems h = {#} \<Longrightarrow> \<exists>m. pop h = Panics m"
    and pop_first: "inv h \<Longrightarrow> elems h \<noteq> {#} \<Longrightarrow> \<exists>x h'. pop h = Returns (x, h') \<and> inv h' \<and>
      elems h = add_mset x (elems h') \<and> (\<forall>y \<in># elems h'. \<not> before y x)"
begin

lemma drain_elems: "inv h \<Longrightarrow> size (elems h) \<le> fuel \<Longrightarrow> mset (drain pop fuel h) = elems h"
proof (induction fuel arbitrary: h)
  case 0
  then show ?case by simp
next
  case (Suc fuel)
  show ?case
  proof (cases "elems h = {#}")
    case True
    then show ?thesis using pop_empty [OF Suc.prems(1)] by auto
  next
    case False
    then show ?thesis using pop_first [OF Suc.prems(1)] Suc by auto
  qed
qed

lemma drain_sorted: "inv h \<Longrightarrow> size (elems h) \<le> fuel \<Longrightarrow> sorted_wrt (\<lambda>x y. \<not> before y x) (drain pop fuel h)"
proof (induction fuel arbitrary: h)
  case 0
  then show ?case by simp
next
  case (Suc fuel)
  show ?case
  proof (cases "elems h = {#}")
    case True
    then show ?thesis using pop_empty [OF Suc.prems(1)] by auto
  next
    case False
    then obtain x h' where p: "pop h = Returns (x, h')" "inv h'" "elems h = add_mset x (elems h')"
      "\<forall>y \<in># elems h'. \<not> before y x" using pop_first [OF Suc.prems(1)] by blast
    then have "set (drain pop fuel h') = set_mset (elems h')"
      using drain_elems [of h' fuel] Suc.prems(2) by (metis Suc_le_mono set_mset_mset size_add_mset)
    then show ?thesis using p Suc by auto
  qed
qed

end

section \<open>Slices keep it\<close>

definition heap_from :: "('a \<Rightarrow> 'a \<Rightarrow> bool) \<Rightarrow> nat \<Rightarrow> nat \<Rightarrow> 'a list \<Rightarrow> bool" where
  "heap_from lt m n h \<longleftrightarrow>
     (\<forall>c < n. 0 < c \<longrightarrow> m \<le> (c - 1) div 2 \<longrightarrow> \<not> lt (h ! c) (h ! ((c - 1) div 2)))"

lemma swap_at_simps [simp]:
  "length (swap_at i j h) = length h"
  "k \<noteq> i \<Longrightarrow> k \<noteq> j \<Longrightarrow> swap_at i j h ! k = h ! k"
  "i < length h \<Longrightarrow> j < length h \<Longrightarrow> swap_at i j h ! j = h ! i"
  "i < length h \<Longrightarrow> j < length h \<Longrightarrow> swap_at i j h ! i = h ! j"
  "i < length h \<Longrightarrow> j < length h \<Longrightarrow> mset (swap_at i j h) = mset h"
  by (auto simp: swap_at_def nth_list_update mset_swap)

lemma heap_down_frame:
  "n \<le> length h \<Longrightarrow> length (heap_down lt i n h) = length h \<and> mset (heap_down lt i n h) = mset h \<and>
     (\<forall>k. n \<le> k \<longrightarrow> heap_down lt i n h ! k = h ! k)"
proof (induction lt i n h rule: heap_down.induct)
  case (1 lt i n h)
  show ?case
    using 1 by (subst (1 2 3) heap_down.simps) (auto simp: Let_def)
qed

lemma init_loop_frame:
  "n \<le> length h \<Longrightarrow> length (init_loop lt i n h) = length h \<and> mset (init_loop lt i n h) = mset h"
  by (induction lt i n h rule: init_loop.induct) (simp_all add: heap_down_frame)

lemma children: "0 < c \<Longrightarrow> (c - 1) div 2 = i \<longleftrightarrow> c = 2 * i + 1 \<or> c = 2 * i + 2" for c i :: nat
  by presburger

locale heap_order =
  fixes lt :: "'a \<Rightarrow> 'a \<Rightarrow> bool"
  assumes asym: "lt x y \<Longrightarrow> \<not> lt y x"
    and negtrans: "\<not> lt y x \<Longrightarrow> \<not> lt z y \<Longrightarrow> \<not> lt z x"
begin

lemma irrefl: "\<not> lt x x"
  using asym by blast

lemma smaller_child:
  assumes "j = (if 2 * i + 1 + 1 < n \<and> lt (h ! (2 * i + 1 + 1)) (h ! (2 * i + 1)) then 2 * i + 1 + 1 else 2 * i + 1)"
    and "c < n" and "0 < c" and "(c - 1) div 2 = i"
  shows "\<not> lt (h ! c) (h ! j)"
proof -
  have "c = 2 * i + 1 \<or> c = 2 * i + 2" using children [OF assms(3)] assms(4) by blast
  then show ?thesis using assms(1,2) asym irrefl by auto
qed

lemma heap_down_ok:
  assumes "n \<le> length h" and "m \<le> i"
    and "\<forall>c < n. 0 < c \<longrightarrow> m \<le> (c - 1) div 2 \<longrightarrow> (c - 1) div 2 \<noteq> i \<longrightarrow> \<not> lt (h ! c) (h ! ((c - 1) div 2))"
    and "\<forall>c < n. 0 < c \<longrightarrow> (c - 1) div 2 = i \<longrightarrow> 0 < i \<longrightarrow> m \<le> (i - 1) div 2 \<longrightarrow> \<not> lt (h ! c) (h ! ((i - 1) div 2))"
  shows "heap_from lt m n (heap_down lt i n h)"
  using assms
proof (induction "n - i" arbitrary: i h rule: less_induct)
  case less
  let ?j1 = "2 * i + 1"
  define j where "j = (if ?j1 + 1 < n \<and> lt (h ! (?j1 + 1)) (h ! ?j1) then ?j1 + 1 else ?j1)"
  have step: "heap_down lt i n h =
      (if n \<le> ?j1 then h else if \<not> lt (h ! j) (h ! i) then h else heap_down lt j n (swap_at i j h))"
    by (subst heap_down.simps) (simp add: Let_def j_def)
  have child: "\<not> lt (h ! c) (h ! j)" if "c < n" "0 < c" "(c - 1) div 2 = i" for c
    using smaller_child [OF j_def that] .
  consider "n \<le> ?j1" | "\<not> n \<le> ?j1" "\<not> lt (h ! j) (h ! i)" | "\<not> n \<le> ?j1" "lt (h ! j) (h ! i)" by blast
  then show ?case
  proof cases
    case 1
    then have "(c - 1) div 2 \<noteq> i" if "c < n" "0 < c" for c
      using that children [of c i] by auto
    then show ?thesis using less.prems(3) 1 by (simp add: step heap_from_def)
  next
    case 2
    have "\<not> lt (h ! c) (h ! ((c - 1) div 2))" if "c < n" "0 < c" "m \<le> (c - 1) div 2" for c
      using that child [of c] negtrans [of "h ! j" "h ! i" "h ! c"] 2(2) less.prems(3)
      by (cases "(c - 1) div 2 = i") auto
    then show ?thesis using 2 by (simp add: step heap_from_def)
  next
    case 3
    have j: "j < n" "i < j" "0 < j" "(j - 1) div 2 = i" "i < n" using 3(1) by (auto simp: j_def)
    let ?h = "swap_at i j h"
    have len: "i < length h" "j < length h" using j less.prems(1) by simp_all
    have at: "?h ! i = h ! j" "?h ! j = h ! i" "\<And>k. k \<noteq> i \<Longrightarrow> k \<noteq> j \<Longrightarrow> ?h ! k = h ! k"
      using len by simp_all
    have "heap_from lt m n (heap_down lt j n ?h)"
    proof (rule less.hyps)
      show "n - j < n - i" using j by simp
      show "n \<le> length ?h" using less.prems(1) by simp
      show "m \<le> j" using less.prems(2) j by simp
      show "\<forall>c < n. 0 < c \<longrightarrow> m \<le> (c - 1) div 2 \<longrightarrow> (c - 1) div 2 \<noteq> j \<longrightarrow> \<not> lt (?h ! c) (?h ! ((c - 1) div 2))"
      proof (intro allI impI)
        fix c
        assume c: "c < n" "0 < c" "m \<le> (c - 1) div 2" "(c - 1) div 2 \<noteq> j"
        show "\<not> lt (?h ! c) (?h ! ((c - 1) div 2))"
        proof (cases "(c - 1) div 2 = i")
          case True
          then show ?thesis
            using c child [of c] asym [OF 3(2)] at j(2) by (cases "c = j") auto
        next
          case False
          then have "c \<noteq> j" using j by auto
          moreover have "(c - 1) div 2 \<noteq> i" by (rule False)
          ultimately show ?thesis
            using c less.prems(3,4) j at by (cases "c = i") auto
        qed
      qed
      show "\<forall>c < n. 0 < c \<longrightarrow> (c - 1) div 2 = j \<longrightarrow> 0 < j \<longrightarrow> m \<le> (j - 1) div 2 \<longrightarrow> \<not> lt (?h ! c) (?h ! ((j - 1) div 2))"
      proof (intro allI impI)
        fix c
        assume c: "c < n" "0 < c" "(c - 1) div 2 = j" "0 < j" "m \<le> (j - 1) div 2"
        then have ne: "c \<noteq> i" "c \<noteq> j" using j by auto
        have "m \<le> (c - 1) div 2" "(c - 1) div 2 \<noteq> i" using c(3) less.prems(2) j(2) by linarith+
        then have "\<not> lt (h ! c) (h ! j)"
          using less.prems(3) [rule_format, of c] c(1,2) unfolding c(3) by blast
        then show "\<not> lt (?h ! c) (?h ! ((j - 1) div 2))"
          unfolding j(4) at(1) at(3) [OF ne] .
      qed
    qed
    then show ?thesis using 3 by (simp add: step)
  qed
qed

lemma init_loop_heap:
  "length h = n \<Longrightarrow> heap_from lt m n h \<Longrightarrow> heap_from lt 0 n (init_loop lt m n h)"
proof (induction m arbitrary: h)
  case 0
  then show ?case by simp
next
  case (Suc m)
  have "heap_from lt m n (heap_down lt m n h)"
  proof (rule heap_down_ok)
    show "\<forall>c < n. 0 < c \<longrightarrow> m \<le> (c - 1) div 2 \<longrightarrow> (c - 1) div 2 \<noteq> m \<longrightarrow> \<not> lt (h ! c) (h ! ((c - 1) div 2))"
      using Suc.prems(2) by (auto simp: heap_from_def)
    show "\<forall>c < n. 0 < c \<longrightarrow> (c - 1) div 2 = m \<longrightarrow> 0 < m \<longrightarrow> m \<le> (m - 1) div 2 \<longrightarrow> \<not> lt (h ! c) (h ! ((m - 1) div 2))"
      by auto
  qed (use Suc.prems in simp_all)
  then show ?case using Suc heap_down_frame [of n h lt m] by simp
qed

lemma heap_Init_heap: "heap_from lt 0 (length h) (heap_Init lt h)"
  unfolding heap_Init_def by (rule init_loop_heap) (auto simp: heap_from_def)

lemma root_first: "heap_from lt 0 n h \<Longrightarrow> k < n \<Longrightarrow> \<not> lt (h ! k) (h ! 0)"
proof (induction k rule: less_induct)
  case (less k)
  show ?case
  proof (cases "k = 0")
    case True
    then show ?thesis by (simp add: irrefl)
  next
    case False
    then have "(k - 1) div 2 < k" by auto
    then show ?thesis
      using less False negtrans [of "h ! ((k - 1) div 2)" "h ! 0" "h ! k"] by (auto simp: heap_from_def)
  qed
qed

lemma heap_Pop_first:
  assumes "heap_from lt 0 (length h) h" and "h \<noteq> []"
  shows "\<exists>x h'. heap_Pop lt h = Returns (x, h') \<and> heap_from lt 0 (length h') h' \<and>
    mset h = add_mset x (mset h') \<and> (\<forall>y \<in># mset h'. \<not> lt y x)"
proof -
  let ?n = "length h - 1" let ?s = "swap_at 0 ?n h" let ?d = "heap_down lt 0 ?n ?s"
  have n: "?n < length h" "0 < length h" using assms(2) by simp_all
  have fr: "length ?d = length h" "mset ?d = mset h" "?d ! ?n = h ! 0"
    using heap_down_frame [of ?n ?s lt 0] n by simp_all
  have "heap_from lt 0 ?n ?d"
  proof (rule heap_down_ok)
    show "\<forall>c < ?n. 0 < c \<longrightarrow> 0 \<le> (c - 1) div 2 \<longrightarrow> (c - 1) div 2 \<noteq> 0 \<longrightarrow>
        \<not> lt (?s ! c) (?s ! ((c - 1) div 2))"
      using assms(1) by (auto simp: heap_from_def)
  qed simp_all
  then have heap: "heap_from lt 0 ?n (butlast ?d)"
    using fr(1) by (auto simp: heap_from_def nth_butlast)
  have d: "?d = butlast ?d @ [h ! 0]"
    using fr(1,3) assms(2) by (metis append_butlast_last_id last_conv_nth length_0_conv)
  have ms: "mset h = add_mset (h ! 0) (mset (butlast ?d))" using fr(2) d by (metis mset.simps(2) mset_append add.right_neutral add_mset_add_single mset.simps(1))
  have "\<not> lt y (h ! 0)" if "y \<in># mset (butlast ?d)" for y
  proof -
    have "y \<in># mset h" using that ms by simp
    then obtain k where "k < length h" "h ! k = y" by (auto simp: in_set_conv_nth)
    then show ?thesis using root_first [OF assms(1)] by blast
  qed
  moreover have "last ?d = h ! 0" using d by (metis last_snoc)
  ultimately show ?thesis
    using heap ms fr(1) assms(2) by (auto simp: heap_Pop_def slice_pop_def Let_def)
qed

end

text \<open>Every strict weak order makes the slice a priority queue.\<close>

sublocale heap_order \<subseteq> prio_queue "heap_Init lt" "heap_Pop lt" "\<lambda>h. heap_from lt 0 (length h) h" mset lt
proof
  fix xs h :: "'a list"
  show "mset (heap_Init lt xs) = mset xs" by (simp add: heap_Init_def init_loop_frame)
  then show "heap_from lt 0 (length (heap_Init lt xs)) (heap_Init lt xs)"
    using heap_Init_heap [of xs] by (metis size_mset)
  show "\<exists>m. heap_Pop lt h = Panics m" if "mset h = {#}" using that by (simp add: heap_Pop_def)
  show "\<exists>x h'. heap_Pop lt h = Returns (x, h') \<and> heap_from lt 0 (length h') h' \<and>
      mset h = add_mset x (mset h') \<and> (\<forall>y \<in># mset h'. \<not> lt y x)"
    if "heap_from lt 0 (length h) h" "mset h \<noteq> {#}"
    using heap_Pop_first that by simp
qed

end
