(* ===== verification/HostSelection.thy ===== *)
theory HostSelection
  imports NodeSelection GoHeap "HOL-Library.FuncSet"
begin

text \<open>
  \<open>prioritizeNodes\<close> and \<open>selectHost\<close> of \<open>kubernetes/pkg/scheduler/schedule_one.go\<close>. The score
  plugins, the extenders, the order in which the extenders' goroutines take the lock, the two
  constants of the scale and the answers of \<open>rand.Intn\<close> are parameters. Scores are \<open>int64\<close>: their
  sums wrap around.
\<close>

section \<open>Scores\<close>

record PluginScore =
  ps_Name :: string
  ps_Score :: int64

record NodePluginScores =
  nps_Name :: string
  nps_Scores :: "PluginScore list"
  nps_TotalScore :: int64

record scoring =
  HasScorePlugins :: bool
  RunPreScorePlugins :: "pod \<Rightarrow> string list \<Rightarrow> goerror option"
  RunScorePlugins :: "pod \<Rightarrow> string list \<Rightarrow> goerror + NodePluginScores list"
  score_scale :: int64    \<comment> \<open>\<open>framework.MaxNodeScore / extenderv1.MaxExtenderPriority\<close>\<close>

text \<open>\<open>allNodeExtendersScores\<close>: what the extenders gave each node so far.\<close>

type_synonym extender_scores = "(string \<times> NodePluginScores) list"

definition add_extender_score ::
  "string \<Rightarrow> int64 \<Rightarrow> int64 \<Rightarrow> string \<times> int64 \<Rightarrow> extender_scores \<Rightarrow> extender_scores" where
  "add_extender_score ename weight scale hs acc =
     (let (nodename, score) = hs;
          finalscore = score * weight * scale;
          old = (case map_of acc nodename of
                   None \<Rightarrow> \<lparr>nps_Name = nodename, nps_Scores = [], nps_TotalScore = 0\<rparr>
                 | Some s \<Rightarrow> s)
      in AList.update nodename
           (old\<lparr>nps_Scores := nps_Scores old @ [\<lparr>ps_Name = ename, ps_Score = finalscore\<rparr>],
                nps_TotalScore := nps_TotalScore old + finalscore\<rparr>) acc)"

text \<open>One goroutine, once it holds the lock.\<close>

definition run_prioritize ::
  "int64 \<Rightarrow> pod \<Rightarrow> string list \<Rightarrow> extender \<Rightarrow> extender_scores \<Rightarrow> extender_scores" where
  "run_prioritize scale p nodes x acc =
     (case Prioritize x p nodes of
        Inl e \<Rightarrow> acc
      | Inr (prioritizedList, weight) \<Rightarrow>
          fold (add_extender_score (ext_Name x) weight scale) prioritizedList acc)"

fun merge_scores ::
  "extender_scores \<Rightarrow> string list \<Rightarrow> NodePluginScores list \<Rightarrow> NodePluginScores list outcome" where
  "merge_scores acc nodes [] = Returns []"
| "merge_scores acc [] (s # ss) = Panics ''index out of range''"
| "merge_scores acc (node # nodes) (s # ss) =
     (let s' = (case map_of acc node of
                  None \<Rightarrow> s
                | Some e \<Rightarrow> s\<lparr>nps_Scores := nps_Scores s @ nps_Scores e,
                               nps_TotalScore := nps_TotalScore s + nps_TotalScore e\<rparr>)
      in bind_outcome (merge_scores acc nodes ss) (\<lambda>r. Returns (s' # r)))"

text \<open>\<open>lock_order\<close> lists the extenders that are interested in the order in which they take the
  lock. A nil \<open>nodes\<close> and an empty one are not told apart; the caller passes at least two.\<close>

definition prioritizeNodes ::
  "extender list \<Rightarrow> scoring \<Rightarrow> extender list \<Rightarrow> pod \<Rightarrow> string list \<Rightarrow>
   (goerror + NodePluginScores list) outcome" where
  "prioritizeNodes extenders C lock_order p nodes =
     (if extenders = [] \<and> \<not> HasScorePlugins C
      then Returns (Inr (map (\<lambda>n. \<lparr>nps_Name = n, nps_Scores = [], nps_TotalScore = 1\<rparr>) nodes))
      else case RunPreScorePlugins C p nodes of
             Some e \<Rightarrow> Returns (Inl e)
           | None \<Rightarrow>
      (case RunScorePlugins C p nodes of
         Inl e \<Rightarrow> Returns (Inl e)
       | Inr nodesScores \<Rightarrow>
           if extenders \<noteq> [] \<and> nodes \<noteq> []
           then bind_outcome
                  (merge_scores (fold (run_prioritize (score_scale C) p nodes) lock_order []) nodes nodesScores)
                  (\<lambda>r. Returns (Inr r))
           else Returns (Inr nodesScores)))"

section \<open>Choosing the host\<close>

definition numberOfHighestScoredNodesToReport :: nat where
  "numberOfHighestScoredNodesToReport = 3"

definition nodeScoreHeap_Less :: "NodePluginScores \<Rightarrow> NodePluginScores \<Rightarrow> bool" where
  "nodeScoreHeap_Less a b \<longleftrightarrow> nps_TotalScore b <s nps_TotalScore a"

interpretation nsh: heap_order nodeScoreHeap_Less
  by unfold_locales (auto simp: nodeScoreHeap_Less_def word_sless_alt)

lemma heap_Pop_length:
  "heap_Pop lt h = Returns (x, h') \<Longrightarrow> length h = Suc (length h')"
  using heap_down_frame [of "length h - 1" "swap_at 0 (length h - 1) h" lt 0]
  by (auto simp: heap_Pop_def slice_pop_def Let_def split: if_splits)

text \<open>The loop of \<open>selectHost\<close>. \<open>rnd k\<close> is what \<open>rand.Intn(k)\<close> answers; the loop asks at most
  once for each \<open>k\<close>. The result is the list and the selected index.\<close>

function select_loop ::
  "(nat \<Rightarrow> nat) \<Rightarrow> nat \<Rightarrow> NodePluginScores \<Rightarrow> NodePluginScores list \<Rightarrow> nat \<Rightarrow> nat \<Rightarrow>
   NodePluginScores list \<Rightarrow> (NodePluginScores list \<times> nat) outcome" where
  "select_loop rnd n ns h cntOfMaxScore selectedIndex slist =
     (if nps_TotalScore ns \<noteq> nps_TotalScore (slist ! 0) \<and> length slist = n
      then Returns (slist, selectedIndex)
      else let top = (nps_TotalScore ns = nps_TotalScore (slist ! 0));
               cnt = (if top then cntOfMaxScore + 1 else cntOfMaxScore);
               sel = (if top \<and> rnd cnt = 0 then cnt - 1 else selectedIndex);
               slist' = slist @ [ns]
           in if h = [] then Returns (slist', sel)
              else case heap_Pop nodeScoreHeap_Less h of
                     Panics m \<Rightarrow> Panics m
                   | Returns (ns', h') \<Rightarrow> select_loop rnd n ns' h' cnt sel slist')"
  by pat_completeness auto
termination
  by (relation "measure (\<lambda>(rnd, n, ns, h, c, s, xs). length h)") (auto dest: heap_Pop_length)

declare select_loop.simps [simp del]

definition errEmptyPriorityList :: goerror where
  "errEmptyPriorityList = GoErr ''empty priorityList''"

definition selectHost ::
  "(nat \<Rightarrow> nat) \<Rightarrow> NodePluginScores list \<Rightarrow> nat \<Rightarrow>
   (goerror + string \<times> NodePluginScores list) outcome" where
  "selectHost rnd nodeScoreList n =
     (if nodeScoreList = [] then Returns (Inl errEmptyPriorityList)
      else
     bind_outcome (heap_Pop nodeScoreHeap_Less (heap_Init nodeScoreHeap_Less nodeScoreList)) (\<lambda>(x, h).
     bind_outcome (heap_Pop nodeScoreHeap_Less h) (\<lambda>(ns, h).
     bind_outcome (select_loop rnd n ns h 1 0 [x]) (\<lambda>(slist, sel).
       let slist = (if sel \<noteq> 0 then slist[0 := slist ! sel, sel := slist ! 0] else slist);
           slist = (if n < length slist then take n slist else slist)
       in case slist of
            [] \<Rightarrow> Panics ''index out of range''
          | s # ss \<Rightarrow> Returns (Inr (nps_Name s, slist))))))"

section \<open>The loop on the sorted list\<close>

text \<open>What the loop does to the nodes in the order in which the heap gives them, and the final
  index: the last \<open>k\<close> for which the dice showed 0.\<close>

fun scan :: "nat \<Rightarrow> NodePluginScores list \<Rightarrow> NodePluginScores list \<Rightarrow> NodePluginScores list" where
  "scan n slist [] = slist"
| "scan n slist (ns # xs) =
     (if nps_TotalScore ns \<noteq> nps_TotalScore (slist ! 0) \<and> length slist = n then slist
      else scan n (slist @ [ns]) xs)"

fun reservoir :: "(nat \<Rightarrow> nat) \<Rightarrow> nat \<Rightarrow> nat" where
  "reservoir rnd 0 = 0"
| "reservoir rnd (Suc k) = (if 0 < k \<and> rnd (Suc k) = 0 then k else reservoir rnd k)"

definition ties :: "int64 \<Rightarrow> NodePluginScores list \<Rightarrow> nat" where
  "ties t xs = length (filter (\<lambda>s. nps_TotalScore s = t) xs)"

abbreviation sdrain :: "NodePluginScores list \<Rightarrow> NodePluginScores list" where
  "sdrain h \<equiv> drain (heap_Pop nodeScoreHeap_Less) (length h) h"

abbreviation sheap :: "NodePluginScores list \<Rightarrow> bool" where
  "sheap h \<equiv> heap_from nodeScoreHeap_Less 0 (length h) h"

lemma sdrain_Cons:
  assumes "sheap h" and "h \<noteq> []"
  obtains x h' where "heap_Pop nodeScoreHeap_Less h = Returns (x, h')" "sheap h'" "sdrain h = x # sdrain h'"
proof -
  obtain x h' where p: "heap_Pop nodeScoreHeap_Less h = Returns (x, h')" "sheap h'"
    using nsh.heap_Pop_first [OF assms] by blast
  then have "sdrain h = x # sdrain h'" using heap_Pop_length by fastforce
  then show ?thesis using p that by blast
qed

lemma score_less: "\<not> nodeScoreHeap_Less y x \<Longrightarrow> nps_TotalScore y \<noteq> nps_TotalScore x \<Longrightarrow> nps_TotalScore y <s nps_TotalScore x"
  unfolding nodeScoreHeap_Less_def word_sless_alt by (metis not_less_iff_gr_or_eq signed_word_eqI)

lemma scan_no_ties:
  "\<lbrakk>slist \<noteq> []; sorted_wrt (\<lambda>x y. \<not> nodeScoreHeap_Less y x) (ns # xs);
    nps_TotalScore ns <s nps_TotalScore (slist ! 0)\<rbrakk> \<Longrightarrow> ties (nps_TotalScore (slist ! 0)) (ns # xs) = 0"
  by (fastforce simp: ties_def nodeScoreHeap_Less_def word_sless_alt filter_empty_conv)

lemma select_loop_scan:
  "\<lbrakk>sheap h; slist \<noteq> []; cnt \<noteq> 0; sel = reservoir rnd cnt;
    sorted_wrt (\<lambda>x y. \<not> nodeScoreHeap_Less y x) (slist ! 0 # ns # sdrain h)\<rbrakk> \<Longrightarrow>
   select_loop rnd n ns h cnt sel slist =
     Returns (scan n slist (ns # sdrain h),
              reservoir rnd (cnt + ties (nps_TotalScore (slist ! 0)) (ns # sdrain h)))"
proof (induction rnd n ns h cnt sel slist rule: select_loop.induct)
  case (1 rnd n ns h cnt sel slist)
  let ?t = "nps_TotalScore (slist ! 0)"
  show ?case
  proof (cases "nps_TotalScore ns \<noteq> ?t \<and> length slist = n")
    case True
    then have "nps_TotalScore ns <s ?t"
      using 1(6) by (auto intro: score_less)
    then have "ties ?t (ns # sdrain h) = 0" using scan_no_ties [OF 1(3)] 1(6) by auto
    then show ?thesis using True 1(5) by (simp add: select_loop.simps)
  next
    case False
    define cnt' where "cnt' = (if nps_TotalScore ns = ?t then cnt + 1 else cnt)"
    have sel': "(if nps_TotalScore ns = ?t \<and> rnd cnt' = 0 then cnt' - 1 else sel) = reservoir rnd cnt'"
      using 1(4,5) by (auto simp: cnt'_def)
    have tie: "cnt + ties ?t (ns # ds) = cnt' + ties ?t ds" for ds by (simp add: ties_def cnt'_def)
    have step: "select_loop rnd n ns h cnt sel slist =
        (if h = [] then Returns (slist @ [ns], reservoir rnd cnt')
         else case heap_Pop nodeScoreHeap_Less h of Panics m \<Rightarrow> Panics m
              | Returns (ns', h') \<Rightarrow> select_loop rnd n ns' h' cnt' (reservoir rnd cnt') (slist @ [ns]))"
      unfolding select_loop.simps [of rnd n ns h cnt sel slist] if_not_P [OF False] Let_def
        cnt'_def [symmetric] sel' ..
    have more: "scan n slist (ns # ds) = scan n (slist @ [ns]) ds" for ds using False by auto
    show ?thesis
    proof (cases "h = []")
      case True
      then show ?thesis unfolding step tie more by (simp add: ties_def)
    next
      case ne: False
      obtain x h' where p: "heap_Pop nodeScoreHeap_Less h = Returns (x, h')" "sheap h'" "sdrain h = x # sdrain h'"
        using sdrain_Cons [OF 1(2) ne] .
      have "select_loop rnd n x h' cnt' (reservoir rnd cnt') (slist @ [ns]) =
          Returns (scan n (slist @ [ns]) (x # sdrain h'), reservoir rnd (cnt' + ties ?t (x # sdrain h')))"
        using 1(1) [OF False _ _ _ _ ne p(1) _ p(2)] sel' 1(3,4,6) p(3) False
        by (auto simp: cnt'_def nth_append)
      then show ?thesis unfolding step tie more using ne p by simp
    qed
  qed
qed

lemma scan_prefix:
  "\<lbrakk>slist \<noteq> []; sorted_wrt (\<lambda>x y. \<not> nodeScoreHeap_Less y x) (slist ! 0 # xs)\<rbrakk> \<Longrightarrow>
   \<exists>k \<le> length xs. scan n slist xs = slist @ take k xs \<and> ties (nps_TotalScore (slist ! 0)) xs \<le> k \<and>
     (k < length xs \<longrightarrow> length slist + k = n)"
proof (induction n slist xs rule: scan.induct)
  case (1 n slist)
  then show ?case by (simp add: ties_def)
next
  case (2 n slist ns xs)
  show ?case
  proof (cases "nps_TotalScore ns \<noteq> nps_TotalScore (slist ! 0) \<and> length slist = n")
    case True
    then have "ties (nps_TotalScore (slist ! 0)) (ns # xs) = 0"
      using scan_no_ties [OF 2(2)] 2(3) by (auto intro: score_less)
    then show ?thesis using True by (intro exI [of _ 0]) auto
  next
    case False
    have at: "(slist @ [ns]) ! 0 = slist ! 0" using 2(2) by (simp add: nth_append)
    have "sorted_wrt (\<lambda>x y. \<not> nodeScoreHeap_Less y x) ((slist @ [ns]) ! 0 # xs)"
      unfolding at using 2(3) by simp
    then obtain k where k: "k \<le> length xs" "scan n (slist @ [ns]) xs = (slist @ [ns]) @ take k xs"
      "ties (nps_TotalScore (slist ! 0)) xs \<le> k" "k < length xs \<longrightarrow> length (slist @ [ns]) + k = n"
      using 2(1) [OF False] unfolding at by blast
    have "scan n slist (ns # xs) = scan n (slist @ [ns]) xs" using False by auto
    then show ?thesis using k by (intro exI [of _ "Suc k"]) (auto simp: ties_def)
  qed
qed

lemma ties_front:
  "sorted_wrt (\<lambda>x y. \<not> nodeScoreHeap_Less y x) ds \<Longrightarrow> \<forall>s \<in> set ds. nps_TotalScore s \<noteq> t \<longrightarrow> nps_TotalScore s <s t \<Longrightarrow>
   i < length ds \<Longrightarrow> nps_TotalScore (ds ! i) = t \<longleftrightarrow> i < ties t ds"
proof (induction ds arbitrary: i)
  case Nil
  then show ?case by simp
next
  case (Cons d ds)
  show ?case
  proof (cases "nps_TotalScore d = t")
    case True
    then show ?thesis using Cons by (cases i) (simp_all add: ties_def)
  next
    case False
    then have "nps_TotalScore d <s t" using Cons.prems(2) by simp
    then have "\<forall>s \<in> set (d # ds). nps_TotalScore s \<noteq> t"
      using Cons.prems(1) by (auto simp: nodeScoreHeap_Less_def word_sless_alt)
    moreover from this have "ties t (d # ds) = 0" by (auto simp: ties_def filter_empty_conv)
    moreover have "(d # ds) ! i \<in> set (d # ds)" using Cons.prems(3) by (rule nth_mem)
    ultimately show ?thesis by auto
  qed
qed

lemma reservoir_less: "0 < k \<Longrightarrow> reservoir rnd k < k"
proof (induction k)
  case (Suc k)
  then show ?case by (cases k) (auto intro: less_SucI)
qed simp

text \<open>What \<open>selectHost\<close> computes, over the nodes sorted by score.\<close>

lemma selectHost_sorted:
  assumes "2 \<le> length xs" and "1 \<le> n"
  obtains ds k r where "mset ds = mset xs" "sorted_wrt (\<lambda>x y. \<not> nodeScoreHeap_Less y x) ds"
    "k \<le> length ds" "k = length ds \<or> k = n" "min n (length xs) \<le> k"
    "ties (nps_TotalScore (ds ! 0)) xs \<le> k" "0 < ties (nps_TotalScore (ds ! 0)) xs"
    "\<And>rnd. selectHost rnd xs n =
       (let r = reservoir rnd (ties (nps_TotalScore (ds ! 0)) xs)
        in Returns (Inr (nps_Name (ds ! r), take n (swap_at 0 r (take k ds)))))"
proof -
  let ?h = "heap_Init nodeScoreHeap_Less xs" let ?ds = "sdrain ?h"
  have inv: "sheap ?h" and ms: "mset ?h = mset xs" by (rule nsh.init_inv, rule nsh.init_elems)
  have len_h: "length ?h = length xs" using ms by (metis size_mset)
  have mds: "mset ?ds = mset xs" using nsh.drain_elems [OF inv] ms len_h by simp
  have srt: "sorted_wrt (\<lambda>x y. \<not> nodeScoreHeap_Less y x) ?ds" using nsh.drain_sorted [OF inv] by simp
  have "?h \<noteq> []" using ms assms(1) by (metis list.size(3) mset_zero_iff not_numeral_le_zero)
  then obtain x h1 where p1: "heap_Pop nodeScoreHeap_Less ?h = Returns (x, h1)" "sheap h1" "?ds = x # sdrain h1"
    using sdrain_Cons [OF inv] by blast
  have "length ?ds = length xs" using mds mset_eq_length by blast
  then have "sdrain h1 \<noteq> []" using p1(3) assms(1) by auto
  then have "h1 \<noteq> []" by auto
  then obtain ns h2 where p2: "heap_Pop nodeScoreHeap_Less h1 = Returns (ns, h2)" "sheap h2" "sdrain h1 = ns # sdrain h2"
    using sdrain_Cons [OF p1(2)] by blast
  have ds: "?ds = x # ns # sdrain h2" using p1(3) p2(3) by simp
  let ?t = "ties (nps_TotalScore x) xs"
  have t: "?t = 1 + ties (nps_TotalScore x) (ns # sdrain h2)"
  proof -
    have "?t = ties (nps_TotalScore x) ?ds" unfolding ties_def using mds by (metis mset_filter size_mset)
    then show ?thesis unfolding ds by (simp add: ties_def)
  qed
  have srt': "sorted_wrt (\<lambda>x y. \<not> nodeScoreHeap_Less y x) ([x] ! 0 # ns # sdrain h2)" using srt unfolding ds by simp
  have loop: "select_loop rnd n ns h2 1 0 [x] = Returns (scan n [x] (ns # sdrain h2), reservoir rnd ?t)" for rnd
    using select_loop_scan [OF p2(2) _ _ _ srt', of 1 0 rnd n] unfolding t by simp
  obtain k where k: "k \<le> length (ns # sdrain h2)" "scan n [x] (ns # sdrain h2) = [x] @ take k (ns # sdrain h2)"
    "ties (nps_TotalScore x) (ns # sdrain h2) \<le> k" "k < length (ns # sdrain h2) \<longrightarrow> 1 + k = n"
    using scan_prefix [OF _ srt', of n] by auto
  have scn: "scan n [x] (ns # sdrain h2) = take (Suc k) ?ds" unfolding k(2) ds by simp
  have len: "length xs = length (ns # sdrain h2) + 1" using \<open>length ?ds = length xs\<close> unfolding ds by simp
  have "selectHost rnd xs n =
      (let r = reservoir rnd ?t
       in Returns (Inr (nps_Name (?ds ! r), take n (swap_at 0 r (take (Suc k) ?ds)))))" for rnd
  proof -
    let ?r = "reservoir rnd ?t" let ?l = "take (Suc k) ?ds"
    have r: "?r < length ?l" using reservoir_less [of ?t rnd] t k(1,3) len \<open>length ?ds = length xs\<close> by simp
    have "xs \<noteq> []" using assms(1) by auto
    have sw: "(if j \<noteq> 0 then l[0 := l ! j, j := l ! 0] else l) = swap_at 0 j l" for j and l :: "NodePluginScores list"
      by (simp add: swap_at_def)
    have tk: "(if n < length l then take n l else l) = take n l" for l :: "NodePluginScores list" by simp
    obtain ss where cs: "take n (swap_at 0 ?r ?l) = ?ds ! ?r # ss"
    proof -
      have ne: "take n (swap_at 0 ?r ?l) \<noteq> []"
        using r assms(2) by (metis One_nat_def Suc_le_lessD gr_implies_not0 list.size(3) swap_at_simps(1) take_eq_Nil)
      have "take n (swap_at 0 ?r ?l) ! 0 = ?ds ! ?r"
      proof -
        have "0 < length ?l" using r by linarith
        then have "swap_at 0 ?r ?l ! 0 = ?l ! ?r" using r swap_at_simps(4) [of 0 ?l ?r] by blast
        then show ?thesis using r assms(2) by simp
      qed
      then show ?thesis using ne that by (metis hd_Cons_tl hd_conv_nth)
    qed
    show ?thesis
      unfolding selectHost_def p1(1) Let_def using \<open>xs \<noteq> []\<close>
      by (simp only: bind_outcome.simps p1(1) p2(1) prod.case loop scn sw tk if_False cs list.case)
  qed
  then show ?thesis
    using that [of ?ds "Suc k"] mds srt k t len \<open>length ?ds = length xs\<close> ds by auto
qed

end
