(* ===== verification/FilterNodes.thy ===== *)
theory FilterNodes
  imports HostSelection Binding
begin

text \<open>
  \<open>schedulePod\<close> and what it calls in \<open>kubernetes/pkg/scheduler/schedule_one.go\<close>: the filter
  plugins run by parallel goroutines, the nominated node, the choice of the nodes to look at.
  The interleaving of the goroutines is a list of moves, each one atomic action of one of them.
  The plugins, the snapshot and the framework's parallelizer are not under src/.
\<close>

section \<open>Statuses and parameters\<close>

text \<open>A framework status as the code reads it: success, a rejection by a plugin, an error.\<close>

datatype filter_status = Passed | Refused string failure_code "string list" | Errored goerror

record diagnosis =
  NodeToStatusMap :: node_statuses
  UnschedulablePlugins :: "string list option"    \<comment> \<open>a set; \<open>None\<close> is the nil set\<close>
  PreFilterMsg :: string

record filtering =
  HasFilterPlugins :: bool
  PercentageOfNodesToScore :: "int32 option"
  RunPreFilterPlugins :: "pod \<Rightarrow> string list option \<times> filter_status \<times> string list option"
    \<comment> \<open>the node names (\<open>None\<close> for all nodes), the status, the plugins that refused\<close>
  RunFilterPluginsWithNominatedPods :: "pod \<Rightarrow> string \<Rightarrow> filter_status"
  AddPluginStatus :: "filter_status \<Rightarrow> string list option \<Rightarrow> string list option"
  status_Message :: "filter_status \<Rightarrow> string"
  nominated_of :: "pod \<Rightarrow> string"                 \<comment> \<open>\<open>pod.Status.NominatedNodeName\<close>\<close>
  extenderName :: string                          \<comment> \<open>\<open>framework.ExtenderName\<close>\<close>

text \<open>The snapshot of the cluster, and the fields of the scheduler that are read here.\<close>

record selector =
  UpdateSnapshot :: "goerror option"
  snapshot_nodes :: "string list"
  snapshot_List :: "goerror option"
  snapshot_Get :: "string \<Rightarrow> goerror option"
  percentageOfNodesToScore :: int32
  sel_Extenders :: "extender list"

section \<open>Checking nodes in parallel\<close>

text \<open>Where the goroutine for an index is: not started, running the plugins, with the counter
  increased to a value, told that there are enough nodes, done.\<close>

datatype phase = Idle | Running | Added int32 | TooMany | Finished

record check =
  feasibleNodesLen :: int32
  feasible :: "string option list"
  chk_result :: "(string \<times> filter_status) option list"
  chk_cancelled :: bool
  chk_err :: "goerror option"
  phases :: "phase list"

text \<open>A move: the goroutine of an index takes its next action, or the caller's context ends.\<close>

datatype move = Check nat | CtxDone

definition node_at :: "nat \<Rightarrow> string list \<Rightarrow> nat \<Rightarrow> string" where
  "node_at start nodes i = nodes ! ((start + i) mod length nodes)"

fun check_step ::
  "int32 \<Rightarrow> (nat \<Rightarrow> string) \<Rightarrow> (string \<Rightarrow> filter_status) \<Rightarrow> move \<Rightarrow> check \<Rightarrow> check" where
  "check_step n node run CtxDone st = st\<lparr>chk_cancelled := True\<rparr>"
| "check_step n node run (Check i) st =
     (if length (phases st) \<le> i then st
      else case phases st ! i of
        Idle \<Rightarrow> if chk_cancelled st then st else st\<lparr>phases := (phases st)[i := Running]\<rparr>
      | Running \<Rightarrow>
          (case run (node i) of
             Errored e \<Rightarrow> st\<lparr>chk_err := (case chk_err st of None \<Rightarrow> Some e | Some e' \<Rightarrow> Some e'),
                            chk_cancelled := True, phases := (phases st)[i := Finished]\<rparr>
           | Passed \<Rightarrow> st\<lparr>feasibleNodesLen := feasibleNodesLen st + 1,
                         phases := (phases st)[i := Added (feasibleNodesLen st + 1)]\<rparr>
           | Refused pl c rs \<Rightarrow> st\<lparr>chk_result := (chk_result st)[i := Some (node i, Refused pl c rs)],
                         phases := (phases st)[i := Finished]\<rparr>)
      | Added l \<Rightarrow>
          if n <s l then st\<lparr>chk_cancelled := True, phases := (phases st)[i := TooMany]\<rparr>
          else st\<lparr>feasible := (feasible st)[nat (sint l - 1) := Some (node i)],
                  phases := (phases st)[i := Finished]\<rparr>
      | TooMany \<Rightarrow> st\<lparr>feasibleNodesLen := feasibleNodesLen st - 1, phases := (phases st)[i := Finished]\<rparr>
      | Finished \<Rightarrow> st)"

definition check_start :: "int32 \<Rightarrow> nat \<Rightarrow> check" where
  "check_start n numAllNodes =
     \<lparr>feasibleNodesLen = 0, feasible = replicate (nat (sint n)) None, chk_result = replicate numAllNodes None,
      chk_cancelled = False, chk_err = None, phases = replicate numAllNodes Idle\<rparr>"

text \<open>\<open>Until\<close> returns when every goroutine that was started is done: after the given moves each
  one runs to its end. A list of moves that is already complete is not changed by this.\<close>

definition finishing :: "nat \<Rightarrow> move list" where
  "finishing numAllNodes = concat (map (\<lambda>i. replicate 4 (Check i)) [0..<numAllNodes])"

definition run_checks ::
  "int32 \<Rightarrow> (nat \<Rightarrow> string) \<Rightarrow> (string \<Rightarrow> filter_status) \<Rightarrow> nat \<Rightarrow> move list \<Rightarrow> check" where
  "run_checks n node run numAllNodes moves =
     fold (check_step n node run) (moves @ finishing numAllNodes) (check_start n numAllNodes)"

definition numNodesToFind :: "filtering \<Rightarrow> bool \<Rightarrow> selector \<Rightarrow> nat \<Rightarrow> int32" where
  "numNodesToFind F hasScorePlugins sched numAllNodes =
     (if \<not> hasExtenderFilters (sel_Extenders sched) \<and> \<not> hasScoring hasScorePlugins (sel_Extenders sched) then 1
      else numFeasibleNodesToFind (percentageOfNodesToScore sched) (PercentageOfNodesToScore F)
             (word_of_nat numAllNodes))"

definition put_status :: "string \<times> filter_status \<Rightarrow> node_statuses \<Rightarrow> node_statuses" where
  "put_status item statuses =
     (case snd item of Refused pl c rs \<Rightarrow> AList.update (fst item) (c, rs) statuses | _ \<Rightarrow> statuses)"

definition add_results ::
  "filtering \<Rightarrow> (string \<times> filter_status) option list \<Rightarrow> diagnosis \<Rightarrow> diagnosis" where
  "add_results F rs d =
     fold (\<lambda>item d. d\<lparr>NodeToStatusMap := put_status item (NodeToStatusMap d),
                      UnschedulablePlugins := AddPluginStatus F (snd item) (UnschedulablePlugins d)\<rparr>)
       (List.map_filter id rs) d"

text \<open>The result: the feasible nodes, the error (the nodes are given back with it) and the
  diagnosis. A nil entry among the nodes would panic where it is first read.\<close>

definition findNodesThatPassFilters ::
  "filtering \<Rightarrow> bool \<Rightarrow> selector \<Rightarrow> nat \<Rightarrow> move list \<Rightarrow> pod \<Rightarrow> diagnosis \<Rightarrow> string list \<Rightarrow>
   (string list \<times> goerror option \<times> diagnosis) outcome" where
  "findNodesThatPassFilters F hasScorePlugins sched nextStart moves p d nodes =
     (let numAllNodes = length nodes;
          n = numNodesToFind F hasScorePlugins sched numAllNodes
      in if \<not> HasFilterPlugins F
         then (if nodes = [] \<and> 0 <s n then Panics ''integer divide by zero''
               else Returns (map (node_at nextStart nodes) [0..<nat (sint n)], None, d))
         else
      (let st = run_checks n (node_at nextStart nodes) (RunFilterPluginsWithNominatedPods F p)
                  numAllNodes moves;
           found = take (nat (sint (feasibleNodesLen st))) (feasible st)
       in if sint (feasibleNodesLen st) < 0 \<or> length (feasible st) < nat (sint (feasibleNodesLen st))
          then Panics ''slice bounds out of range''
          else if None \<in> set found then Panics ''nil pointer dereference''
          else Returns (map the found, chk_err st, add_results F (chk_result st) d)))"

section \<open>The nodes that fit\<close>

text \<open>The diagnosis is passed by value: its maps are shared with the caller, a set that was nil
  and is made here is not.\<close>

definition evaluateNominatedNode ::
  "filtering \<Rightarrow> bool \<Rightarrow> selector \<Rightarrow> nat \<Rightarrow> move list \<Rightarrow> pod \<Rightarrow> diagnosis \<Rightarrow>
   ((goerror + string list) \<times> diagnosis) outcome" where
  "evaluateNominatedNode F hsp sched nextStart moves p d =
     (let nnn = nominated_of F p;
          back = (\<lambda>statuses plugins. d\<lparr>NodeToStatusMap := statuses,
                    UnschedulablePlugins := (case UnschedulablePlugins d of None \<Rightarrow> None | Some _ \<Rightarrow> plugins)\<rparr>)
      in case snapshot_Get sched nnn of
           Some e \<Rightarrow> Returns (Inl e, d)
         | None \<Rightarrow>
      bind_outcome (findNodesThatPassFilters F hsp sched nextStart moves p d [nnn]) (\<lambda>(nodes, err, d').
        case err of
          Some e \<Rightarrow> Returns (Inl e, back (NodeToStatusMap d') (UnschedulablePlugins d'))
        | None \<Rightarrow>
            (let (r, statuses) = findNodesThatPassExtenders (sel_Extenders sched) p nodes (NodeToStatusMap d')
             in Returns (r, back statuses (UnschedulablePlugins d')))))"

definition nodes_of_prefilter :: "selector \<Rightarrow> string list option \<Rightarrow> string list" where
  "nodes_of_prefilter sched preRes =
     (case preRes of
        None \<Rightarrow> snapshot_nodes sched
      | Some names \<Rightarrow> filter (\<lambda>n. snapshot_Get sched n = None) names)"

text \<open>The search through all nodes the prefilter plugins leave, and the extenders after it.\<close>

definition find_among ::
  "filtering \<Rightarrow> bool \<Rightarrow> selector \<Rightarrow> nat \<Rightarrow> move list \<Rightarrow> pod \<Rightarrow> diagnosis \<Rightarrow> string list \<Rightarrow>
   ((goerror + string list) \<times> diagnosis \<times> nat) outcome" where
  "find_among F hsp sched nextStart moves p d nodes =
     bind_outcome (findNodesThatPassFilters F hsp sched nextStart moves p d nodes)
       (\<lambda>(feasibleNodes, err, d).
          if snapshot_nodes sched = [] then Panics ''integer divide by zero''
          else let processedNodes = length feasibleNodes + length (NodeToStatusMap d);
                   nextStart = (nextStart + processedNodes) mod length (snapshot_nodes sched)
               in case err of
                    Some e \<Rightarrow> Returns (Inl e, d, nextStart)
                  | None \<Rightarrow>
                      (case findNodesThatPassExtenders (sel_Extenders sched) p feasibleNodes (NodeToStatusMap d) of
                         (Inl e, statuses) \<Rightarrow> Returns (Inl e, d\<lparr>NodeToStatusMap := statuses\<rparr>, nextStart)
                       | (Inr after, statuses) \<Rightarrow>
                           (let d = d\<lparr>NodeToStatusMap := statuses\<rparr>;
                                d = (if length after \<noteq> length feasibleNodes
                                     then d\<lparr>UnschedulablePlugins := Some (List.insert (extenderName F)
                                            (case UnschedulablePlugins d of None \<Rightarrow> [] | Some ps \<Rightarrow> ps))\<rparr>
                                     else d)
                            in Returns (Inr after, d, nextStart))))"

definition findNodesThatFitPod ::
  "filtering \<Rightarrow> bool \<Rightarrow> selector \<Rightarrow> nat \<Rightarrow> move list \<Rightarrow> move list \<Rightarrow> pod \<Rightarrow>
   ((goerror + string list) \<times> diagnosis \<times> nat) outcome" where
  "findNodesThatFitPod F hsp sched nextStart moves1 moves2 p =
     (let d = \<lparr>NodeToStatusMap = [], UnschedulablePlugins = None, PreFilterMsg = []\<rparr>;
          allNodes = snapshot_nodes sched
      in case snapshot_List sched of
           Some e \<Rightarrow> Returns (Inl e, d, nextStart)
         | None \<Rightarrow>
     (let (preRes, s, unscheduledPlugins) = RunPreFilterPlugins F p;
          d = d\<lparr>UnschedulablePlugins := unscheduledPlugins\<rparr>
      in case s of
           Errored e \<Rightarrow> Returns (Inl e, d, nextStart)
         | Refused pl c rs \<Rightarrow>
             Returns (Inr [],
               d\<lparr>NodeToStatusMap := fold (\<lambda>n. AList.update n (c, rs)) allNodes [],
                 PreFilterMsg := status_Message F s,
                 UnschedulablePlugins := AddPluginStatus F s unscheduledPlugins\<rparr>, nextStart)
         | Passed \<Rightarrow>
     bind_outcome
       (if nominated_of F p = [] then Returns (Inr [], d)
        else evaluateNominatedNode F hsp sched nextStart moves1 p d) (\<lambda>(r, d).
     (case r of
        Inr (n # ns) \<Rightarrow> Returns (Inr (n # ns), d, nextStart)
      | _ \<Rightarrow> find_among F hsp sched nextStart moves2 p d (nodes_of_prefilter sched preRes)))))"

section \<open>One pod\<close>

text \<open>The host among at least two nodes that fit.\<close>

definition choose_host ::
  "scoring \<Rightarrow> selector \<Rightarrow> extender list \<Rightarrow> (nat \<Rightarrow> nat) \<Rightarrow> pod \<Rightarrow> string list \<Rightarrow> (goerror + string) outcome" where
  "choose_host C sched lock_order rnd p feasibleNodes =
     bind_outcome (prioritizeNodes (sel_Extenders sched) C lock_order p feasibleNodes) (\<lambda>r.
     (case r of
        Inl e \<Rightarrow> Returns (Inl e)
      | Inr priorityList \<Rightarrow>
     bind_outcome (selectHost rnd priorityList numberOfHighestScoredNodesToReport) (\<lambda>r.
     (case r of
        Inl e \<Rightarrow> Returns (Inl e)
      | Inr (host, _) \<Rightarrow> Returns (Inr host)))))"

text \<open>The host, the number of nodes evaluated and the number of feasible nodes; and the state of
  the scheduler, whose only change is the index where the next search starts.\<close>

definition schedulePod ::
  "filtering \<Rightarrow> scoring \<Rightarrow> selector \<Rightarrow> nat \<Rightarrow> move list \<Rightarrow> move list \<Rightarrow> extender list \<Rightarrow> (nat \<Rightarrow> nat) \<Rightarrow>
   pod \<Rightarrow> ((schedule_failure + string \<times> nat \<times> nat) \<times> nat) outcome" where
  "schedulePod F C sched nextStart moves1 moves2 lock_order rnd p =
     (case UpdateSnapshot sched of
        Some e \<Rightarrow> Returns (Inl (OtherFailure e), nextStart)
      | None \<Rightarrow>
     (if snapshot_nodes sched = [] then Returns (Inl NoNodesAvailable, nextStart)
      else
     bind_outcome (findNodesThatFitPod F (HasScorePlugins C) sched nextStart moves1 moves2 p)
       (\<lambda>(r, d, nextStart).
     (case r of
        Inl e \<Rightarrow> Returns (Inl (OtherFailure e), nextStart)
      | Inr feasibleNodes \<Rightarrow>
          if feasibleNodes = [] then Returns (Inl FitFailure, nextStart)
          else if length feasibleNodes = 1
          then Returns (Inr (feasibleNodes ! 0, 1 + length (NodeToStatusMap d), 1), nextStart)
          else
     bind_outcome (choose_host C sched lock_order rnd p feasibleNodes) (\<lambda>r.
     (case r of
        Inl e \<Rightarrow> Returns (Inl (OtherFailure e), nextStart)
      | Inr host \<Rightarrow>
          Returns (Inr (host, length feasibleNodes + length (NodeToStatusMap d), length feasibleNodes),
                   nextStart)))))))"

end
