(* ===== verification/FilterLaws.thy ===== *)
theory FilterLaws
  imports FilterNodes
begin

text \<open>
  The invariant of the goroutines that check nodes: the counter is the number of goroutines that
  hold a slot plus the number of those that came too late, slots are handed out in order and each
  one to a single goroutine. At the end the slots up to the counter are filled.
\<close>

section \<open>The invariant\<close>

text \<open>What the goroutines share and do not change. \<open>own\<close> lists the indices that got a slot, in
  the order of their slots; \<open>over\<close> those that have increased the counter beyond the number wanted
  and not yet decreased it.\<close>

record shared =
  sh_n :: int32
  sh_node :: "nat \<Rightarrow> string"
  sh_run :: "string \<Rightarrow> filter_status"
  sh_all :: nat

abbreviation sh_slots :: "shared \<Rightarrow> nat" where "sh_slots S \<equiv> nat (sint (sh_n S))"

definition slot_ok :: "shared \<Rightarrow> nat \<Rightarrow> nat \<Rightarrow> phase \<Rightarrow> string option \<Rightarrow> bool" where
  "slot_ok S j i ph slot \<longleftrightarrow>
     sh_run S (sh_node S i) = Passed \<and>
     (ph = Added (word_of_nat (Suc j)) \<and> slot = None \<or> ph = Finished \<and> slot = Some (sh_node S i))"

definition idx_ok ::
  "shared \<Rightarrow> nat list \<Rightarrow> nat list \<Rightarrow> goerror option \<Rightarrow> nat \<Rightarrow> phase \<Rightarrow> (string \<times> filter_status) option \<Rightarrow> bool" where
  "idx_ok S own over err i ph res \<longleftrightarrow>
     (i \<in> set over \<longrightarrow> sh_run S (sh_node S i) = Passed \<and> (ph = TooMany \<or> (\<exists>l. ph = Added l \<and> sh_n S <s l))) \<and>
     (i \<notin> set own \<longrightarrow> i \<notin> set over \<longrightarrow> ph = Idle \<or> ph = Running \<or> ph = Finished) \<and>
     (ph = Finished \<longrightarrow> (case sh_run S (sh_node S i) of
        Passed \<Rightarrow> i \<in> set own \<or> length own = sh_slots S
      | Errored e \<Rightarrow> err \<noteq> None
      | Refused pl c rs \<Rightarrow> True)) \<and>
     res = (if ph = Finished
            then (case sh_run S (sh_node S i) of Refused pl c rs \<Rightarrow> Some (sh_node S i, Refused pl c rs) | _ \<Rightarrow> None)
            else None)"

text \<open>\<open>quiet\<close>: the caller's context has not ended.\<close>

definition chk_inv :: "shared \<Rightarrow> bool \<Rightarrow> nat list \<Rightarrow> nat list \<Rightarrow> check \<Rightarrow> bool" where
  "chk_inv S quiet own over st \<longleftrightarrow>
     length (phases st) = sh_all S \<and> length (feasible st) = sh_slots S \<and>
     length (chk_result st) = sh_all S \<and>
     distinct (own @ over) \<and> set (own @ over) \<subseteq> {..<sh_all S} \<and>
     length own \<le> sh_slots S \<and> (over \<noteq> [] \<longrightarrow> length own = sh_slots S) \<and>
     sint (feasibleNodesLen st) = int (length own + length over) \<and>
     (\<forall>j < length own. slot_ok S j (own ! j) (phases st ! (own ! j)) (feasible st ! j)) \<and>
     (\<forall>j < sh_slots S. length own \<le> j \<longrightarrow> feasible st ! j = None) \<and>
     (\<forall>i < sh_all S. idx_ok S own over (chk_err st) i (phases st ! i) (chk_result st ! i)) \<and>
     (chk_cancelled st \<longrightarrow> quiet \<longrightarrow> chk_err st \<noteq> None \<or> length own = sh_slots S) \<and>
     (\<forall>e. chk_err st = Some e \<longrightarrow> (\<exists>i < sh_all S. sh_run S (sh_node S i) = Errored e))"

lemma chk_inv_start: "chk_inv S quiet [] [] (check_start (sh_n S) (sh_all S))"
  by (simp add: chk_inv_def check_start_def idx_ok_def)

lemma chk_inv_CtxDone: "chk_inv S quiet own over st \<Longrightarrow> chk_inv S False own over (st\<lparr>chk_cancelled := True\<rparr>)"
  by (simp add: chk_inv_def)

lemma idx_ok_err: "idx_ok S own over err i ph res \<Longrightarrow> idx_ok S own over (Some e) i ph res"
  by (auto simp: idx_ok_def split: filter_status.splits)

lemma idx_ok_own:
  "idx_ok S own over err i ph res \<Longrightarrow> i \<noteq> x \<Longrightarrow> length own < sh_slots S \<Longrightarrow> idx_ok S (own @ [x]) over err i ph res"
  by (auto simp: idx_ok_def split: filter_status.splits)

lemma idx_ok_over: "idx_ok S own over err i ph res \<Longrightarrow> i \<noteq> x \<Longrightarrow> idx_ok S own (over @ [x]) err i ph res"
  by (simp add: idx_ok_def)

lemma idx_ok_unover: "idx_ok S own over err i ph res \<Longrightarrow> i \<noteq> x \<Longrightarrow> idx_ok S own (remove1 x over) err i ph res"
  by (auto simp: idx_ok_def dest: notin_set_remove1)

lemma sint_word_of_nat32: "k < 2 ^ 31 \<Longrightarrow> sint (word_of_nat k :: int32) = int k"
  using wrap32_id [of "int k"] by (simp add: wrap32_def int4_range_def)

lemma word_of_nat_sint32: "sint (w :: int32) = int k \<Longrightarrow> w = word_of_nat k"
proof -
  assume w: "sint w = int k"
  then have "sint w = sint (word_of_nat k :: int32)" using sint_lt [of w] by (simp add: sint_word_of_nat32)
  then show ?thesis by (metis signed_word_eqI)
qed

section \<open>Each action keeps it\<close>

text \<open>What the invariant says of one index, and the frame for a change at that index.\<close>

lemma chk_inv_at:
  assumes "chk_inv S quiet own over st" and "i < sh_all S"
  shows "idx_ok S own over (chk_err st) i (phases st ! i) (chk_result st ! i)"
    and "own ! j = i \<Longrightarrow> j < length own \<Longrightarrow> slot_ok S j i (phases st ! i) (feasible st ! j)"
  using assms by (auto simp: chk_inv_def)

lemma own_slot:
  assumes "chk_inv S quiet own over st" and "i \<in> set own"
  obtains j where "j < length own" "own ! j = i" "slot_ok S j i (phases st ! i) (feasible st ! j)"
    "\<forall>k < length own. own ! k = i \<longrightarrow> k = j"
proof -
  obtain j where j: "j < length own" "own ! j = i" using assms(2) by (metis in_set_conv_nth)
  have "distinct own" using assms(1) by (simp add: chk_inv_def)
  then have "\<forall>k < length own. own ! k = i \<longrightarrow> k = j" using j by (metis nth_eq_iff_index_eq)
  moreover have "slot_ok S j i (phases st ! i) (feasible st ! j)" using assms(1) j by (auto simp: chk_inv_def)
  ultimately show ?thesis using j that by blast
qed

lemma not_slot_phase:
  assumes "chk_inv S quiet own over st" and "phases st ! i = Idle \<or> phases st ! i = Running \<or> phases st ! i = TooMany"
  shows "i \<notin> set own"
  using own_slot [OF assms(1)] assms(2) unfolding slot_ok_def by (metis phase.distinct)

lemma not_over_phase:
  assumes "chk_inv S quiet own over st" and "phases st ! i = Idle \<or> phases st ! i = Running \<or> phases st ! i = Finished"
  shows "i \<notin> set over"
proof
  assume "i \<in> set over"
  moreover have "set over \<subseteq> {..<sh_all S}" using assms(1) by (simp add: chk_inv_def)
  ultimately have "phases st ! i = TooMany \<or> (\<exists>l. phases st ! i = Added l)"
    using chk_inv_at(1) [OF assms(1)] by (auto simp: idx_ok_def)
  then show False using assms(2) by auto
qed

lemma nth_update: "i < length xs \<Longrightarrow> xs[i := x] ! j = (if j = i then x else xs ! j)"
  by (cases "j = i") simp_all

lemma inv_running:
  assumes "chk_inv S quiet own over st" and "i < sh_all S" and "phases st ! i = Idle"
  shows "chk_inv S quiet own over (st\<lparr>phases := (phases st)[i := Running]\<rparr>)"
proof -
  have no: "i \<notin> set own" "i \<notin> set over" using not_slot_phase [OF assms(1)] not_over_phase [OF assms(1)] assms(3) by auto
  have "\<forall>j < length own. own ! j \<noteq> i" using no(1) by auto
  moreover have "idx_ok S own over (chk_err st) i Running (chk_result st ! i)"
    using chk_inv_at(1) [OF assms(1,2)] no assms(3) by (simp add: idx_ok_def)
  ultimately show ?thesis using assms(1,2) unfolding chk_inv_def by (simp add: nth_update)
qed

lemma inv_errored:
  assumes "chk_inv S quiet own over st" and "i < sh_all S" and "phases st ! i = Running"
    and "sh_run S (sh_node S i) = Errored e"
  shows "chk_inv S quiet own over (st\<lparr>chk_err := (case chk_err st of None \<Rightarrow> Some e | Some e' \<Rightarrow> Some e'),
           chk_cancelled := True, phases := (phases st)[i := Finished]\<rparr>)"
proof -
  have no: "i \<notin> set own" "i \<notin> set over" using not_slot_phase [OF assms(1)] not_over_phase [OF assms(1)] assms(3) by auto
  let ?err = "case chk_err st of None \<Rightarrow> Some e | Some e' \<Rightarrow> Some e'"
  have err: "\<exists>e. ?err = Some e" by (cases "chk_err st") auto
  have "\<forall>j < length own. own ! j \<noteq> i" using no(1) by auto
  moreover have "idx_ok S own over ?err i Finished (chk_result st ! i)"
    using chk_inv_at(1) [OF assms(1,2)] no assms(3,4) err by (auto simp: idx_ok_def)
  moreover have "idx_ok S own over ?err k ph res" if "idx_ok S own over (chk_err st) k ph res" for k ph res
    using that idx_ok_err by (cases "chk_err st") auto
  moreover have "\<forall>e. ?err = Some e \<longrightarrow> (\<exists>i < sh_all S. sh_run S (sh_node S i) = Errored e)"
    using assms(1,2,4) unfolding chk_inv_def by (cases "chk_err st") auto
  ultimately show ?thesis using assms(1,2) err unfolding chk_inv_def by (simp add: nth_update)
qed

lemma inv_rejected:
  assumes "chk_inv S quiet own over st" and "i < sh_all S" and "phases st ! i = Running"
    and "sh_run S (sh_node S i) = Refused pl c rs"
  shows "chk_inv S quiet own over (st\<lparr>chk_result := (chk_result st)[i := Some (sh_node S i, Refused pl c rs)],
           phases := (phases st)[i := Finished]\<rparr>)"
proof -
  have no: "i \<notin> set own" "i \<notin> set over" using not_slot_phase [OF assms(1)] not_over_phase [OF assms(1)] assms(3) by auto
  have "\<forall>j < length own. own ! j \<noteq> i" using no(1) by auto
  moreover have "idx_ok S own over (chk_err st) i Finished (Some (sh_node S i, Refused pl c rs))"
    using no assms(4) by (simp add: idx_ok_def)
  ultimately show ?thesis using assms(1,2) unfolding chk_inv_def by (simp add: nth_update)
qed

text \<open>The two outcomes of the atomic addition.\<close>

lemma inv_added:
  assumes "chk_inv S quiet own over st" and "i < sh_all S" and "phases st ! i = Running"
    and "sh_run S (sh_node S i) = Passed" and "sh_all S < 2 ^ 31"
  defines "st' \<equiv> st\<lparr>feasibleNodesLen := feasibleNodesLen st + 1,
      phases := (phases st)[i := Added (feasibleNodesLen st + 1)]\<rparr>"
  shows "\<exists>own' over'. chk_inv S quiet own' over' st'"
proof -
  have no: "i \<notin> set own" "i \<notin> set over" using not_slot_phase [OF assms(1)] not_over_phase [OF assms(1)] assms(3) by auto
  have sub: "distinct (i # own @ over)" "set (i # own @ over) \<subseteq> {..<sh_all S}" and slots: "sh_slots S < 2 ^ 31"
    using assms(1,2) no sint_lt [of "sh_n S"] by (auto simp: chk_inv_def)
  then have "length (i # own @ over) \<le> sh_all S"
    by (metis card_lessThan card_mono distinct_card finite_lessThan)
  then have len: "length own + length over + 1 < 2 ^ 31" using assms(5) by simp
  have cnt: "sint (feasibleNodesLen st) = int (length own + length over)" using assms(1) by (simp add: chk_inv_def)
  have eq: "feasibleNodesLen st + 1 = word_of_nat (Suc (length own + length over))"
    using word_of_nat_sint32 [OF cnt] by (simp add: add.commute)
  then have cnt': "sint (feasibleNodesLen st + 1) = int (length own + length over + 1)"
    unfolding eq using sint_word_of_nat32 [of "Suc (length own + length over)"] len by (simp del: of_nat_Suc of_nat_add)
  have at: "idx_ok S own over (chk_err st) i Running (chk_result st ! i)"
    using chk_inv_at(1) [OF assms(1,2)] assms(3) by simp
  have ne: "\<forall>j < length own. own ! j \<noteq> i" using no(1) by auto
  show ?thesis
  proof (cases "length own < sh_slots S")
    case True
    then have over: "over = []" using assms(1) by (auto simp: chk_inv_def)
    have new: "idx_ok S (own @ [i]) [] (chk_err st) i (Added (feasibleNodesLen st + 1)) (chk_result st ! i)"
      using at by (simp add: idx_ok_def)
    have slot: "slot_ok S (length own) i (Added (feasibleNodesLen st + 1)) (feasible st ! length own)"
      using assms(1,4) True eq over by (simp add: slot_ok_def chk_inv_def)
    have "chk_inv S quiet (own @ [i]) [] st'"
      using assms(1,2) True new slot cnt' no ne idx_ok_own [of S own over "chk_err st"] unfolding over st'_def chk_inv_def
      by (simp add: nth_update nth_append less_Suc_eq)
    then show ?thesis by blast
  next
    case False
    then have full: "length own = sh_slots S" using assms(1) by (simp add: chk_inv_def)
    have "sh_n S <s feasibleNodesLen st + 1" unfolding word_sless_alt cnt' using full by linarith
    then have "idx_ok S own (over @ [i]) (chk_err st) i (Added (feasibleNodesLen st + 1)) (chk_result st ! i)"
      using at assms(4) by (simp add: idx_ok_def)
    then have "chk_inv S quiet own (over @ [i]) st'"
      using assms(1,2) full cnt' no ne idx_ok_over [of S own over "chk_err st"] unfolding st'_def chk_inv_def
      by (simp add: nth_update)
    then show ?thesis by blast
  qed
qed

lemma inv_too_many:
  assumes "chk_inv S quiet own over st" and "i < sh_all S" and "phases st ! i = Added l"
    and "sh_n S <s l" and "sh_all S < 2 ^ 31"
  shows "chk_inv S quiet own over (st\<lparr>chk_cancelled := True, phases := (phases st)[i := TooMany]\<rparr>)"
proof -
  have no: "i \<notin> set own"
  proof
    assume "i \<in> set own"
    then obtain j where j: "j < length own" "slot_ok S j i (phases st ! i) (feasible st ! j)"
      using own_slot [OF assms(1)] by blast
    then have l: "l = word_of_nat (Suc j)" using assms(3) by (auto simp: slot_ok_def)
    have "Suc j \<le> sh_slots S" using assms(1) j(1) by (simp add: chk_inv_def)
    moreover have "sh_slots S < 2 ^ 31" using sint_lt [of "sh_n S"] by simp
    ultimately have "sint l = int (Suc j)" unfolding l by (intro sint_word_of_nat32) simp
    then show False using assms(4) \<open>Suc j \<le> sh_slots S\<close> by (simp add: word_sless_alt)
  qed
  then have "i \<in> set over" using chk_inv_at(1) [OF assms(1,2)] assms(3) by (auto simp: idx_ok_def)
  then have over: "length own = sh_slots S" using assms(1) by (auto simp: chk_inv_def)
  have ne: "\<forall>j < length own. own ! j \<noteq> i" using no by auto
  have "idx_ok S own over (chk_err st) i TooMany (chk_result st ! i)"
    using chk_inv_at(1) [OF assms(1,2)] assms(3) \<open>i \<in> set over\<close> by (simp add: idx_ok_def)
  then show ?thesis using assms(1,2) over ne unfolding chk_inv_def by (simp add: nth_update)
qed

lemma inv_filled:
  assumes "chk_inv S quiet own over st" and "i < sh_all S" and "phases st ! i = Added l"
    and "\<not> sh_n S <s l" and "sh_all S < 2 ^ 31"
  shows "chk_inv S quiet own over (st\<lparr>feasible := (feasible st)[nat (sint l - 1) := Some (sh_node S i)],
           phases := (phases st)[i := Finished]\<rparr>)"
proof -
  have at: "idx_ok S own over (chk_err st) i (Added l) (chk_result st ! i)"
    using chk_inv_at(1) [OF assms(1,2)] assms(3) by simp
  then have "i \<notin> set over" "i \<in> set own" using assms(4) by (auto simp: idx_ok_def)
  then obtain j where j: "j < length own" "own ! j = i" "slot_ok S j i (phases st ! i) (feasible st ! j)"
    "\<forall>k < length own. own ! k = i \<longrightarrow> k = j" using own_slot [OF assms(1)] by metis
  have l: "l = word_of_nat (Suc j)" and passed: "sh_run S (sh_node S i) = Passed"
    using j(3) assms(3) by (auto simp: slot_ok_def)
  have jn: "Suc j \<le> sh_slots S" using assms(1) j(1) by (simp add: chk_inv_def)
  moreover have "sh_slots S < 2 ^ 31" using sint_lt [of "sh_n S"] by simp
  ultimately have "sint l = int (Suc j)" unfolding l by (intro sint_word_of_nat32) simp
  then have nj: "nat (sint l - 1) = j" by simp
  have new: "idx_ok S own over (chk_err st) i Finished (chk_result st ! i)"
    using at passed \<open>i \<in> set own\<close> \<open>i \<notin> set over\<close> by (simp add: idx_ok_def)
  have slot: "slot_ok S j i Finished (Some (sh_node S i))" using passed by (simp add: slot_ok_def)
  have len: "i < length (phases st)" "j < length (feasible st)"
    using assms(1,2) jn unfolding chk_inv_def by simp_all
  have slots: "slot_ok S k (own ! k) ((phases st)[i := Finished] ! (own ! k)) ((feasible st)[j := Some (sh_node S i)] ! k)"
    if "k < length own" for k
  proof (cases "k = j")
    case True
    then show ?thesis using slot len j(2) by simp
  next
    case False
    then have "own ! k \<noteq> i" using j(4) that by blast
    then show ?thesis using False assms(1) that unfolding chk_inv_def by simp
  qed
  have empty: "(feasible st)[j := Some (sh_node S i)] ! k = None" if "k < sh_slots S" "length own \<le> k" for k
    using that j(1) assms(1) unfolding chk_inv_def by simp
  have idx: "idx_ok S own over (chk_err st) k ((phases st)[i := Finished] ! k) (chk_result st ! k)" if "k < sh_all S" for k
    using chk_inv_at(1) [OF assms(1) that] new len(1) by (simp add: nth_update)
  show ?thesis using assms(1) slots empty idx unfolding chk_inv_def nj by simp
qed

lemma inv_undone:
  assumes "chk_inv S quiet own over st" and "i < sh_all S" and "phases st ! i = TooMany" and "sh_all S < 2 ^ 31"
  shows "chk_inv S quiet own (remove1 i over)
    (st\<lparr>feasibleNodesLen := feasibleNodesLen st - 1, phases := (phases st)[i := Finished]\<rparr>)"
proof -
  have no: "i \<notin> set own" using not_slot_phase [OF assms(1)] assms(3) by simp
  have at: "idx_ok S own over (chk_err st) i TooMany (chk_result st ! i)"
    using chk_inv_at(1) [OF assms(1,2)] assms(3) by simp
  then have i: "i \<in> set over" "sh_run S (sh_node S i) = Passed" using no by (auto simp: idx_ok_def)
  then have full: "length own = sh_slots S" and d: "distinct over" using assms(1) by (auto simp: chk_inv_def)
  have cnt: "sint (feasibleNodesLen st) = int (length own + length over)" using assms(1) by (simp add: chk_inv_def)
  moreover have "0 < length over" using i(1) by (cases over) auto
  ultimately have "int4_range (sint (feasibleNodesLen st) - sint (1 :: int32))"
    using sint_lt [of "feasibleNodesLen st"] by (simp add: int4_range_def)
  then have cnt': "sint (feasibleNodesLen st - 1) = int (length own) + int (length (remove1 i over))"
  proof -
    have "Suc (length (remove1 i over)) = length over"
      using i(1) \<open>0 < length over\<close> by (metis length_remove1 Suc_pred' One_nat_def)
    then show ?thesis
      using sint_sub32 [of "feasibleNodesLen st" 1] cnt \<open>int4_range _\<close> by simp
  qed
  have ne: "\<forall>j < length own. own ! j \<noteq> i" using no by auto
  have "idx_ok S own (remove1 i over) (chk_err st) i Finished (chk_result st ! i)"
    using at i full d by (auto simp: idx_ok_def)
  then show ?thesis
    using assms(1,2) cnt' ne full d idx_ok_unover [of S own over "chk_err st"] unfolding chk_inv_def
    by (auto simp: nth_update)
qed

lemma inv_step:
  assumes "chk_inv S quiet own over st" and "sh_all S < 2 ^ 31"
  shows "\<exists>own' over'. chk_inv S (quiet \<and> m \<noteq> CtxDone) own' over' (check_step (sh_n S) (sh_node S) (sh_run S) m st)"
proof (cases m)
  case CtxDone
  then show ?thesis using chk_inv_CtxDone [OF assms(1)] by auto
next
  case (Check i)
  have len: "length (phases st) = sh_all S" using assms(1) by (simp add: chk_inv_def)
  show ?thesis
  proof (cases "i < sh_all S")
    case False
    then show ?thesis using assms(1) len Check by auto
  next
    case True
    show ?thesis
      using inv_running [OF assms(1) True] inv_errored [OF assms(1) True] inv_rejected [OF assms(1) True]
        inv_added [OF assms(1) True _ _ assms(2)] inv_too_many [OF assms(1) True _ _ assms(2)]
        inv_filled [OF assms(1) True _ _ assms(2)] inv_undone [OF assms(1) True _ assms(2)] assms(1) True len Check
      by (cases "phases st ! i"; cases "sh_run S (sh_node S i)") (auto split: option.splits)
  qed
qed

section \<open>At the end\<close>

definition settled :: "check \<Rightarrow> nat \<Rightarrow> bool" where
  "settled st i \<longleftrightarrow> phases st ! i = Finished \<or> phases st ! i = Idle \<and> chk_cancelled st"

lemma length_phases [simp]: "length (phases (check_step n node run m st)) = length (phases st)"
  by (cases "(n, node, run, m, st)" rule: check_step.cases) (auto split: phase.splits filter_status.splits)

lemma settled_step: "settled st i \<Longrightarrow> settled (check_step n node run m st) i"
proof (cases m)
  case (Check k)
  assume "settled st i"
  then show ?thesis
    unfolding Check settled_def
    by (cases "k = i") (auto split: phase.splits filter_status.splits option.splits)
qed (auto simp: settled_def)

lemma settled_fold: "settled st i \<Longrightarrow> settled (fold (check_step n node run) ms st) i"
  by (induction ms arbitrary: st) (simp_all add: settled_step)

lemma settled_four:
  assumes "i < length (phases st)"
  shows "settled (fold (check_step n node run) (replicate 4 (Check i)) st) i"
proof -
  let ?s = "check_step n node run (Check i)"
  have late: "settled (?s st) i" if "phases st ! i = TooMany" "i < length (phases st)" for st
    using that by (simp add: settled_def)
  have added: "settled (?s (?s st)) i" if "phases st ! i = Added l" "i < length (phases st)" for st l
    using that late [of "?s st"] settled_step [of "?s st" i] by (cases "n <s l") (auto simp: settled_def)
  have running: "settled (?s (?s (?s st))) i" if "phases st ! i = Running" "i < length (phases st)" for st
    using that added [of "?s st" "feasibleNodesLen st + 1"] settled_step [OF settled_step [of "?s st" i]]
    by (cases "run (node i)") (auto simp: settled_def)
  note more = settled_step [of _ i n node run "Check i"]
  have "settled (?s (?s (?s (?s st)))) i"
  proof (cases "phases st ! i")
    case Idle
    show ?thesis
    proof (cases "chk_cancelled st")
      case True
      then have "settled st i" using Idle by (simp add: settled_def)
      then show ?thesis by (intro more)
    next
      case False
      then have "phases (?s st) ! i = Running" using Idle assms by simp
      moreover have "i < length (phases (?s st))" using assms by (simp only: length_phases)
      ultimately show ?thesis by (rule running)
    qed
  next
    case Running
    then show ?thesis using more [OF running [OF _ assms]] by blast
  next
    case (Added l)
    then show ?thesis using more [OF more [OF added [OF _ assms]]] by blast
  next
    case TooMany
    then show ?thesis using more [OF more [OF more [OF late [OF _ assms]]]] by blast
  next
    case Finished
    then have "settled st i" by (simp add: settled_def)
    then show ?thesis by (intro more)
  qed
  then show ?thesis by (simp add: numeral_eq_Suc)
qed

lemma finishing_Suc: "finishing (Suc m) = finishing m @ replicate 4 (Check m)"
  by (simp add: finishing_def)

lemma settled_finishing: "i < m \<Longrightarrow> m \<le> length (phases st) \<Longrightarrow> settled (fold (check_step n node run) (finishing m) st) i"
proof (induction m arbitrary: st)
  case (Suc m)
  have len: "length (phases (fold (check_step n node run) ms st)) = length (phases st)" for ms st
    by (induction ms arbitrary: st) simp_all
  show ?case
  proof (cases "i = m")
    case True
    then show ?thesis
      using settled_four [of m "fold (check_step n node run) (finishing m) st"] Suc.prems len
      unfolding finishing_Suc fold_append comp_def by simp
  next
    case False
    then show ?thesis
      using settled_fold [OF Suc.IH [of st]] Suc.prems unfolding finishing_Suc fold_append comp_def
      by (metis Suc_leD less_antisym)
  qed
qed simp

lemma run_checks_inv:
  assumes "sh_all S < 2 ^ 31"
  obtains own over where
    "chk_inv S (CtxDone \<notin> set moves) own over (run_checks (sh_n S) (sh_node S) (sh_run S) (sh_all S) moves)"
proof -
  have fold: "\<exists>own over. chk_inv S (CtxDone \<notin> set ms) own over
      (fold (check_step (sh_n S) (sh_node S) (sh_run S)) ms (check_start (sh_n S) (sh_all S)))" for ms
  proof (induction ms rule: rev_induct)
    case Nil
    then show ?case using chk_inv_start by auto
  next
    case (snoc m ms)
    then obtain own over where "chk_inv S (CtxDone \<notin> set ms) own over
        (fold (check_step (sh_n S) (sh_node S) (sh_run S)) ms (check_start (sh_n S) (sh_all S)))" by blast
    from inv_step [OF this assms, of m] show ?case by (auto simp: conj_commute eq_commute)
  qed
  have "CtxDone \<notin> set (finishing (sh_all S))" by (auto simp: finishing_def)
  then show ?thesis using fold [of "moves @ finishing (sh_all S)"] that by (auto simp: run_checks_def)
qed

text \<open>What the search has found when it ends.\<close>

lemma run_checks_end:
  fixes S moves
  assumes "sh_all S < 2 ^ 31"
  defines "st \<equiv> run_checks (sh_n S) (sh_node S) (sh_run S) (sh_all S) moves"
  obtains own where "distinct own" "set own \<subseteq> {i. i < sh_all S \<and> sh_run S (sh_node S i) = Passed}"
    "length own \<le> sh_slots S" "sint (feasibleNodesLen st) = int (length own)"
    "length own \<le> length (feasible st)" "take (length own) (feasible st) = map (\<lambda>i. Some (sh_node S i)) own"
    "\<And>e. chk_err st = Some e \<Longrightarrow> \<exists>i < sh_all S. sh_run S (sh_node S i) = Errored e"
    "length (chk_result st) = sh_all S"
    "\<And>i x. i < sh_all S \<Longrightarrow> chk_result st ! i = Some x \<Longrightarrow> x = (sh_node S i, sh_run S (sh_node S i))"
    "\<And>i. CtxDone \<notin> set moves \<Longrightarrow> chk_err st = None \<Longrightarrow> length own < sh_slots S \<Longrightarrow> i < sh_all S \<Longrightarrow>
       i \<in> set own \<or> (\<exists>pl c rs. sh_run S (sh_node S i) = Refused pl c rs \<and> chk_result st ! i = Some (sh_node S i, Refused pl c rs))"
proof -
  obtain own over where inv: "chk_inv S (CtxDone \<notin> set moves) own over st"
    using run_checks_inv [OF assms(1)] unfolding st_def by blast
  have set: "settled st i" if "i < sh_all S" for i
    unfolding st_def run_checks_def fold_append comp_def using that
  proof (rule settled_finishing)
    have "length (phases (fold (check_step (sh_n S) (sh_node S) (sh_run S)) ms st)) = length (phases st)" for ms st
      by (induction ms arbitrary: st) simp_all
    then show "sh_all S \<le> length (phases (fold (check_step (sh_n S) (sh_node S) (sh_run S)) moves (check_start (sh_n S) (sh_all S))))"
      by (simp add: check_start_def)
  qed
  have over: "over = []"
  proof (cases over)
    case (Cons i rest)
    then have i: "i < sh_all S" "i \<in> set over" using inv by (auto simp: chk_inv_def)
    then have "phases st ! i = TooMany \<or> (\<exists>l. phases st ! i = Added l)"
      using chk_inv_at(1) [OF inv i(1)] by (auto simp: idx_ok_def)
    then show ?thesis using set [OF i(1)] by (auto simp: settled_def)
  qed simp
  have own: "i < sh_all S" "sh_run S (sh_node S i) = Passed" if "i \<in> set own" for i
  proof -
    show "i < sh_all S" using that inv by (auto simp: chk_inv_def)
    show "sh_run S (sh_node S i) = Passed" using own_slot [OF inv that] unfolding slot_ok_def by blast
  qed
  have fill: "feasible st ! j = Some (sh_node S (own ! j))" if "j < length own" for j
  proof -
    have "slot_ok S j (own ! j) (phases st ! (own ! j)) (feasible st ! j)" using inv that by (simp add: chk_inv_def)
    then show ?thesis using set [OF own(1) [OF nth_mem [OF that]]] by (auto simp: slot_ok_def settled_def)
  qed
  have le: "length own \<le> length (feasible st)" using inv by (simp add: chk_inv_def)
  show ?thesis
  proof (rule that [of own])
    show "set own \<subseteq> {i. i < sh_all S \<and> sh_run S (sh_node S i) = Passed}" using own by blast
    show "take (length own) (feasible st) = map (\<lambda>i. Some (sh_node S i)) own"
      using fill le by (intro nth_equalityI) simp_all
    show "x = (sh_node S i, sh_run S (sh_node S i))" if "i < sh_all S" "chk_result st ! i = Some x" for i x
      using chk_inv_at(1) [OF inv that(1)] that(2) by (auto simp: idx_ok_def split: filter_status.splits if_splits)
    show "i \<in> set own \<or> (\<exists>pl c rs. sh_run S (sh_node S i) = Refused pl c rs \<and> chk_result st ! i = Some (sh_node S i, Refused pl c rs))"
      if "CtxDone \<notin> set moves" "chk_err st = None" "length own < sh_slots S" "i < sh_all S" for i
    proof -
      have "\<not> chk_cancelled st" using inv that(1-3) by (auto simp: chk_inv_def)
      then have "phases st ! i = Finished" using set [OF that(4)] by (simp add: settled_def)
      then show ?thesis
        using chk_inv_at(1) [OF inv that(4)] that(2,3) by (auto simp: idx_ok_def split: filter_status.splits)
    qed
  qed (use inv le in \<open>simp_all add: over chk_inv_def\<close>)
qed

end
