(* ===== verification/HostProps.thy ===== *)
theory HostProps
  imports HostSelection Examples
begin

text \<open>
  What \<open>prioritizeNodes\<close> and \<open>selectHost\<close> guarantee: the scores do not depend on the order of the
  extenders' goroutines, the host has the highest score, and every host that has it is chosen for
  the same number of throws of the dice.
\<close>

section \<open>Scores\<close>

text \<open>The sum an extender contributes to a node, and the sum held in the map.\<close>

definition extender_total :: "int64 \<Rightarrow> pod \<Rightarrow> string list \<Rightarrow> string \<Rightarrow> extender \<Rightarrow> int64" where
  "extender_total scale p nodes node x =
     (case Prioritize x p nodes of
        Inl e \<Rightarrow> 0
      | Inr (hs, weight) \<Rightarrow> (\<Sum>(h, s) \<leftarrow> hs. if h = node then s * weight * scale else 0))"

definition held :: "extender_scores \<Rightarrow> string \<Rightarrow> int64" where
  "held acc node = (case map_of acc node of None \<Rightarrow> 0 | Some e \<Rightarrow> nps_TotalScore e)"

lemma held_add: "held (add_extender_score e w scale hs acc) node =
    held acc node + (case hs of (h, s) \<Rightarrow> if h = node then s * w * scale else 0)"
  by (auto simp: held_def add_extender_score_def Let_def update_conv' split: option.splits prod.splits)

lemma held_prioritize:
  "held (run_prioritize scale p nodes x acc) node = held acc node + extender_total scale p nodes node x"
proof -
  have "held (fold (add_extender_score e w scale) hs acc) node =
      held acc node + (\<Sum>(h, s) \<leftarrow> hs. if h = node then s * w * scale else 0)" for e w hs
    by (induction hs arbitrary: acc) (simp_all add: held_add add.assoc)
  then show ?thesis by (auto simp: run_prioritize_def extender_total_def split: sum.splits)
qed

lemma held_fold:
  "held (fold (run_prioritize scale p nodes) xs acc) node =
     held acc node + (\<Sum>x \<leftarrow> xs. extender_total scale p nodes node x)"
  by (induction xs arbitrary: acc) (simp_all add: held_prioritize add.assoc)

lemma sum_list_mset: "mset xs = mset ys \<Longrightarrow> (\<Sum>x \<leftarrow> xs. f x) = (\<Sum>x \<leftarrow> ys. f x)"
  for f :: "'a \<Rightarrow> 'b :: comm_monoid_add"
  by (metis mset_map sum_mset_sum_list)

lemma merge_scores_total:
  "length ss = length nodes \<Longrightarrow>
   \<exists>r. merge_scores acc nodes ss = Returns r \<and> map nps_Name r = map nps_Name ss \<and>
     map nps_TotalScore r = map2 (\<lambda>n s. nps_TotalScore s + held acc n) nodes ss"
proof (induction acc nodes ss rule: merge_scores.induct)
  case (3 acc node nodes s ss)
  then obtain r where "merge_scores acc nodes ss = Returns r" "map nps_Name r = map nps_Name ss"
    "map nps_TotalScore r = map2 (\<lambda>n s. nps_TotalScore s + held acc n) nodes ss" by auto
  then show ?case by (auto simp: Let_def held_def split: option.splits)
qed simp_all

text \<open>C18: The total score of every node is the score of the plugins plus what the interested
  extenders give it, each scaled by its weight, in 64-bit arithmetic; it does not depend on the
  order in which the extenders' goroutines take the lock. An extender that fails adds nothing.\<close>

theorem scores_do_not_depend_on_the_order:
  assumes "extenders \<noteq> []" and "nodes \<noteq> []"
    and "RunPreScorePlugins C p nodes = None" and "RunScorePlugins C p nodes = Inr ss"
    and "length ss = length nodes"
    and "mset lock_order = mset (filter (\<lambda>x. IsInterested x p) extenders)"
  shows "\<exists>r. prioritizeNodes extenders C lock_order p nodes = Returns (Inr r) \<and>
    map nps_Name r = map nps_Name ss \<and>
    map nps_TotalScore r =
      map2 (\<lambda>n s. nps_TotalScore s +
        (\<Sum>x \<leftarrow> filter (\<lambda>x. IsInterested x p) extenders. extender_total (score_scale C) p nodes n x)) nodes ss"
proof -
  let ?acc = "fold (run_prioritize (score_scale C) p nodes) lock_order []"
  have "held ?acc n = (\<Sum>x \<leftarrow> filter (\<lambda>x. IsInterested x p) extenders. extender_total (score_scale C) p nodes n x)" for n
    by (simp add: held_fold sum_list_mset [OF assms(6)]) (simp add: held_def)
  then show ?thesis
    using merge_scores_total [OF assms(5), of ?acc] assms(1-4) by (auto simp: prioritizeNodes_def)
qed

text \<open>One extender that scores a node twice and one it does not know.\<close>

definition ex_prio :: extender where
  "ex_prio = \<lparr>IsInterested = (\<lambda>p. True), IsIgnorable = False, IsFilter = False, IsPrioritizer = True,
     IsBinder = False, ext_Name = ''prio'', Filter = (\<lambda>p ns. Inl (GoErr ''none'')),
     Prioritize = (\<lambda>p ns. Inr ([(''n1'', 2), (''n9'', 1), (''n1'', 1)], 5)),
     ext_Bind = (\<lambda>p n. None)\<rparr>"

definition ex_scoring :: scoring where
  "ex_scoring = \<lparr>HasScorePlugins = True, RunPreScorePlugins = (\<lambda>p ns. None),
     RunScorePlugins = (\<lambda>p ns. Inr (map (\<lambda>n. \<lparr>nps_Name = n, nps_Scores = [], nps_TotalScore = 7\<rparr>) ns)),
     score_scale = 10\<rparr>"

theorem scores_do_not_depend_on_the_order_witness:
  "\<exists>r. prioritizeNodes [ex_prio, ex_prio] ex_scoring [ex_prio, ex_prio] (ex_pod ''p'') [''n0'', ''n1''] = Returns (Inr r) \<and>
     map nps_TotalScore r = [7, 307]"
proof -
  let ?r = "\<lambda>n. \<lparr>nps_Name = n, nps_Scores = [], nps_TotalScore = 7\<rparr>"
  have "\<exists>r. prioritizeNodes [ex_prio, ex_prio] ex_scoring [ex_prio, ex_prio] (ex_pod ''p'') [''n0'', ''n1''] = Returns (Inr r) \<and>
      map nps_Name r = map nps_Name [?r ''n0'', ?r ''n1''] \<and>
      map nps_TotalScore r = map2 (\<lambda>n s. nps_TotalScore s +
        (\<Sum>x \<leftarrow> filter (\<lambda>x. IsInterested x (ex_pod ''p'')) [ex_prio, ex_prio].
          extender_total (score_scale ex_scoring) (ex_pod ''p'') [''n0'', ''n1''] n x)) [''n0'', ''n1''] [?r ''n0'', ?r ''n1'']"
    by (rule scores_do_not_depend_on_the_order) (simp_all add: ex_scoring_def ex_prio_def)
  then show ?thesis by (auto simp: ex_prio_def ex_scoring_def extender_total_def)
qed

section \<open>The host\<close>

lemma reservoir_upd: "k < m \<Longrightarrow> reservoir (g(m := y)) k = reservoir g k"
  by (induction k) auto

text \<open>The throws: \<open>rnd k\<close> is one of \<open>0, \<dots>, k - 1\<close>, for every \<open>k\<close> up to the number of ties.\<close>

abbreviation throws :: "nat \<Rightarrow> (nat \<Rightarrow> nat) set" where
  "throws t \<equiv> PiE {2..t} (\<lambda>k. {..<k})"

lemma throws_Suc:
  assumes "0 < t"
  shows "throws (Suc t) = (\<lambda>(y, g). g(Suc t := y)) ` ({..<Suc t} \<times> throws t)"
proof -
  have "{2..Suc t} = insert (Suc t) {2..t}" using assms by auto
  then show ?thesis using PiE_insert_eq [of "Suc t" "{2..t}" "\<lambda>k. {..<k}"] by simp
qed

lemma inj_throws:
  assumes "G \<subseteq> throws t"
  shows "inj_on (\<lambda>(y, g). g(Suc t := y)) (Y \<times> G)"
proof (rule inj_onI, clarsimp)
  fix y g y' g'
  assume "g \<in> G" "g' \<in> G"
  then have "g \<in> throws t" "g' \<in> throws t" using assms by auto
  moreover assume eq: "g(Suc t := y) = g'(Suc t := y')"
  ultimately have "g (Suc t) = g' (Suc t)" by (simp add: PiE_def extensional_def)
  then show "y = y' \<and> g = g'" using eq by (metis fun_upd_same fun_upd_triv fun_upd_upd)
qed

lemma card_throws: "0 < t \<Longrightarrow> card (throws t) = fact t"
proof (induction t)
  case (Suc t)
  then show ?case
    by (cases "t = 0") (simp_all add: throws_Suc card_image inj_throws card_cartesian_product)
qed simp

lemma card_reservoir: "i < t \<Longrightarrow> card {g \<in> throws t. reservoir g t = i} = fact (t - 1)"
proof (induction t)
  case (Suc t)
  let ?F = "\<lambda>(y, g). g(Suc t := y)"
  show ?case
  proof (cases "t = 0")
    case True
    then show ?thesis using Suc by simp
  next
    case False
    have fin: "finite (throws t)" by (rule finite_PiE) auto
    have "{g \<in> throws (Suc t). reservoir g (Suc t) = i} =
        ?F ` {(y, g). (y, g) \<in> {..<Suc t} \<times> throws t \<and> (if y = 0 then t else reservoir g t) = i}"
      using False by (auto simp: throws_Suc reservoir_upd)
    also have "{(y, g). (y, g) \<in> {..<Suc t} \<times> throws t \<and> (if y = 0 then t else reservoir g t) = i} =
        (if i = t then {0} \<times> throws t else {1..t} \<times> {g \<in> throws t. reservoir g t = i})"
      using Suc.prems False reservoir_less [of t, THEN less_imp_neq] by auto
    also have "card (?F ` \<dots>) = (if i = t then fact t else t * fact (t - 1))"
      using Suc False card_throws [of t]
        card_image [OF inj_throws, of "throws t" t "{0}"]
        card_image [OF inj_throws, of "{g \<in> throws t. reservoir g t = i}" t "{1..t}"]
      by (auto simp: card_cartesian_product)
    finally show ?thesis using False by (simp add: fact_reduce)
  qed
qed simp

lemma ties_mset: "mset xs = mset ys \<Longrightarrow> ties t xs = ties t ys"
  unfolding ties_def by (metis mset_filter size_mset)

text \<open>The scores of the list before it is cut are the sorted scores.\<close>

lemma selectHost_list:
  assumes "2 \<le> length xs" and "1 \<le> n"
  obtains zs where "mset zs = mset xs" "sorted_wrt (\<lambda>x y. nps_TotalScore y \<le>s nps_TotalScore x) zs"
    "selectHost rnd xs n = Returns (Inr (nps_Name (zs ! 0), take n zs))"
proof -
  obtain ds k where ds: "mset ds = mset xs" "sorted_wrt (\<lambda>x y. \<not> nodeScoreHeap_Less y x) ds"
    "k \<le> length ds" "k = length ds \<or> k = n" "ties (nps_TotalScore (ds ! 0)) xs \<le> k"
    "0 < ties (nps_TotalScore (ds ! 0)) xs"
    "\<And>rnd. selectHost rnd xs n = (let r = reservoir rnd (ties (nps_TotalScore (ds ! 0)) xs)
        in Returns (Inr (nps_Name (ds ! r), take n (swap_at 0 r (take k ds)))))"
    using selectHost_sorted [OF assms] by metis
  define r where "r = reservoir rnd (ties (nps_TotalScore (ds ! 0)) xs)"
  define sw where "sw = swap_at 0 r (take k ds)"
  have r: "r < k" "r < ties (nps_TotalScore (ds ! 0)) ds" "r < length ds"
    using reservoir_less [OF ds(6), of rnd] ds(3,5) unfolding r_def ties_mset [OF ds(1)] by linarith+
  have "\<not> nodeScoreHeap_Less s (ds ! 0)" if "s \<in> set ds" for s
    using that ds(2) by (cases ds) (auto simp: nodeScoreHeap_Less_def word_sless_alt)
  then have same: "nps_TotalScore (ds ! r) = nps_TotalScore (ds ! 0)"
    using ties_front [OF ds(2) _ r(3), of "nps_TotalScore (ds ! 0)"] r(2) by (auto intro: score_less)
  have sw: "length sw = k" "mset sw = mset (take k ds)" "sw ! 0 = ds ! r"
    using r ds(3) swap_at_simps(4) [of 0 "take k ds" r] swap_at_simps(5) [of 0 "take k ds" r]
    by (simp_all add: sw_def)
  have at: "nps_TotalScore (sw ! i) = nps_TotalScore (ds ! i)" if "i < k" for i
    using that r(1,3) ds(3) same unfolding sw_def by (cases "i = 0"; cases "i = r") (simp_all add: swap_at_def nth_list_update)
  let ?zs = "sw @ drop k ds"
  have len: "length ?zs = length ds" using sw(1) ds(3) by simp
  have score: "nps_TotalScore (?zs ! i) = nps_TotalScore (ds ! i)" if "i < length ds" for i
    using that at sw(1) by (simp add: nth_append)
  have "sorted_wrt (\<lambda>x y. nps_TotalScore y \<le>s nps_TotalScore x) ?zs"
    using ds(2) unfolding sorted_wrt_iff_nth_less len
    by (auto simp: score nodeScoreHeap_Less_def word_sless_alt word_sle_eq not_less)
  moreover have "mset ?zs = mset xs" using sw(2) ds(1) by (metis append_take_drop_id mset_append)
  moreover have "take n ?zs = take n sw" using ds(4) sw(1) by auto
  moreover have "?zs ! 0 = ds ! r" using sw r(1) by (simp add: nth_append)
  ultimately show ?thesis using that [of ?zs] ds(7) by (simp add: Let_def r_def sw_def)
qed

text \<open>C16: selectHost, on at least two nodes, answers with a node of the highest score. The list
  it returns has the host in front, as many nodes as were asked for (or all of them), and no node
  that is left out scores more than one that is listed.\<close>

theorem host_has_the_highest_score:
  assumes "2 \<le> length xs" and "1 \<le> n"
  shows "\<exists>host others rest. selectHost rnd xs n = Returns (Inr (nps_Name host, host # others)) \<and>
    mset xs = mset (host # others) + mset rest \<and> length (host # others) = min n (length xs) \<and>
    (\<forall>s \<in> set xs. nps_TotalScore s \<le>s nps_TotalScore host) \<and>
    (\<forall>a \<in> set (host # others). \<forall>b \<in> set rest. nps_TotalScore b \<le>s nps_TotalScore a)"
proof -
  obtain zs where zs: "mset zs = mset xs" "sorted_wrt (\<lambda>x y. nps_TotalScore y \<le>s nps_TotalScore x) zs"
    "selectHost rnd xs n = Returns (Inr (nps_Name (zs ! 0), take n zs))"
    using selectHost_list [OF assms] .
  have len: "length zs = length xs" using zs(1) mset_eq_length by blast
  then obtain z ws m where z: "zs = z # ws" "n = Suc m" using assms by (cases zs; cases n) auto
  have "mset xs = mset (take n zs) + mset (drop n zs)" using zs(1) by (metis append_take_drop_id mset_append)
  moreover have "\<forall>a \<in> set (take n zs). \<forall>b \<in> set (drop n zs). nps_TotalScore b \<le>s nps_TotalScore a"
    using zs(2) by (metis append_take_drop_id sorted_wrt_append)
  moreover have "\<forall>s \<in> set xs. nps_TotalScore s \<le>s nps_TotalScore z"
    using zs(2) z(1) mset_eq_set [OF zs(1)] by (auto simp: word_sle_eq)
  moreover have "selectHost rnd xs n = Returns (Inr (nps_Name z, z # take m ws))" using zs(3) z by simp
  moreover have "length (z # take m ws) = min n (length xs)" using len z by auto
  ultimately show ?thesis using z by (intro exI [of _ z] exI [of _ "take m ws"] exI [of _ "drop m ws"]) simp
qed

definition ex_scores :: "NodePluginScores list" where
  "ex_scores = [\<lparr>nps_Name = ''n0'', nps_Scores = [], nps_TotalScore = 10\<rparr>,
     \<lparr>nps_Name = ''n1'', nps_Scores = [], nps_TotalScore = 30\<rparr>,
     \<lparr>nps_Name = ''n2'', nps_Scores = [], nps_TotalScore = -4\<rparr>,
     \<lparr>nps_Name = ''n3'', nps_Scores = [], nps_TotalScore = 30\<rparr>]"

theorem host_has_the_highest_score_witness:
  "\<exists>host others. selectHost (\<lambda>k. 0) ex_scores 3 = Returns (Inr (nps_Name host, host # others)) \<and>
     30 \<le>s nps_TotalScore host \<and> length others = 2"
  using host_has_the_highest_score [of ex_scores 3 "\<lambda>k. 0"] by (fastforce simp: ex_scores_def)

text \<open>C17: Among the nodes that share the highest score the choice is fair: of the possible
  throws of the dice, one in as many as there are such nodes selects a given one.\<close>

theorem host_is_chosen_fairly:
  assumes "2 \<le> length xs" and "1 \<le> n" and "distinct (map nps_Name xs)"
    and "s \<in> set xs" and "\<forall>s' \<in> set xs. nps_TotalScore s' \<le>s nps_TotalScore s"
  shows "card {rnd \<in> throws (ties (nps_TotalScore s) xs).
      \<exists>top. selectHost rnd xs n = Returns (Inr (nps_Name s, top))} * ties (nps_TotalScore s) xs =
    card (throws (ties (nps_TotalScore s) xs))"
proof -
  let ?t = "ties (nps_TotalScore s) xs"
  obtain ds k where ds: "mset ds = mset xs" "sorted_wrt (\<lambda>x y. \<not> nodeScoreHeap_Less y x) ds"
    "k \<le> length ds" "ties (nps_TotalScore (ds ! 0)) xs \<le> k" "0 < ties (nps_TotalScore (ds ! 0)) xs"
    "\<And>rnd. selectHost rnd xs n = (let r = reservoir rnd (ties (nps_TotalScore (ds ! 0)) xs)
        in Returns (Inr (nps_Name (ds ! r), take n (swap_at 0 r (take k ds)))))"
    using selectHost_sorted [OF assms(1,2)] by metis
  have set: "set ds = set xs" and dist: "distinct (map nps_Name ds)"
    using ds(1) assms(3) mset_eq_set distinct_map_mset by metis+
  obtain i where i: "i < length ds" "ds ! i = s" using assms(4) set by (metis in_set_conv_nth)
  have "ds ! 0 \<in> set ds" using i(1) by (intro nth_mem) linarith
  moreover have "\<not> nodeScoreHeap_Less s (ds ! 0)"
    using ds(2) i by (cases ds) (auto simp: nodeScoreHeap_Less_def word_sless_alt nth_Cons split: nat.splits)
  ultimately have top: "nps_TotalScore (ds ! 0) = nps_TotalScore s"
    using assms(5) set score_less [of s "ds ! 0"] by (fastforce simp: word_sle_eq word_sless_alt)
  have t: "?t = ties (nps_TotalScore s) ds" using ties_mset [OF ds(1)] by simp
  have "i < ?t"
    unfolding t using ties_front [OF ds(2) _ i(1), of "nps_TotalScore s"] i(2) assms(5) set
    by (auto simp: word_sless_alt word_sle_eq order.strict_iff_order dest: signed_word_eqI)
  have "(\<exists>top. selectHost rnd xs n = Returns (Inr (nps_Name s, top))) \<longleftrightarrow> reservoir rnd ?t = i" for rnd
  proof -
    have "reservoir rnd ?t < length ds" using reservoir_less [of ?t rnd] ds(3,4,5) unfolding top by linarith
    then have "nps_Name (ds ! reservoir rnd ?t) = nps_Name s \<longleftrightarrow> reservoir rnd ?t = i"
      using dist i nth_eq_iff_index_eq [of "map nps_Name ds" "reservoir rnd ?t" i] by auto
    then show ?thesis unfolding ds(6) top Let_def by auto
  qed
  then have "card {rnd \<in> throws ?t. \<exists>top. selectHost rnd xs n = Returns (Inr (nps_Name s, top))} = fact (?t - 1)"
    using card_reservoir [OF \<open>i < ?t\<close>] by simp
  then show ?thesis using card_throws [of ?t] \<open>i < ?t\<close> by (simp add: fact_reduce)
qed

theorem host_is_chosen_fairly_witness:
  "card {rnd \<in> throws 2. \<exists>top. selectHost rnd ex_scores 3 = Returns (Inr (''n3'', top))} * 2 = card (throws 2)"
proof -
  let ?s = "\<lparr>nps_Name = ''n3'', nps_Scores = [], nps_TotalScore = 30\<rparr>"
  have t: "ties (nps_TotalScore ?s) ex_scores = 2" by (simp add: ties_def ex_scores_def)
  have "card {rnd \<in> throws (ties (nps_TotalScore ?s) ex_scores).
      \<exists>top. selectHost rnd ex_scores 3 = Returns (Inr (nps_Name ?s, top))} * ties (nps_TotalScore ?s) ex_scores =
    card (throws (ties (nps_TotalScore ?s) ex_scores))"
    by (rule host_is_chosen_fairly) (simp_all add: ex_scores_def)
  then show ?thesis unfolding t by (simp only: NodePluginScores.simps)
qed

text \<open>On a list of exactly one node \<open>selectHost\<close> panics (the heap is empty when the loop pops
  its first element); an empty list is an error.\<close>

theorem selectHost_small_lists:
  "(\<exists>m. selectHost rnd [s] n = Panics m) \<and> selectHost rnd [] n = Returns (Inl errEmptyPriorityList)"
  by (simp_all add: selectHost_def heap_Init_def heap_Pop_def slice_pop_def heap_down.simps swap_at_def)

end
