(* ===== verification/FilterProps.thy ===== *)
theory FilterProps
  imports FilterLaws HostProps SchedProps
begin

text \<open>
  What the search for nodes guarantees under every interleaving of its goroutines, and what
  \<open>schedulePod\<close> answers.
\<close>

section \<open>The order of the nodes\<close>

lemma rotated_index:
  fixes s k m :: nat
  assumes "k < m"
  shows "\<exists>i < m. (s + i) mod m = k"
proof (intro exI conjI)
  let ?i = "(k + (m - s mod m)) mod m"
  show "?i < m" using assms by simp
  have "(s + ?i) mod m = (s mod m + (k + (m - s mod m))) mod m"
    by (metis mod_add_left_eq mod_add_right_eq)
  also have "s mod m + (k + (m - s mod m)) = k + m"
    using assms mod_less_divisor [of m s] by linarith
  finally show "(s + ?i) mod m = k" using assms by simp
qed

lemma node_at_range: "nodes \<noteq> [] \<Longrightarrow> node_at start nodes i \<in> set nodes"
  by (simp add: node_at_def)

lemma node_at_image: "node_at start nodes ` {..<length nodes} = set nodes"
proof (cases "nodes = []")
  case False
  show ?thesis
  proof
    show "node_at start nodes ` {..<length nodes} \<subseteq> set nodes" using node_at_range [OF False] by blast
    show "set nodes \<subseteq> node_at start nodes ` {..<length nodes}"
    proof
      fix x
      assume "x \<in> set nodes"
      then obtain k where "k < length nodes" "nodes ! k = x" by (metis in_set_conv_nth)
      then show "x \<in> node_at start nodes ` {..<length nodes}"
        using rotated_index [of k "length nodes" start] by (force simp: node_at_def)
    qed
  qed
qed simp

lemma node_at_inj: "distinct nodes \<Longrightarrow> inj_on (node_at start nodes) {..<length nodes}"
  by (rule eq_card_imp_inj_on) (simp_all add: node_at_image distinct_card)

section \<open>A cluster of three nodes\<close>

definition ex_filtering :: filtering where
  "ex_filtering = \<lparr>HasFilterPlugins = True, PercentageOfNodesToScore = None,
     RunPreFilterPlugins = (\<lambda>p. (None, Passed, None)),
     RunFilterPluginsWithNominatedPods =
       (\<lambda>p x. if x = ''n1'' then Refused ''Fit'' Unschedulable [''no room''] else Passed),
     AddPluginStatus = (\<lambda>s ps. ps), status_Message = (\<lambda>s. []), nominated_of = (\<lambda>p. []),
     extenderName = ''Extender''\<rparr>"

definition ex_selector :: selector where
  "ex_selector = \<lparr>UpdateSnapshot = None, snapshot_nodes = [''n0'', ''n1'', ''n2''], snapshot_List = None,
     snapshot_Get = (\<lambda>x. if x \<in> set [''n0'', ''n1'', ''n2''] then None else Some (GoErr ''not found'')),
     percentageOfNodesToScore = 0, sel_Extenders = []\<rparr>"

definition ex_moves :: "move list" where
  "ex_moves = [Check 2, Check 0, Check 2, Check 0, Check 1, Check 0, Check 2]"

section \<open>The filters\<close>

definition passes :: "filtering \<Rightarrow> pod \<Rightarrow> string \<Rightarrow> bool" where
  "passes F p x \<longleftrightarrow> HasFilterPlugins F \<longrightarrow> RunFilterPluginsWithNominatedPods F p x = Passed"

lemma dom_put_status:
  "fst ` set (put_status it st) = fst ` set st \<union> (case snd it of Refused pl c rs \<Rightarrow> {fst it} | _ \<Rightarrow> {})"
proof -
  have "dom (map_of (put_status it st)) = dom (map_of st) \<union> (case snd it of Refused pl c rs \<Rightarrow> {fst it} | _ \<Rightarrow> {})"
    by (auto simp: put_status_def update_conv' split: filter_status.splits if_splits)
  then show ?thesis by (simp add: dom_map_of_conv_image_fst)
qed

lemma dom_add_results:
  "fst ` set (NodeToStatusMap (add_results F rs d)) =
     fst ` set (NodeToStatusMap d) \<union> {x. \<exists>pl c r. Some (x, Refused pl c r) \<in> set rs}"
proof -
  have "fst ` set (NodeToStatusMap (fold (\<lambda>item d. d\<lparr>NodeToStatusMap := put_status item (NodeToStatusMap d),
          UnschedulablePlugins := AddPluginStatus F (snd item) (UnschedulablePlugins d)\<rparr>) items d)) =
      fst ` set (NodeToStatusMap d) \<union> {x. \<exists>pl c r. (x, Refused pl c r) \<in> set items}" for items
  proof (induction items arbitrary: d)
    case (Cons it items)
    show ?case by (cases it; cases "snd it") (auto simp: Cons dom_put_status)
  qed simp
  moreover have "set (List.map_filter id rs) = {x. Some x \<in> set rs}"
    by (force simp: map_filter_def)
  ultimately show ?thesis by (simp add: add_results_def)
qed

lemma run_filters:
  assumes "HasFilterPlugins F" and "length nodes < 2 ^ 31"
  obtains found err d' where
    "findNodesThatPassFilters F hsp sched start moves p d nodes = Returns (found, err, d')"
    "distinct nodes \<Longrightarrow> distinct found" "set found \<subseteq> {x \<in> set nodes. passes F p x}"
    "length found \<le> nat (sint (numNodesToFind F hsp sched (length nodes)))"
    "\<And>e. err = Some e \<Longrightarrow> \<exists>x \<in> set nodes. RunFilterPluginsWithNominatedPods F p x = Errored e"
    "CtxDone \<notin> set moves \<Longrightarrow> err = None \<Longrightarrow>
       length found < nat (sint (numNodesToFind F hsp sched (length nodes))) \<Longrightarrow>
       set nodes \<subseteq> set found \<union> fst ` set (NodeToStatusMap d')"
    "fst ` set (NodeToStatusMap d) \<subseteq> fst ` set (NodeToStatusMap d')"
    "fst ` set (NodeToStatusMap d') \<subseteq> fst ` set (NodeToStatusMap d) \<union> {x \<in> set nodes. \<not> passes F p x}"
proof -
  let ?n = "numNodesToFind F hsp sched (length nodes)"
  let ?S = "\<lparr>sh_n = ?n, sh_node = node_at start nodes, sh_run = RunFilterPluginsWithNominatedPods F p,
             sh_all = length nodes\<rparr>"
  let ?st = "run_checks ?n (node_at start nodes) (RunFilterPluginsWithNominatedPods F p) (length nodes) moves"
  let ?node = "node_at start nodes" let ?run = "RunFilterPluginsWithNominatedPods F p"
  obtain own where own: "distinct own" "set own \<subseteq> {i. i < length nodes \<and> ?run (?node i) = Passed}"
    "length own \<le> nat (sint ?n)" "sint (feasibleNodesLen ?st) = int (length own)"
    "length own \<le> length (feasible ?st)" "take (length own) (feasible ?st) = map (\<lambda>i. Some (?node i)) own"
    "\<And>e. chk_err ?st = Some e \<Longrightarrow> \<exists>i < length nodes. ?run (?node i) = Errored e"
    "length (chk_result ?st) = length nodes"
    "\<And>i x. i < length nodes \<Longrightarrow> chk_result ?st ! i = Some x \<Longrightarrow> x = (?node i, ?run (?node i))"
    "\<And>i. CtxDone \<notin> set moves \<Longrightarrow> chk_err ?st = None \<Longrightarrow> length own < nat (sint ?n) \<Longrightarrow> i < length nodes \<Longrightarrow>
       i \<in> set own \<or> (\<exists>pl c rs. ?run (?node i) = Refused pl c rs \<and> chk_result ?st ! i = Some (?node i, Refused pl c rs))"
    using run_checks_end [of ?S moves thesis] assms(2) by simp
  have at: "?node i \<in> set nodes" if "i < length nodes" for i using that node_at_image [of start nodes] by blast
  have ran: "x = (?node i, ?run (?node i))" if "chk_result ?st ! i = Some x" "i < length nodes" for i x
    using own(9) that by blast
  have rej: "x \<in> set nodes \<and> ?run x = Refused pl c rs" if "Some (x, Refused pl c rs) \<in> set (chk_result ?st)" for x pl c rs
  proof -
    obtain i where i: "i < length nodes" "chk_result ?st ! i = Some (x, Refused pl c rs)"
      using \<open>Some (x, Refused pl c rs) \<in> _\<close> own(8) by (metis in_set_conv_nth)
    then show ?thesis using ran [OF i(2,1)] at [OF i(1)] by simp
  qed
  show ?thesis
  proof (rule that [of "map ?node own" "chk_err ?st" "add_results F (chk_result ?st) d"])
    show "findNodesThatPassFilters F hsp sched start moves p d nodes =
        Returns (map ?node own, chk_err ?st, add_results F (chk_result ?st) d)"
    proof -
      have "None \<notin> set (map (\<lambda>i. Some (?node i)) own)" by auto
      moreover have "\<not> (int (length own) < 0 \<or> length (feasible ?st) < length own)" using own(5) by simp
      ultimately show ?thesis
        unfolding findNodesThatPassFilters_def Let_def own(4) nat_int own(6) using assms(1) by (simp add: comp_def)
    qed
    show "distinct (map ?node own)" if "distinct nodes"
      using own(1,2) node_at_inj [OF that, of start] by (auto simp: distinct_map intro: inj_on_subset)
    show "set (map ?node own) \<subseteq> {x \<in> set nodes. passes F p x}" using own(2) at by (auto simp: passes_def)
    show "length (map ?node own) \<le> nat (sint ?n)" using own(3) by simp
    show "\<exists>x \<in> set nodes. ?run x = Errored e" if "chk_err ?st = Some e" for e
      using own(7) [OF that] at by blast
    show "set nodes \<subseteq> set (map ?node own) \<union> fst ` set (NodeToStatusMap (add_results F (chk_result ?st) d))"
      if "CtxDone \<notin> set moves" "chk_err ?st = None" "length (map ?node own) < nat (sint ?n)"
    proof
      fix x
      assume "x \<in> set nodes"
      then obtain i where i: "i < length nodes" "x = ?node i" using node_at_image [of start nodes] by blast
      have "length own < nat (sint ?n)" using that(3) by simp
      from own(10) [OF that(1,2) this i(1)]
      have "i \<in> set own \<or> (\<exists>pl c rs. Some (?node i, Refused pl c rs) \<in> set (chk_result ?st))"
        using i(1) own(8) by (metis nth_mem)
      then show "x \<in> set (map ?node own) \<union> fst ` set (NodeToStatusMap (add_results F (chk_result ?st) d))"
        unfolding dom_add_results i(2) by auto
    qed
    show "fst ` set (NodeToStatusMap d) \<subseteq> fst ` set (NodeToStatusMap (add_results F (chk_result ?st) d))"
      unfolding dom_add_results by blast
    show "fst ` set (NodeToStatusMap (add_results F (chk_result ?st) d)) \<subseteq>
        fst ` set (NodeToStatusMap d) \<union> {x \<in> set nodes. \<not> passes F p x}"
      unfolding dom_add_results using rej assms(1) by (fastforce simp: passes_def)
  qed
qed

lemma numNodesToFind_pos:
  assumes "0 < m" and "m < 2 ^ 31"
  shows "1 \<le> sint (numNodesToFind F hsp sched m)"
proof -
  have m: "sint (word_of_nat m :: int32) = int m" using assms(2) by (rule sint_word_of_nat32)
  have "1 \<le> sint (numFeasibleNodesToFind g q (word_of_nat m))" for g q
    using assms(1) m
    by (auto simp: numFeasibleNodesToFind_def Let_def word_sless_alt minFeasibleNodesToFind_def)
  then show ?thesis by (simp add: numNodesToFind_def)
qed

text \<open>C13: Whatever the order in which the goroutines act, the search ends with distinct nodes
  that pass the filters, never a missing entry and never more than wanted. It comes back with fewer
  only when a plugin failed or the caller's context ended, or after every other node got a
  status.\<close>

theorem filters_under_every_interleaving:
  assumes "HasFilterPlugins F" and "distinct nodes" and "length nodes < 2 ^ 31"
  shows "\<exists>found err d'. findNodesThatPassFilters F hsp sched start moves p d nodes = Returns (found, err, d') \<and>
    distinct found \<and> set found \<subseteq> {x \<in> set nodes. RunFilterPluginsWithNominatedPods F p x = Passed} \<and>
    int (length found) \<le> max 0 (sint (numNodesToFind F hsp sched (length nodes))) \<and>
    (CtxDone \<notin> set moves \<and> err = None \<and>
       int (length found) < sint (numNodesToFind F hsp sched (length nodes)) \<longrightarrow>
     set nodes \<subseteq> set found \<union> fst ` set (NodeToStatusMap d'))"
proof -
  obtain found err d' where r: "findNodesThatPassFilters F hsp sched start moves p d nodes = Returns (found, err, d')"
    "distinct nodes \<Longrightarrow> distinct found" "set found \<subseteq> {x \<in> set nodes. passes F p x}"
    "length found \<le> nat (sint (numNodesToFind F hsp sched (length nodes)))"
    "CtxDone \<notin> set moves \<Longrightarrow> err = None \<Longrightarrow>
       length found < nat (sint (numNodesToFind F hsp sched (length nodes))) \<Longrightarrow>
       set nodes \<subseteq> set found \<union> fst ` set (NodeToStatusMap d')"
  proof (rule run_filters [OF assms(1,3), of hsp sched start moves p d])
  qed (rule that)
  then have "set found \<subseteq> {x \<in> set nodes. RunFilterPluginsWithNominatedPods F p x = Passed}"
    using assms(1) by (auto simp: passes_def)
  moreover have "int (length found) \<le> max 0 (sint (numNodesToFind F hsp sched (length nodes)))"
    using r(4) by linarith
  moreover have "CtxDone \<notin> set moves \<and> err = None \<and>
       int (length found) < sint (numNodesToFind F hsp sched (length nodes)) \<longrightarrow>
     set nodes \<subseteq> set found \<union> fst ` set (NodeToStatusMap d')"
    using r(5) by (simp add: zless_nat_eq_int_zless)
  ultimately show ?thesis using r(1) r(2) [OF assms(2)] by blast
qed

definition ex_diagnosis :: diagnosis where
  "ex_diagnosis = \<lparr>NodeToStatusMap = [], UnschedulablePlugins = None, PreFilterMsg = []\<rparr>"

theorem filters_under_every_interleaving_witness:
  "\<exists>found err d'. findNodesThatPassFilters ex_filtering True ex_selector 1 ex_moves (ex_pod ''p'') ex_diagnosis
       [''n0'', ''n1'', ''n2''] = Returns (found, err, d') \<and> distinct found \<and> set found \<subseteq> {''n0'', ''n2''}"
proof -
  obtain found err d' where "findNodesThatPassFilters ex_filtering True ex_selector 1 ex_moves (ex_pod ''p'') ex_diagnosis
       [''n0'', ''n1'', ''n2''] = Returns (found, err, d')" "distinct found"
    "set found \<subseteq> {x \<in> set [''n0'', ''n1'', ''n2'']. RunFilterPluginsWithNominatedPods ex_filtering (ex_pod ''p'') x = Passed}"
    using filters_under_every_interleaving [of ex_filtering "[''n0'', ''n1'', ''n2'']" True ex_selector 1 ex_moves "ex_pod ''p''" ex_diagnosis]
    by (auto simp: ex_filtering_def)
  then show ?thesis by (auto simp: ex_filtering_def)
qed

section \<open>One pod\<close>

text \<open>What the snapshot and the plugins promise.\<close>

definition snapshot_ok :: "selector \<Rightarrow> bool" where
  "snapshot_ok sched \<longleftrightarrow> distinct (snapshot_nodes sched) \<and> length (snapshot_nodes sched) < 2 ^ 31 \<and>
     (\<forall>x. snapshot_Get sched x = None \<longrightarrow> x \<in> set (snapshot_nodes sched))"

definition prefilter_ok :: "filtering \<Rightarrow> bool" where
  "prefilter_ok F \<longleftrightarrow> (\<forall>p names s u. RunPreFilterPlugins F p = (Some names, s, u) \<longrightarrow> distinct names)"

definition scoring_ok :: "scoring \<Rightarrow> bool" where
  "scoring_ok C \<longleftrightarrow> (\<forall>p nodes ss. RunScorePlugins C p nodes = Inr ss \<longrightarrow> map nps_Name ss = nodes)"

lemma prefilter_nodes:
  assumes "snapshot_ok sched" and "prefilter_ok F" and "RunPreFilterPlugins F p = (preRes, s, u)"
  shows "distinct (nodes_of_prefilter sched preRes)" "length (nodes_of_prefilter sched preRes) < 2 ^ 31"
    "set (nodes_of_prefilter sched preRes) \<subseteq> set (snapshot_nodes sched)"
proof -
  show d: "distinct (nodes_of_prefilter sched preRes)"
  proof (cases preRes)
    case None
    then show ?thesis using assms(1) by (simp add: nodes_of_prefilter_def snapshot_ok_def)
  next
    case (Some names)
    then have "distinct names" using assms(2,3) unfolding prefilter_ok_def by blast
    then show ?thesis using Some by (simp add: nodes_of_prefilter_def)
  qed
  show s: "set (nodes_of_prefilter sched preRes) \<subseteq> set (snapshot_nodes sched)"
    using assms(1) by (auto simp: nodes_of_prefilter_def snapshot_ok_def split: option.splits)
  show "length (nodes_of_prefilter sched preRes) < 2 ^ 31"
    using card_mono [OF _ s] d assms(1) by (simp add: distinct_card snapshot_ok_def)
qed

lemma filters_in_nodes:
  assumes "length nodes < 2 ^ 31"
    and "findNodesThatPassFilters F hsp sched start moves p d nodes = Returns (found, err, d')"
  shows "set found \<subseteq> {x \<in> set nodes. passes F p x}"
proof (cases "HasFilterPlugins F")
  case True
  then show ?thesis using run_filters [OF True assms(1), of hsp sched start moves p d] assms(2) by (metis outcome.inject(1) prod.inject)
next
  case False
  then show ?thesis
    using assms(2) node_at_range [of nodes start]
    by (cases "nodes = []") (auto simp: findNodesThatPassFilters_def Let_def passes_def word_sless_alt split: if_splits)
qed

lemma nominated_in_nodes:
  assumes "snapshot_ok sched" and "\<forall>x \<in> set (sel_Extenders sched). extender_ok x"
    and "evaluateNominatedNode F hsp sched start moves p d = Returns (Inr res, d')"
  shows "set res \<subseteq> {x \<in> set (snapshot_nodes sched). passes F p x}"
proof -
  let ?nnn = "nominated_of F p"
  have nnn: "?nnn \<in> set (snapshot_nodes sched)"
    using assms(1,3) by (auto simp: evaluateNominatedNode_def Let_def snapshot_ok_def split: option.splits)
  obtain nodes d1 statuses where
    "findNodesThatPassFilters F hsp sched start moves p d [?nnn] = Returns (nodes, None, d1)"
    "findNodesThatPassExtenders (sel_Extenders sched) p nodes (NodeToStatusMap d1) = (Inr res, statuses)"
    using assms(3)
    by (auto simp: evaluateNominatedNode_def Let_def bind_outcome_Returns_iff split: option.splits prod.splits)
  then have "set nodes \<subseteq> {x \<in> set [?nnn]. passes F p x}" "set res \<subseteq> set nodes"
    using filters_in_nodes [of "[?nnn]"] findNodesThatPassExtenders_sound assms(2) by auto
  then show ?thesis using nnn by auto
qed

lemma find_among_in_nodes:
  assumes "length nodes < 2 ^ 31" and "\<forall>x \<in> set (sel_Extenders sched). extender_ok x"
    and "find_among F hsp sched start moves p d nodes = Returns (Inr res, d', next)"
  shows "set res \<subseteq> {x \<in> set nodes. passes F p x}"
proof -
  obtain found d1 statuses where f: "findNodesThatPassFilters F hsp sched start moves p d nodes = Returns (found, None, d1)"
    and x: "findNodesThatPassExtenders (sel_Extenders sched) p found (NodeToStatusMap d1) = (Inr res, statuses)"
    using assms(3)
    by (auto simp: find_among_def Let_def bind_outcome_Returns_iff split: option.splits if_splits sum.splits prod.splits)
  show ?thesis
    using filters_in_nodes [OF assms(1) f] findNodesThatPassExtenders_sound [OF x assms(2)] by blast
qed

lemma fit_cases:
  assumes "findNodesThatFitPod F hsp sched start moves1 moves2 p = Returns (Inr res, d', next)"
    and "RunPreFilterPlugins F p = (preRes, s, u)"
  obtains "res = []" "s \<noteq> Passed" "next = start"
  | d where "evaluateNominatedNode F hsp sched start moves1 p d = Returns (Inr res, d')" "res \<noteq> []"
      "s = Passed" "nominated_of F p \<noteq> []" "next = start"
  | d where "find_among F hsp sched start moves2 p d (nodes_of_prefilter sched preRes) = Returns (Inr res, d', next)"
      "s = Passed" "nominated_of F p = [] \<longrightarrow> NodeToStatusMap d = []"
proof (cases s)
  case Passed
  show ?thesis
  proof (cases "nominated_of F p = []")
    case True
    then show ?thesis using assms Passed that(3) [of "\<lparr>NodeToStatusMap = [], UnschedulablePlugins = u, PreFilterMsg = []\<rparr>"]
      by (simp add: findNodesThatFitPod_def Let_def split: option.splits)
  next
    case False
    let ?d = "\<lparr>NodeToStatusMap = [], UnschedulablePlugins = u, PreFilterMsg = []\<rparr>"
    obtain r d1 where e: "evaluateNominatedNode F hsp sched start moves1 p ?d = Returns (r, d1)"
      using assms Passed False
      by (cases "evaluateNominatedNode F hsp sched start moves1 p ?d")
        (auto simp: findNodesThatFitPod_def Let_def split: option.splits)
    then have eq: "Returns (Inr res, d', next) = (case r of Inr (n # ns) \<Rightarrow> Returns (Inr (n # ns), d1, start)
        | _ \<Rightarrow> find_among F hsp sched start moves2 p d1 (nodes_of_prefilter sched preRes))"
      using assms Passed False by (simp add: findNodesThatFitPod_def Let_def split: option.splits)
    show ?thesis
    proof (cases "\<exists>n ns. r = Inr (n # ns)")
      case True
      then show ?thesis using that(2) e eq Passed False by auto
    next
      case nominated: False
      then have "find_among F hsp sched start moves2 p d1 (nodes_of_prefilter sched preRes) = Returns (Inr res, d', next)"
        using eq by (auto split: sum.splits list.splits)
      then show ?thesis using that(3) Passed False by blast
    qed
  qed
qed (use assms that(1) in \<open>auto simp: findNodesThatFitPod_def Let_def split: option.splits\<close>)

lemma fit_in_nodes:
  assumes "snapshot_ok sched" and "prefilter_ok F" and "\<forall>x \<in> set (sel_Extenders sched). extender_ok x"
    and "findNodesThatFitPod F hsp sched start moves1 moves2 p = Returns (Inr res, d', next)"
  shows "set res \<subseteq> {x \<in> set (snapshot_nodes sched). passes F p x}"
proof -
  obtain preRes s u where pre: "RunPreFilterPlugins F p = (preRes, s, u)" by (metis prod_cases3)
  from assms(4) pre show ?thesis
  proof (cases rule: fit_cases)
    case 1
    then show ?thesis by simp
  next
    case (2 d)
    then show ?thesis using nominated_in_nodes [OF assms(1,3)] by blast
  next
    case (3 d)
    then show ?thesis
      using find_among_in_nodes [OF _ assms(3)] prefilter_nodes [OF assms(1,2) pre] by blast
  qed
qed

lemma ex_ok: "snapshot_ok ex_selector" "prefilter_ok ex_filtering" "scoring_ok ex_scoring"
  by (auto simp: snapshot_ok_def ex_selector_def prefilter_ok_def ex_filtering_def scoring_ok_def ex_scoring_def
    comp_def split: if_splits)

lemma ex_search:
  "schedulePod ex_filtering ex_scoring ex_selector 1 [] ex_moves [] (\<lambda>k. 0) (ex_pod ''p'') =
     Returns (Inr (''n2'', 3, 2), 1)"
  by code_simp

text \<open>\<open>schedulePod\<close>, by the number of nodes that fit.\<close>

lemma schedulePod_host:
  assumes "schedulePod F C sched start moves1 moves2 order rnd p = Returns (Inr (host, ev, k), next)"
  obtains nodes d where "findNodesThatFitPod F (HasScorePlugins C) sched start moves1 moves2 p = Returns (Inr nodes, d, next)"
    "nodes = [host] \<or> 2 \<le> length nodes \<and> choose_host C sched order rnd p nodes = Returns (Inr host)"
proof -
  let ?fit = "findNodesThatFitPod F (HasScorePlugins C) sched start moves1 moves2 p"
  have sched: "UpdateSnapshot sched = None" "snapshot_nodes sched \<noteq> []"
    using assms by (auto simp: schedulePod_def split: option.splits if_splits)
  obtain r d n' where f: "?fit = Returns (r, d, n')"
    using assms sched by (cases ?fit) (auto simp: schedulePod_def)
  obtain nodes where r: "r = Inr nodes" "nodes \<noteq> []"
    using assms sched f by (cases r) (auto simp: schedulePod_def split: if_splits)
  show ?thesis
  proof (cases "length nodes = 1")
    case True
    then have "nodes = [nodes ! 0]" by (simp add: length_Suc_conv) auto
    then show ?thesis using assms sched f r True that [of nodes d] by (simp add: schedulePod_def)
  next
    case False
    then have two: "2 \<le> length nodes" using r(2) by (metis One_nat_def Suc_1 Suc_leI length_greater_0_conv less_one nat_neq_iff)
    obtain r2 where c: "choose_host C sched order rnd p nodes = Returns r2"
      using assms sched f r False by (cases "choose_host C sched order rnd p nodes") (simp_all add: schedulePod_def)
    then have "n' = next \<and> r2 = Inr host"
      using assms sched f r False by (cases r2) (simp_all add: schedulePod_def)
    then show ?thesis using that [of nodes d] f r two c by simp
  qed
qed

lemma schedulePod_unfit:
  assumes "schedulePod F C sched start moves1 moves2 order rnd p = Returns (Inl FitFailure, next)"
  obtains d where "findNodesThatFitPod F (HasScorePlugins C) sched start moves1 moves2 p = Returns (Inr [], d, next)"
proof -
  let ?fit = "findNodesThatFitPod F (HasScorePlugins C) sched start moves1 moves2 p"
  have sched: "UpdateSnapshot sched = None" "snapshot_nodes sched \<noteq> []"
    using assms by (auto simp: schedulePod_def split: option.splits if_splits)
  obtain r d n' where f: "?fit = Returns (r, d, n')"
    using assms sched by (cases ?fit) (auto simp: schedulePod_def)
  obtain nodes where r: "r = Inr nodes"
    using assms sched f by (cases r) (auto simp: schedulePod_def split: if_splits)
  have "nodes = []"
  proof (rule ccontr)
    assume "nodes \<noteq> []"
    then show False
      using assms sched f r by (cases "choose_host C sched order rnd p nodes")
        (auto simp: schedulePod_def split: if_splits sum.splits)
  qed
  then show ?thesis using assms sched f r that by (simp add: schedulePod_def)
qed

lemma merge_scores_names:
  "merge_scores acc nodes ss = Returns r \<Longrightarrow> map nps_Name r = map nps_Name ss"
proof (induction acc nodes ss arbitrary: r rule: merge_scores.induct)
  case (3 acc node nodes s ss)
  then show ?case by (auto simp: Let_def bind_outcome_Returns_iff split: option.splits)
qed simp_all

lemma prioritizeNodes_names:
  assumes "scoring_ok C" and "prioritizeNodes extenders C order p nodes = Returns (Inr r)"
  shows "map nps_Name r = nodes"
proof -
  have plugin: "map nps_Name ss = nodes" if "RunScorePlugins C p nodes = Inr ss" for ss
    using assms(1) that by (auto simp: scoring_ok_def)
  show ?thesis
    using assms(2) plugin
    by (auto simp: prioritizeNodes_def bind_outcome_Returns_iff comp_def dest: merge_scores_names
      split: if_splits option.splits sum.splits)
qed

lemma selectHost_name:
  assumes "2 \<le> length xs" and "1 \<le> n" and "selectHost rnd xs n = Returns (Inr (host, tops))"
  shows "host \<in> nps_Name ` set xs"
proof -
  obtain zs where zs: "mset zs = mset xs" "selectHost rnd xs n = Returns (Inr (nps_Name (zs ! 0), take n zs))"
    using selectHost_list [OF assms(1,2)] by metis
  have "length zs = length xs" using zs(1) mset_eq_length by blast
  then have "zs ! 0 \<in> set zs" using assms(1) by (intro nth_mem) linarith
  then show ?thesis using zs assms(3) mset_eq_set by fastforce
qed

lemma choose_host_name:
  assumes "scoring_ok C" and "choose_host C sched order rnd p nodes = Returns (Inr host)" and "2 \<le> length nodes"
  shows "host \<in> set nodes"
proof -
  obtain scores tops where c: "prioritizeNodes (sel_Extenders sched) C order p nodes = Returns (Inr scores)"
    "selectHost rnd scores numberOfHighestScoredNodesToReport = Returns (Inr (host, tops))"
  proof -
    obtain r where r: "prioritizeNodes (sel_Extenders sched) C order p nodes = Returns r"
      using assms(2) by (cases "prioritizeNodes (sel_Extenders sched) C order p nodes") (simp_all add: choose_host_def)
    then obtain scores where s: "r = Inr scores" using assms(2) by (cases r) (simp_all add: choose_host_def)
    then obtain r2 where "selectHost rnd scores numberOfHighestScoredNodesToReport = Returns r2"
      using assms(2) r by (cases "selectHost rnd scores numberOfHighestScoredNodesToReport") (simp_all add: choose_host_def)
    then show ?thesis using assms(2) r s that by (cases r2) (auto simp: choose_host_def)
  qed
  have names: "map nps_Name scores = nodes" by (rule prioritizeNodes_names [OF assms(1) c(1)])
  then have "length scores = length nodes" by (metis length_map)
  then have "host \<in> nps_Name ` set scores"
    using selectHost_name [OF _ _ c(2)] assms(3) by (simp add: numberOfHighestScoredNodesToReport_def)
  then show ?thesis using names by (metis set_map)
qed

text \<open>The host that \<open>schedulePod\<close> suggests is a node of the snapshot that passed the filter
  plugins, under every interleaving, every order of the extenders and all throws of the dice.\<close>

theorem suggested_host_is_feasible:
  assumes "snapshot_ok sched" and "prefilter_ok F" and "scoring_ok C"
    and "\<forall>x \<in> set (sel_Extenders sched). extender_ok x"
    and "schedulePod F C sched start moves1 moves2 order rnd p = Returns (Inr (host, ev, k), next)"
  shows "host \<in> set (snapshot_nodes sched) \<and>
    (HasFilterPlugins F \<longrightarrow> RunFilterPluginsWithNominatedPods F p host = Passed)"
proof -
  have fit: "set nodes \<subseteq> {x \<in> set (snapshot_nodes sched). passes F p x}"
    if "findNodesThatFitPod F (HasScorePlugins C) sched start moves1 moves2 p = Returns (Inr nodes, d, next)" for nodes d
    using fit_in_nodes [OF assms(1,2,4) that] .
  obtain nodes d where n: "findNodesThatFitPod F (HasScorePlugins C) sched start moves1 moves2 p = Returns (Inr nodes, d, next)"
    "nodes = [host] \<or> 2 \<le> length nodes \<and> choose_host C sched order rnd p nodes = Returns (Inr host)"
    using schedulePod_host [OF assms(5)] .
  have "host \<in> set nodes" using n(2) choose_host_name [OF assms(3)] by auto
  then show ?thesis using fit [OF n(1)] by (auto simp: passes_def)
qed

theorem suggested_host_is_feasible_witness:
  "RunFilterPluginsWithNominatedPods ex_filtering (ex_pod ''p'') ''n2'' = Passed \<and> ''n2'' \<in> set (snapshot_nodes ex_selector)"
proof -
  have e: "sel_Extenders ex_selector = []" "HasFilterPlugins ex_filtering"
    by (simp_all add: ex_selector_def ex_filtering_def)
  then have "\<forall>x \<in> set (sel_Extenders ex_selector). extender_ok x" by simp
  from suggested_host_is_feasible [OF ex_ok this ex_search] show ?thesis using e(2) by blast
qed

text \<open>C20: Without extenders and without a nominated node, with filter plugins, and as long as the
  caller's context does not end during the search, a pod is called unschedulable only when no node
  that the prefilter plugins leave passes the filters, however the goroutines interleave. (A context
  that ends stops the search early without an error.)\<close>

theorem unschedulable_only_when_nothing_fits:
  assumes "snapshot_ok sched" and "prefilter_ok F" and "HasFilterPlugins F" and "sel_Extenders sched = []"
    and "nominated_of F p = []" and "CtxDone \<notin> set moves2"
    and "schedulePod F C sched start moves1 moves2 order rnd p = Returns (Inl FitFailure, next)"
    and "RunPreFilterPlugins F p = (preRes, Passed, u)" and "x \<in> set (nodes_of_prefilter sched preRes)"
  shows "RunFilterPluginsWithNominatedPods F p x \<noteq> Passed"
proof -
  let ?nodes = "nodes_of_prefilter sched preRes" and ?n = "numNodesToFind F (HasScorePlugins C) sched (length (nodes_of_prefilter sched preRes))"
  note nodes = prefilter_nodes [OF assms(1,2,8)]
  obtain d' where "findNodesThatFitPod F (HasScorePlugins C) sched start moves1 moves2 p = Returns (Inr [], d', next)"
    using schedulePod_unfit [OF assms(7)] .
  from this assms(8) obtain d where
    d: "find_among F (HasScorePlugins C) sched start moves2 p d ?nodes = Returns (Inr [], d', next)" "NodeToStatusMap d = []"
    by (cases rule: fit_cases) (use assms(5) in auto)
  obtain found err d1 where r: "findNodesThatPassFilters F (HasScorePlugins C) sched start moves2 p d ?nodes = Returns (found, err, d1)"
    "CtxDone \<notin> set moves2 \<Longrightarrow> err = None \<Longrightarrow> length found < nat (sint ?n) \<Longrightarrow>
       set ?nodes \<subseteq> set found \<union> fst ` set (NodeToStatusMap d1)"
    "fst ` set (NodeToStatusMap d1) \<subseteq> fst ` set (NodeToStatusMap d) \<union> {x \<in> set ?nodes. \<not> passes F p x}"
    by (rule run_filters [OF assms(3) nodes(2), of "HasScorePlugins C" sched start moves2 p d]) (rule that)
  have "err = None \<and> found = []"
    using d(1) r(1) assms(4)
    by (auto simp: find_among_def Let_def split: if_splits option.splits)
  moreover have "0 < length ?nodes" using assms(9) by (cases ?nodes) auto
  then have "1 \<le> sint ?n" using nodes(2) by (rule numNodesToFind_pos)
  then have "0 < nat (sint ?n)" by simp
  ultimately have "set ?nodes \<subseteq> fst ` set (NodeToStatusMap d1)" using r(2) assms(6) by simp
  then have "\<not> passes F p x" using r(3) d(2) assms(9) by auto
  then show ?thesis by (simp add: passes_def)
qed

definition ex_full :: filtering where
  "ex_full = ex_filtering\<lparr>RunFilterPluginsWithNominatedPods := \<lambda>p x. Refused ''Fit'' Unschedulable [''no room'']\<rparr>"

theorem unschedulable_only_when_nothing_fits_witness:
  "schedulePod ex_full ex_scoring ex_selector 1 [] ex_moves [] (\<lambda>k. 0) (ex_pod ''p'') = Returns (Inl FitFailure, 1) \<and>
   RunFilterPluginsWithNominatedPods ex_full (ex_pod ''p'') ''n1'' \<noteq> Passed"
proof -
  have s: "schedulePod ex_full ex_scoring ex_selector 1 [] ex_moves [] (\<lambda>k. 0) (ex_pod ''p'') = Returns (Inl FitFailure, 1)"
    by code_simp
  have "RunFilterPluginsWithNominatedPods ex_full (ex_pod ''p'') ''n1'' \<noteq> Passed"
    by (rule unschedulable_only_when_nothing_fits [OF ex_ok(1) _ _ _ _ _ s, of None None])
      (auto simp: prefilter_ok_def ex_full_def ex_filtering_def ex_selector_def ex_moves_def nodes_of_prefilter_def)
  then show ?thesis using s by simp
qed

text \<open>The search does not panic as long as there are filter plugins; the index where the next search
  starts stays in the list of nodes.\<close>

lemma nominated_returns:
  assumes "HasFilterPlugins F"
  shows "\<exists>r. evaluateNominatedNode F hsp sched start moves p d = Returns r"
proof -
  obtain found err d' where "findNodesThatPassFilters F hsp sched start moves p d [nominated_of F p] = Returns (found, err, d')"
    by (rule run_filters [OF assms, of "[nominated_of F p]" hsp sched start moves p d]) (use that in simp_all)
  then show ?thesis by (auto simp: evaluateNominatedNode_def Let_def split: option.splits prod.splits)
qed

lemma find_among_returns:
  assumes "HasFilterPlugins F" and "snapshot_nodes sched \<noteq> []" and "length nodes < 2 ^ 31"
  shows "\<exists>r d' next. find_among F hsp sched start moves p d nodes = Returns (r, d', next) \<and>
    next < length (snapshot_nodes sched)"
proof -
  obtain found err d' where "findNodesThatPassFilters F hsp sched start moves p d nodes = Returns (found, err, d')"
    by (rule run_filters [OF assms(1,3), of hsp sched start moves p d]) (use that in simp_all)
  then show ?thesis
    using assms(2) by (auto simp: find_among_def Let_def split: option.splits sum.splits prod.splits)
qed

lemma fit_returns:
  assumes "snapshot_ok sched" and "prefilter_ok F" and "HasFilterPlugins F" and "snapshot_nodes sched \<noteq> []"
    and "start < length (snapshot_nodes sched)"
  shows "\<exists>r d' next. findNodesThatFitPod F hsp sched start moves1 moves2 p = Returns (r, d', next) \<and>
    next < length (snapshot_nodes sched)"
proof -
  obtain preRes s u where pre: "RunPreFilterPlugins F p = (preRes, s, u)" by (metis prod_cases3)
  let ?d = "\<lparr>NodeToStatusMap = [], UnschedulablePlugins = u, PreFilterMsg = []\<rparr>"
  note among = find_among_returns [OF assms(3,4) prefilter_nodes(2) [OF assms(1,2) pre], of hsp start moves2 p]
  obtain r d1 where "(if nominated_of F p = [] then Returns (Inr [], ?d)
      else evaluateNominatedNode F hsp sched start moves1 p ?d) = Returns (r, d1)"
    using nominated_returns [OF assms(3), of hsp sched start moves1 p ?d] by fastforce
  then show ?thesis
    using pre assms(5) among [of d1]
    by (auto simp: findNodesThatFitPod_def Let_def split: option.splits filter_status.splits sum.splits list.splits)
qed

lemma prioritizeNodes_returns:
  assumes "scoring_ok C"
  shows "\<exists>r. prioritizeNodes extenders C order p nodes = Returns r"
proof (cases "RunScorePlugins C p nodes")
  case (Inr ss)
  then have "length ss = length nodes" using assms by (metis scoring_ok_def length_map)
  then show ?thesis
    using Inr merge_scores_total [of ss nodes "fold (run_prioritize (score_scale C) p nodes) order []"]
    by (auto simp: prioritizeNodes_def split: option.splits)
qed (auto simp: prioritizeNodes_def split: option.splits)

lemma choose_host_returns:
  assumes "scoring_ok C" and "2 \<le> length nodes"
  shows "\<exists>r. choose_host C sched order rnd p nodes = Returns r"
proof -
  obtain r where r: "prioritizeNodes (sel_Extenders sched) C order p nodes = Returns r"
    using prioritizeNodes_returns [OF assms(1)] by blast
  show ?thesis
  proof (cases r)
    case (Inr scores)
    then have "map nps_Name scores = nodes" using prioritizeNodes_names [OF assms(1)] r by blast
    then have "2 \<le> length scores" using assms(2) by auto
    then obtain zs where "selectHost rnd scores numberOfHighestScoredNodesToReport =
        Returns (Inr (nps_Name (zs ! 0), take numberOfHighestScoredNodesToReport zs))"
      by (rule selectHost_list [of scores numberOfHighestScoredNodesToReport])
        (simp_all add: numberOfHighestScoredNodesToReport_def)
    then show ?thesis using r Inr by (simp add: choose_host_def)
  qed (use r in \<open>simp add: choose_host_def\<close>)
qed

text \<open>C19: With filter plugins configured schedulePod always returns: no interleaving, prefilter
  result, order of the extenders or throw of the dice makes it panic. The index where the next search
  starts stays inside the list of nodes.\<close>

theorem schedulePod_never_panics:
  assumes "snapshot_ok sched" and "prefilter_ok F" and "scoring_ok C" and "HasFilterPlugins F"
    and "start < length (snapshot_nodes sched)"
  shows "\<exists>r next. schedulePod F C sched start moves1 moves2 order rnd p = Returns (r, next) \<and>
    next < length (snapshot_nodes sched)"
proof -
  have ne: "snapshot_nodes sched \<noteq> []" using assms(5) by auto
  obtain r d nxt where f: "findNodesThatFitPod F (HasScorePlugins C) sched start moves1 moves2 p = Returns (r, d, nxt)"
    "nxt < length (snapshot_nodes sched)"
    using fit_returns [OF assms(1,2,4) ne assms(5)] by metis
  show ?thesis
  proof (cases "UpdateSnapshot sched = None \<and> (\<exists>nodes. r = Inr nodes \<and> 2 \<le> length nodes)")
    case True
    then obtain nodes where n: "r = Inr nodes" "2 \<le> length nodes" by blast
    obtain r2 where "choose_host C sched order rnd p nodes = Returns r2"
      using choose_host_returns [OF assms(3) n(2)] by blast
    then show ?thesis using True n f ne by (auto simp: schedulePod_def split: sum.splits)
  next
    case False
    then have "length nodes = 1" if "r = Inr nodes" "nodes \<noteq> []" "UpdateSnapshot sched = None" for nodes
      using that by (metis One_nat_def Suc_1 Suc_leI length_greater_0_conv less_one nat_neq_iff)
    then show ?thesis using f ne assms(5) by (auto simp: schedulePod_def split: sum.splits option.splits)
  qed
qed

theorem schedulePod_never_panics_witness:
  "\<exists>r nxt. schedulePod ex_filtering ex_scoring ex_selector 2 ex_moves [CtxDone] [] (\<lambda>k. k) (ex_pod ''p'') = Returns (r, nxt) \<and> nxt < 3"
proof -
  have "HasFilterPlugins ex_filtering" "2 < length (snapshot_nodes ex_selector)" "length (snapshot_nodes ex_selector) = 3"
    by (simp_all add: ex_filtering_def ex_selector_def)
  then show ?thesis using schedulePod_never_panics [OF ex_ok, of 2 ex_moves "[CtxDone]" "[]" "\<lambda>k. k" "ex_pod ''p''"] by simp
qed

text \<open>Without filter plugins, score plugins and extenders the search asks for one node without
  looking whether there is any: when no name the prefilter plugins give exists, it divides by zero.\<close>

theorem no_candidates_panics:
  assumes "\<not> HasFilterPlugins F" and "\<not> HasScorePlugins C" and "sel_Extenders sched = []"
    and "UpdateSnapshot sched = None" and "snapshot_List sched = None" and "snapshot_nodes sched \<noteq> []"
    and "nominated_of F p = []" and "RunPreFilterPlugins F p = (preRes, Passed, u)"
    and "nodes_of_prefilter sched preRes = []"
  shows "schedulePod F C sched start moves1 moves2 order rnd p = Panics ''integer divide by zero''"
  using assms
  by (simp add: schedulePod_def findNodesThatFitPod_def find_among_def findNodesThatPassFilters_def Let_def
    numNodesToFind_def hasScoring_def word_sless_alt)

definition ex_bare :: filtering where
  "ex_bare = ex_filtering\<lparr>HasFilterPlugins := False, RunPreFilterPlugins := \<lambda>p. (Some [''n7''], Passed, None)\<rparr>"

theorem no_candidates_panics_witness:
  "schedulePod ex_bare (ex_scoring\<lparr>HasScorePlugins := False\<rparr>) ex_selector 0 [] [] [] (\<lambda>k. 0) (ex_pod ''p'') =
     Panics ''integer divide by zero''"
  by (rule no_candidates_panics [of _ _ _ _ "Some [''n7'']" None])
    (simp_all add: ex_bare_def ex_filtering_def ex_scoring_def ex_selector_def nodes_of_prefilter_def)

text \<open>C14: A pod that comes out of the scheduling cycle with a host, when schedulePod is the one
  above, was assumed on a node of the snapshot that passed the filters, and got its name.\<close>

theorem assumed_on_a_feasible_node:
  assumes "snapshot_ok sched" and "prefilter_ok F" and "scoring_ok C"
    and "\<forall>x \<in> set (sel_Extenders sched). extender_ok x"
    and "schedulePod F C sched start moves1 moves2 order rnd p = Returns (r, next)"
    and "fw_SchedulePod W p = map_sum id fst r"
    and "schedulingCycle S W p = ((result, assumed, st), effects)" and "SuggestedHost result \<noteq> []"
  shows "NodeName assumed = SuggestedHost result \<and> SuggestedHost result \<in> set (snapshot_nodes sched) \<and>
    (HasFilterPlugins F \<longrightarrow> RunFilterPluginsWithNominatedPods F p (SuggestedHost result) = Passed) \<and>
    Assumed assumed \<in> set effects"
proof (cases r)
  case (Inl e)
  then show ?thesis
    using assms(6-8) by (cases e) (auto simp: schedulingCycle_def failed_result_def split: if_splits)
next
  case (Inr x)
  obtain host ev k where x: "x = (host, ev, k)" by (metis prod_cases3)
  have feasible: "host \<in> set (snapshot_nodes sched) \<and>
      (HasFilterPlugins F \<longrightarrow> RunFilterPluginsWithNominatedPods F p host = Passed)"
    by (rule suggested_host_is_feasible [OF assms(1-4) assms(5) [unfolded Inr x]])
  show ?thesis
    using assms(6-8) Inr x feasible
    by (auto simp: schedulingCycle_def failed_result_def assume_pod_def Let_def split: if_splits option.splits)
qed

definition ex_cycle :: "bool framework" where
  "ex_cycle = (ex_framework True)\<lparr>fw_SchedulePod := \<lambda>p. Inr ''n2''\<rparr>"

theorem assumed_on_a_feasible_node_witness:
  "\<exists>result assumed st effects. schedulingCycle ex_status_ops ex_cycle (ex_pod ''p'') = ((result, assumed, st), effects) \<and>
     NodeName assumed = ''n2'' \<and> Assumed assumed \<in> set effects \<and>
     RunFilterPluginsWithNominatedPods ex_filtering (ex_pod ''p'') ''n2'' = Passed"
proof -
  obtain result assumed st effects where
    c: "schedulingCycle ex_status_ops ex_cycle (ex_pod ''p'') = ((result, assumed, st), effects)" by (metis surj_pair)
  have host: "SuggestedHost result = ''n2''"
    using c by (auto simp: schedulingCycle_def ex_cycle_def ex_framework_def ex_status_ops_def assume_pod_def Let_def)
  have fw: "fw_SchedulePod ex_cycle (ex_pod ''p'') = map_sum id fst (Inr (''n2'', 3, 2))" by (simp add: ex_cycle_def)
  have e: "\<forall>x \<in> set (sel_Extenders ex_selector). extender_ok x" "HasFilterPlugins ex_filtering"
    by (simp_all add: ex_selector_def ex_filtering_def)
  show ?thesis
    using assumed_on_a_feasible_node [OF ex_ok e(1) ex_search fw c] host e(2) c by simp
qed

end
