(* ===== verification/SchedulerSetup.thy ===== *)
theory SchedulerSetup
  imports FilterNodes
begin

text \<open>
  How a scheduler is put together, \<open>kubernetes/pkg/scheduler/scheduler.go\<close>: the options of \<open>New\<close>,
  the extenders, the table of queueing hints, the resources to watch, and the order in which \<open>New\<close>
  does these things and fails. The API machinery, the plugin registry and the profiles are not
  under src/: what they answer are parameters.
\<close>

section \<open>Options\<close>

datatype plugin_args = NodeResourcesFitArgs "string list" | OtherArgs string

record profile_config =
  pc_SchedulerName :: string
  PluginConfig :: "(string \<times> plugin_args) list"

record extender_config =
  URLPrefix :: string
  Ignorable :: bool
  ManagedResources :: "(string \<times> bool) list"    \<comment> \<open>name, \<open>IgnoredByScheduler\<close>\<close>

record 'r schedulerOptions =
  componentConfigVersion :: string
  kubeConfig :: "string option"
  opt_percentageOfNodesToScore :: int32
  podInitialBackoffSeconds :: int64
  podMaxBackoffSeconds :: int64
  podMaxInUnschedulablePodsDuration :: int64
  frameworkOutOfTreeRegistry :: "'r option"
  opt_profiles :: "profile_config list"
  opt_extenders :: "extender_config list"
  frameworkCapturer :: "(profile_config \<Rightarrow> unit) option"
  parallelism :: int32
  applyDefaultProfile :: bool

type_synonym 'r Option = "'r schedulerOptions \<Rightarrow> 'r schedulerOptions"

definition WithComponentConfigVersion :: "string \<Rightarrow> 'r Option" where
  "WithComponentConfigVersion apiVersion = (\<lambda>s. s\<lparr>componentConfigVersion := apiVersion\<rparr>)"

definition WithKubeConfig :: "string option \<Rightarrow> 'r Option" where
  "WithKubeConfig cfg = (\<lambda>s. s\<lparr>kubeConfig := cfg\<rparr>)"

definition WithProfiles :: "profile_config list \<Rightarrow> 'r Option" where
  "WithProfiles p = (\<lambda>s. s\<lparr>opt_profiles := p, applyDefaultProfile := False\<rparr>)"

definition WithParallelism :: "int32 \<Rightarrow> 'r Option" where
  "WithParallelism threads = (\<lambda>s. s\<lparr>parallelism := threads\<rparr>)"

definition WithPercentageOfNodesToScore :: "int32 option \<Rightarrow> 'r Option" where
  "WithPercentageOfNodesToScore p =
     (\<lambda>s. case p of None \<Rightarrow> s | Some n \<Rightarrow> s\<lparr>opt_percentageOfNodesToScore := n\<rparr>)"

definition WithFrameworkOutOfTreeRegistry :: "'r option \<Rightarrow> 'r Option" where
  "WithFrameworkOutOfTreeRegistry registry = (\<lambda>s. s\<lparr>frameworkOutOfTreeRegistry := registry\<rparr>)"

definition WithPodInitialBackoffSeconds :: "int64 \<Rightarrow> 'r Option" where
  "WithPodInitialBackoffSeconds n = (\<lambda>s. s\<lparr>podInitialBackoffSeconds := n\<rparr>)"

definition WithPodMaxBackoffSeconds :: "int64 \<Rightarrow> 'r Option" where
  "WithPodMaxBackoffSeconds n = (\<lambda>s. s\<lparr>podMaxBackoffSeconds := n\<rparr>)"

definition WithPodMaxInUnschedulablePodsDuration :: "int64 \<Rightarrow> 'r Option" where
  "WithPodMaxInUnschedulablePodsDuration duration = (\<lambda>s. s\<lparr>podMaxInUnschedulablePodsDuration := duration\<rparr>)"

definition WithExtenders :: "extender_config list \<Rightarrow> 'r Option" where
  "WithExtenders e = (\<lambda>s. s\<lparr>opt_extenders := e\<rparr>)"

definition WithBuildFrameworkCapturer :: "(profile_config \<Rightarrow> unit) option \<Rightarrow> 'r Option" where
  "WithBuildFrameworkCapturer fc = (\<lambda>s. s\<lparr>frameworkCapturer := fc\<rparr>)"

text \<open>The options start as \<open>defaultSchedulerOptions\<close>, whose numbers come from other packages, and
  are applied in order.\<close>

definition apply_options :: "'r schedulerOptions \<Rightarrow> 'r Option list \<Rightarrow> 'r schedulerOptions" where
  "apply_options defaults opts = fold (\<lambda>opt s. opt s) opts defaults"

section \<open>Extenders\<close>

fun split_extenders ::
  "(extender_config \<Rightarrow> goerror + extender) \<Rightarrow> extender_config list \<Rightarrow>
   goerror + (extender list \<times> extender list \<times> string list)" where
  "split_extenders mk [] = Inr ([], [], [])"
| "split_extenders mk (c # cs) =
     (case mk c of
        Inl e \<Rightarrow> Inl e
      | Inr x \<Rightarrow>
          (case split_extenders mk cs of
             Inl e \<Rightarrow> Inl e
           | Inr (fs, igs, rs) \<Rightarrow>
               Inr (if \<not> IsIgnorable x then x # fs else fs, if \<not> IsIgnorable x then igs else x # igs,
                    map fst (filter snd (ManagedResources c)) @ rs)))"

text \<open>The ignored resources go into the first entry of the plugin's configuration of a profile; the
  error leaves the profiles done before as they are now.\<close>

fun ignore_resources ::
  "string \<Rightarrow> string list \<Rightarrow> (string \<times> plugin_args) list \<Rightarrow> goerror + (string \<times> plugin_args) list" where
  "ignore_resources plugin rs [] = Inl (GoErr ''can't find NodeResourcesFitArgs in plugin config'')"
| "ignore_resources plugin rs ((name, args) # pcs) =
     (if name = plugin
      then (case args of
              NodeResourcesFitArgs _ \<Rightarrow> Inr ((name, NodeResourcesFitArgs rs) # pcs)
            | OtherArgs t \<Rightarrow> Inl (GoErr (''want args to be of type NodeResourcesFitArgs, got '' @ t)))
      else (case ignore_resources plugin rs pcs of Inl e \<Rightarrow> Inl e | Inr pcs' \<Rightarrow> Inr ((name, args) # pcs')))"

fun update_profiles ::
  "string \<Rightarrow> string list \<Rightarrow> profile_config list \<Rightarrow> goerror option \<times> profile_config list" where
  "update_profiles plugin rs [] = (None, [])"
| "update_profiles plugin rs (p # ps) =
     (case ignore_resources plugin rs (PluginConfig p) of
        Inl e \<Rightarrow> (Some e, p # ps)
      | Inr pcs \<Rightarrow>
          (let (err, ps') = update_profiles plugin rs ps in (err, p\<lparr>PluginConfig := pcs\<rparr> # ps')))"

text \<open>\<open>mk\<close> is \<open>NewHTTPExtender\<close>, \<open>plugin\<close> the name of the plugin that fits resources.\<close>

definition buildExtenders ::
  "(extender_config \<Rightarrow> goerror + extender) \<Rightarrow> string \<Rightarrow> extender_config list \<Rightarrow> profile_config list \<Rightarrow>
   (goerror + extender list) \<times> profile_config list" where
  "buildExtenders mk plugin extenders profiles =
     (if extenders = [] then (Inr [], profiles)
      else case split_extenders mk extenders of
             Inl e \<Rightarrow> (Inl e, profiles)
           | Inr (fExtenders, ignorableExtenders, ignoredExtendedResources) \<Rightarrow>
               if ignoredExtendedResources = [] then (Inr (fExtenders @ ignorableExtenders), profiles)
               else (case update_profiles plugin ignoredExtendedResources profiles of
                       (Some e, ps) \<Rightarrow> (Inl e, ps)
                     | (None, ps) \<Rightarrow> (Inr (fExtenders @ ignorableExtenders), ps)))"

section \<open>Queueing hints\<close>

text \<open>\<open>framework.ClusterEvent\<close>; action types are bits.\<close>

record ClusterEvent =
  Resource :: string
  ActionType :: int64
  ev_Label :: string

record 'f EnqueueExtensions =
  ee_Name :: string
  EventsToRegister :: "(ClusterEvent \<times> 'f option) list"

type_synonym 'f queueing_hints = "(ClusterEvent \<times> (string \<times> 'f) list) list"

text \<open>The constants of the framework that the code names: the node resource and two action bits;
  whether the feature gate is on; the default hint.\<close>

record 'f hint_consts =
  NodeResource :: string
  AddAction :: int64
  UpdateNodeTaint :: int64
  SchedulerQueueingHints :: bool
  defaultQueueingHintFn :: 'f

definition append_hint :: "ClusterEvent \<Rightarrow> string \<times> 'f \<Rightarrow> 'f queueing_hints \<Rightarrow> 'f queueing_hints" where
  "append_hint ev h m =
     AList.update ev ((case map_of m ev of None \<Rightarrow> [] | Some hs \<Rightarrow> hs) @ [h]) m"

definition hint_fn :: "'f hint_consts \<Rightarrow> 'f option \<Rightarrow> 'f" where
  "hint_fn K f = (case f of None \<Rightarrow> defaultQueueingHintFn K
                  | Some g \<Rightarrow> if \<not> SchedulerQueueingHints K then defaultQueueingHintFn K else g)"

definition registers :: "'f hint_consts \<Rightarrow> int64 \<Rightarrow> ClusterEvent \<Rightarrow> bool" where
  "registers K action ev \<longleftrightarrow> Resource ev = NodeResource K \<and> and (ActionType ev) action \<noteq> 0"

text \<open>One plugin: its events in order, and the two flags.\<close>

fun register_events ::
  "'f hint_consts \<Rightarrow> string \<Rightarrow> (ClusterEvent \<times> 'f option) list \<Rightarrow> bool \<Rightarrow> bool \<Rightarrow> 'f queueing_hints \<Rightarrow>
   bool \<times> bool \<times> 'f queueing_hints" where
  "register_events K name [] added taint m = (added, taint, m)"
| "register_events K name ((ev, f) # evs) added taint m =
     register_events K name evs (added \<or> registers K (AddAction K) ev) (taint \<or> registers K (UpdateNodeTaint K) ev)
       (append_hint ev (name, hint_fn K f) m)"

definition taint_event :: "'f hint_consts \<Rightarrow> ClusterEvent" where
  "taint_event K = \<lparr>Resource = NodeResource K, ActionType = UpdateNodeTaint K, ev_Label = []\<rparr>"

fun buildQueueingHintMap :: "'f hint_consts \<Rightarrow> 'f EnqueueExtensions list \<Rightarrow> 'f queueing_hints \<Rightarrow> 'f queueing_hints" where
  "buildQueueingHintMap K [] m = m"
| "buildQueueingHintMap K (e # es) m =
     (if EventsToRegister e = [] then buildQueueingHintMap K es m
      else let (added, taint, m) = register_events K (ee_Name e) (EventsToRegister e) False False m
           in buildQueueingHintMap K es
                (if added \<and> \<not> taint
                 then append_hint (taint_event K) (ee_Name e, defaultQueueingHintFn K) m
                 else m))"

section \<open>What to watch\<close>

definition union_event :: "ClusterEvent \<Rightarrow> (string \<times> int64) list \<Rightarrow> (string \<times> int64) list" where
  "union_event evt gvkMap =
     (case map_of gvkMap (Resource evt) of
        Some a \<Rightarrow> AList.update (Resource evt) (or a (ActionType evt)) gvkMap
      | None \<Rightarrow> AList.update (Resource evt) (ActionType evt) gvkMap)"

text \<open>The events of every profile, in the order the two maps are iterated.\<close>

definition unionedGVKs :: "ClusterEvent list list \<Rightarrow> (string \<times> int64) list" where
  "unionedGVKs queueingHintsPerProfile = fold union_event (concat queueingHintsPerProfile) []"

section \<open>New\<close>

record 'f profile =
  PreEnqueuePlugins :: "string list"
  prof_EnqueueExtensions :: "'f EnqueueExtensions list"

text \<open>What \<open>New\<close> asks of other packages; profiles and hints are keyed by scheduler name.\<close>

record ('r, 'f) new_env =
  default_profiles :: "goerror + profile_config list"
  merge_registry :: "'r option \<Rightarrow> goerror option"
  NewHTTPExtender :: "extender_config \<Rightarrow> goerror + extender"
  noderesources_Name :: string
  NewMap :: "'r schedulerOptions \<Rightarrow> extender list \<Rightarrow> goerror + (string \<times> 'f profile) list"
  hint_env :: "'f hint_consts"
  addAllEventHandlers :: "(string \<times> int64) list \<Rightarrow> goerror option"
  second_ns :: int64                \<comment> \<open>\<open>time.Second\<close>\<close>

record 'f new_scheduler =
  ns_Extenders :: "extender list"
  ns_percentageOfNodesToScore :: int32
  ns_nextStartNodeIndex :: nat
  ns_Profiles :: "(string \<times> 'f profile) list"
  ns_sorted_by :: string                 \<comment> \<open>the profile whose \<open>QueueSortFunc\<close> orders the queue\<close>
  ns_initialBackoff :: int64
  ns_maxBackoff :: int64
  ns_maxUnschedulable :: int64
  ns_preEnqueue :: "(string \<times> string list) list"
  ns_hints :: "(string \<times> 'f queueing_hints) list"
  ns_watched :: "(string \<times> int64) list"

definition New :: "('r, 'f) new_env \<Rightarrow> 'r schedulerOptions \<Rightarrow> 'r Option list \<Rightarrow> (goerror + 'f new_scheduler) outcome" where
  "New E defaults opts =
     (let options = apply_options defaults opts
      in case (if applyDefaultProfile options then default_profiles E else Inr (opt_profiles options)) of
           Inl e \<Rightarrow> Returns (Inl e)
         | Inr profs \<Rightarrow>
     (case merge_registry E (frameworkOutOfTreeRegistry options) of
        Some e \<Rightarrow> Returns (Inl e)
      | None \<Rightarrow>
     (case buildExtenders (NewHTTPExtender E) (noderesources_Name E) (opt_extenders options) profs of
        (Inl e, _) \<Rightarrow> Returns (Inl (Wrapped ''couldn't build extenders: '' e))
      | (Inr extenders, profs) \<Rightarrow>
     (case NewMap E (options\<lparr>opt_profiles := profs\<rparr>) extenders of
        Inl e \<Rightarrow> Returns (Inl (Wrapped ''initializing profiles: '' e))
      | Inr profiles \<Rightarrow>
     if profiles = [] then Returns (Inl (GoErr ''at least one profile is required''))
     else
     (let hints = map (\<lambda>(n, pr). (n, buildQueueingHintMap (hint_env E) (prof_EnqueueExtensions pr) [])) profiles;
          watched = unionedGVKs (map (\<lambda>(n, hs). map fst hs) hints)
      in case profs of
           [] \<Rightarrow> Panics ''index out of range''
         | first # _ \<Rightarrow>
             if map_of profiles (pc_SchedulerName first) = None then Panics ''nil pointer dereference''
             else case addAllEventHandlers E watched of
                    Some e \<Rightarrow> Returns (Inl (Wrapped ''adding event handlers: '' e))
                  | None \<Rightarrow> Returns (Inr \<lparr>ns_Extenders = extenders,
                      ns_percentageOfNodesToScore = opt_percentageOfNodesToScore options,
                      ns_nextStartNodeIndex = 0, ns_Profiles = profiles,
                      ns_sorted_by = pc_SchedulerName first,
                      ns_initialBackoff = podInitialBackoffSeconds options * second_ns E,
                      ns_maxBackoff = podMaxBackoffSeconds options * second_ns E,
                      ns_maxUnschedulable = podMaxInUnschedulablePodsDuration options,
                      ns_preEnqueue = map (\<lambda>(n, pr). (n, PreEnqueuePlugins pr)) profiles,
                      ns_hints = hints, ns_watched = watched\<rparr>))))))"

end
