(* ===== verification/SetupProps.thy ===== *)
theory SetupProps
  imports SchedulerSetup
begin

text \<open>
  The properties of a new scheduler: where its extenders stand, which hints its plugins get, and
  that it watches every event for which a plugin registered.
\<close>

section \<open>Extenders\<close>

lemma split_extenders_sound:
  "split_extenders mk cs = Inr (fs, igs, rs) \<Longrightarrow>
   \<exists>xs. map mk cs = map Inr xs \<and> fs = filter (\<lambda>x. \<not> IsIgnorable x) xs \<and> igs = filter IsIgnorable xs \<and>
     rs = concat (map (\<lambda>c. map fst (filter snd (ManagedResources c))) cs)"
proof (induction cs arbitrary: fs igs rs)
  case (Cons c cs)
  then obtain x fs' igs' rs' where c: "mk c = Inr x" "split_extenders mk cs = Inr (fs', igs', rs')"
    by (auto split: sum.splits)
  obtain xs where xs: "map mk cs = map Inr xs" "fs' = filter (\<lambda>x. \<not> IsIgnorable x) xs" "igs' = filter IsIgnorable xs"
    "rs' = concat (map (\<lambda>c. map fst (filter snd (ManagedResources c))) cs)"
    using Cons.IH [OF c(2)] by blast
  show ?case
    using Cons.prems c xs by (intro exI [of _ "x # xs"]) auto
qed simp

text \<open>When buildExtenders succeeds it made an extender of every configuration, kept the order, and put the
  ignorable ones behind all others.\<close>

theorem ignorable_extenders_come_last:
  assumes "buildExtenders mk plugin cs profiles = (Inr res, profiles')"
  shows "\<exists>xs. map mk cs = map Inr xs \<and> res = filter (\<lambda>x. \<not> IsIgnorable x) xs @ filter IsIgnorable xs"
proof (cases "cs = []")
  case False
  then obtain fs igs rs where s: "split_extenders mk cs = Inr (fs, igs, rs)"
    using assms by (cases "split_extenders mk cs") (auto simp: buildExtenders_def)
  then have "res = fs @ igs"
    using assms False by (auto simp: buildExtenders_def split: if_splits prod.splits option.splits)
  then show ?thesis using split_extenders_sound [OF s] by blast
qed (use assms in \<open>simp add: buildExtenders_def\<close>)

definition ex_make :: "extender_config \<Rightarrow> goerror + extender" where
  "ex_make c = Inr \<lparr>IsInterested = (\<lambda>p. True), IsIgnorable = Ignorable c, IsFilter = True, IsPrioritizer = False,
     IsBinder = False, ext_Name = URLPrefix c, Filter = (\<lambda>p ns. Inl (GoErr ''down'')),
     Prioritize = (\<lambda>p ns. Inl (GoErr ''down'')), ext_Bind = (\<lambda>p n. None)\<rparr>"

definition ex_config :: "string \<Rightarrow> bool \<Rightarrow> extender_config" where
  "ex_config url ignorable = \<lparr>URLPrefix = url, Ignorable = ignorable, ManagedResources = []\<rparr>"

theorem ignorable_extenders_come_last_witness:
  "\<exists>res. buildExtenders ex_make ''Fit'' [ex_config ''a'' True, ex_config ''b'' False, ex_config ''c'' True] [] = (Inr res, []) \<and>
     map ext_Name res = [''b'', ''a'', ''c'']"
proof -
  let ?cs = "[ex_config ''a'' True, ex_config ''b'' False, ex_config ''c'' True]"
  obtain res where r: "buildExtenders ex_make ''Fit'' ?cs [] = (Inr res, [])"
    by (simp add: buildExtenders_def ex_make_def ex_config_def)
  obtain xs where "map ex_make ?cs = map Inr xs" "res = filter (\<lambda>x. \<not> IsIgnorable x) xs @ filter IsIgnorable xs"
    using ignorable_extenders_come_last [OF r] by blast
  then show ?thesis using r by (auto simp: ex_make_def ex_config_def Cons_eq_map_conv map_eq_Cons_conv)
qed

section \<open>Hints\<close>

definition hints_at :: "'f queueing_hints \<Rightarrow> ClusterEvent \<Rightarrow> (string \<times> 'f) list" where
  "hints_at m ev = (case map_of m ev of None \<Rightarrow> [] | Some hs \<Rightarrow> hs)"

text \<open>What a plugin contributes to an event.\<close>

definition plugin_hints :: "'f hint_consts \<Rightarrow> ClusterEvent \<Rightarrow> 'f EnqueueExtensions \<Rightarrow> (string \<times> 'f) list" where
  "plugin_hints K ev e =
     map (\<lambda>(_, f). (ee_Name e, hint_fn K f)) (filter (\<lambda>(ev', _). ev' = ev) (EventsToRegister e)) @
     (if ev = taint_event K \<and> (\<exists>(ev', _) \<in> set (EventsToRegister e). registers K (AddAction K) ev') \<and>
         \<not> (\<exists>(ev', _) \<in> set (EventsToRegister e). registers K (UpdateNodeTaint K) ev')
      then [(ee_Name e, defaultQueueingHintFn K)] else [])"

lemma hints_at_append: "hints_at (append_hint ev' h m) ev = hints_at m ev @ (if ev' = ev then [h] else [])"
  by (auto simp: hints_at_def append_hint_def update_conv')

lemma register_events_sound:
  "register_events K name evs added taint m = (added', taint', m') \<Longrightarrow>
   hints_at m' ev = hints_at m ev @ map (\<lambda>(_, f). (name, hint_fn K f)) (filter (\<lambda>(ev', _). ev' = ev) evs) \<and>
   (added' \<longleftrightarrow> added \<or> (\<exists>(ev', _) \<in> set evs. registers K (AddAction K) ev')) \<and>
   (taint' \<longleftrightarrow> taint \<or> (\<exists>(ev', _) \<in> set evs. registers K (UpdateNodeTaint K) ev'))"
proof (induction K name evs added taint m rule: register_events.induct)
  case (2 K name e f evs added taint m)
  then show ?case by (auto simp: hints_at_append)
qed simp

text \<open>The table of hints holds, for every event, what the plugins registered for it in their
  order, and one default hint on node taints for each plugin that waits for added nodes and not
  for changed taints. The feature gate replaces every hint by the default.\<close>

lemma hints_of_the_plugins:
  "hints_at (buildQueueingHintMap K es m) ev = hints_at m ev @ concat (map (plugin_hints K ev) es)"
proof (induction K es m rule: buildQueueingHintMap.induct)
  case (2 K e es m)
  obtain added taint m1 where r: "register_events K (ee_Name e) (EventsToRegister e) False False m = (added, taint, m1)"
    by (metis prod_cases3)
  note s = register_events_sound [OF r, of ev]
  show ?case
  proof (cases "EventsToRegister e = []")
    case True
    then show ?thesis using 2(1) by (simp add: plugin_hints_def)
  next
    case False
    then show ?thesis using 2(2) [OF False r [symmetric] refl refl] s r
      by (auto simp: plugin_hints_def hints_at_append)
  qed
qed simp

section \<open>What is watched\<close>

lemma union_event_bit:
  "(case map_of (union_event evt m) r of None \<Rightarrow> False | Some a \<Rightarrow> bit a k) \<longleftrightarrow>
     (case map_of m r of None \<Rightarrow> False | Some a \<Rightarrow> bit a k) \<or> Resource evt = r \<and> bit (ActionType evt) k"
  by (auto simp: union_event_def update_conv' bit_or_iff split: option.splits)

lemma union_event_dom: "dom (map_of (union_event evt m)) = insert (Resource evt) (dom (map_of m))"
  by (auto simp: union_event_def update_conv' split: option.splits if_splits)

text \<open>The union: a bit is set for a resource when some event sets it.\<close>

lemma unionedGVKs_bit:
  "(case map_of (unionedGVKs hs) r of None \<Rightarrow> False | Some a \<Rightarrow> bit a k) \<longleftrightarrow>
     (\<exists>evt \<in> set (concat hs). Resource evt = r \<and> bit (ActionType evt) k)"
proof -
  have "(case map_of (fold union_event evs m) r of None \<Rightarrow> False | Some a \<Rightarrow> bit a k) \<longleftrightarrow>
      (case map_of m r of None \<Rightarrow> False | Some a \<Rightarrow> bit a k) \<or> (\<exists>evt \<in> set evs. Resource evt = r \<and> bit (ActionType evt) k)" for evs m
    by (induction evs arbitrary: m) (auto simp: union_event_bit)
  then show ?thesis by (simp add: unionedGVKs_def)
qed

lemma unionedGVKs_dom: "dom (map_of (unionedGVKs hs)) = Resource ` set (concat hs)"
proof -
  have "dom (map_of (fold union_event evs m)) = dom (map_of m) \<union> Resource ` set evs" for evs m
    by (induction evs arbitrary: m) (auto simp: union_event_dom)
  then show ?thesis by (simp add: unionedGVKs_def)
qed

lemma hints_at_nonempty: "hints_at m ev \<noteq> [] \<Longrightarrow> ev \<in> set (map fst m)"
  by (force simp: hints_at_def split: option.splits dest: map_of_SomeD)

text \<open>C36: A new scheduler watches every event that some plugin of some profile registered for:
  the resource is watched, for all the actions of the event.\<close>

theorem registered_events_are_watched:
  assumes "New E defaults opts = Returns (Inr s)"
    and "(name, pr) \<in> set (ns_Profiles s)" and "e \<in> set (prof_EnqueueExtensions pr)"
    and "(ev, f) \<in> set (EventsToRegister e)"
  shows "\<exists>a. map_of (ns_watched s) (Resource ev) = Some a \<and> and a (ActionType ev) = ActionType ev"
proof -
  let ?hints = "\<lambda>pr. buildQueueingHintMap (hint_env E) (prof_EnqueueExtensions pr) []"
  have w: "ns_watched s = unionedGVKs (map (\<lambda>(n, pr). map fst (?hints pr)) (ns_Profiles s))"
    using assms(1)
    by (auto simp: New_def Let_def comp_def case_prod_unfold split: sum.splits option.splits if_splits prod.splits list.splits)
  have "plugin_hints (hint_env E) ev e \<noteq> []"
    using assms(4) by (force simp: plugin_hints_def filter_empty_conv)
  then have "hints_at (?hints pr) ev \<noteq> []"
    using assms(3) unfolding hints_of_the_plugins by auto
  then have "ev \<in> set (map fst (?hints pr))" by (rule hints_at_nonempty)
  then have ev: "ev \<in> set (concat (map (\<lambda>(n, pr). map fst (?hints pr)) (ns_Profiles s)))"
    using assms(2) by force
  then obtain a where a: "map_of (ns_watched s) (Resource ev) = Some a"
    using unionedGVKs_dom [of "map (\<lambda>(n, pr). map fst (?hints pr)) (ns_Profiles s)"] unfolding w by blast
  have "bit a k" if "bit (ActionType ev) k" for k
    using unionedGVKs_bit [where hs = "map (\<lambda>(n, pr). map fst (?hints pr)) (ns_Profiles s)" and r = "Resource ev" and k = k] a that ev
    unfolding w by auto
  then have "and a (ActionType ev) = ActionType ev" by (intro bit_eqI) (auto simp: bit_and_iff)
  then show ?thesis using a by blast
qed

definition ex_events :: "unit EnqueueExtensions" where
  "ex_events = \<lparr>ee_Name = ''Fit'', EventsToRegister =
     [(\<lparr>Resource = ''Node'', ActionType = 5, ev_Label = []\<rparr>, None), (\<lparr>Resource = ''Pod'', ActionType = 2, ev_Label = []\<rparr>, Some ())]\<rparr>"

definition ex_new_env :: "(unit, unit) new_env" where
  "ex_new_env = \<lparr>default_profiles = Inr [], merge_registry = (\<lambda>r. None), NewHTTPExtender = ex_make,
     noderesources_Name = ''NodeResourcesFit'',
     NewMap = (\<lambda>opts xs. Inr (map (\<lambda>p. (pc_SchedulerName p, \<lparr>PreEnqueuePlugins = [], prof_EnqueueExtensions = [ex_events]\<rparr>))
       (opt_profiles opts))),
     hint_env = \<lparr>NodeResource = ''Node'', AddAction = 1, UpdateNodeTaint = 16, SchedulerQueueingHints = True,
       defaultQueueingHintFn = ()\<rparr>,
     addAllEventHandlers = (\<lambda>gvks. None), second_ns = 1000000000\<rparr>"

definition ex_options :: "unit schedulerOptions" where
  "ex_options = \<lparr>componentConfigVersion = [], kubeConfig = None, opt_percentageOfNodesToScore = 0,
     podInitialBackoffSeconds = 1, podMaxBackoffSeconds = 10, podMaxInUnschedulablePodsDuration = 300000000000,
     frameworkOutOfTreeRegistry = None, opt_profiles = [], opt_extenders = [], frameworkCapturer = None,
     parallelism = 16, applyDefaultProfile = True\<rparr>"

theorem registered_events_are_watched_witness:
  "\<exists>s a. New ex_new_env ex_options [WithProfiles [\<lparr>pc_SchedulerName = ''fluxnetes'', PluginConfig = []\<rparr>]] = Returns (Inr s) \<and>
     map_of (ns_watched s) ''Node'' = Some a \<and> and a 5 = 5"
proof -
  obtain s where s: "New ex_new_env ex_options [WithProfiles [\<lparr>pc_SchedulerName = ''fluxnetes'', PluginConfig = []\<rparr>]] = Returns (Inr s)"
    "ns_Profiles s = [(''fluxnetes'', \<lparr>PreEnqueuePlugins = [], prof_EnqueueExtensions = [ex_events]\<rparr>)]"
    by (auto simp: New_def ex_new_env_def ex_options_def apply_options_def WithProfiles_def buildExtenders_def)
  have "\<exists>a. map_of (ns_watched s) (Resource \<lparr>Resource = ''Node'', ActionType = 5, ev_Label = []\<rparr>) = Some a \<and>
      and a (ActionType \<lparr>Resource = ''Node'', ActionType = 5, ev_Label = []\<rparr>) = ActionType \<lparr>Resource = ''Node'', ActionType = 5, ev_Label = []\<rparr>"
  proof (rule registered_events_are_watched [OF s(1)])
    show "(''fluxnetes'', \<lparr>PreEnqueuePlugins = [], prof_EnqueueExtensions = [ex_events]\<rparr>) \<in> set (ns_Profiles s)"
      by (simp add: s(2))
    show "ex_events \<in> set (prof_EnqueueExtensions \<lparr>PreEnqueuePlugins = [], prof_EnqueueExtensions = [ex_events]\<rparr>)"
      by simp
    show "(\<lparr>Resource = ''Node'', ActionType = 5, ev_Label = []\<rparr>, None) \<in> set (EventsToRegister ex_events)"
      by (simp add: ex_events_def)
  qed
  then show ?thesis using s(1) by auto
qed

end
