(* ===== verification/ServiceEntry.thy ===== *)
theory ServiceEntry
  imports Fluxion Cluster
begin

text \<open>
  The start of the Fluxion service, \<open>InitFluxion\<close> of \<open>src/fluxnetes/pkg/fluxion/fluxion.go\<close> and
  \<open>main\<close> of \<open>src/fluxnetes/cmd/main.go\<close>, and the handlers of the external service in
  \<open>src/fluxnetes/pkg/service/service.go\<close>. Flag parsing, \<open>net.Listen\<close>, the gRPC server and
  the errors of the file system are parameters; the contents of the files are a state.
\<close>

section \<open>InitFluxion\<close>

definition KubernetesJsonGraphFormat :: string where
  "KubernetesJsonGraphFormat = ''/home/data/jgf/kubecluster.json''"

text \<open>\<open>os.ReadFile\<close>.\<close>

definition ReadFile :: "file_io \<Rightarrow> files \<Rightarrow> string \<Rightarrow> goerror + string" where
  "ReadFile io fs path =
     (case os_read io path of
        Some e \<Rightarrow> Inl e
      | None \<Rightarrow> (case fs path of None \<Rightarrow> Inl (GoErr ''no such file or directory'') | Some txt \<Rightarrow> Inr txt))"

text \<open>The result is what \<open>InitContext\<close> gets, the graph and the options; \<open>None\<close> when the function
  returns before: the caller is not told.\<close>

definition InitFluxion ::
  "('p, 'q) cluster_client \<Rightarrow> 'q quantity_ops \<Rightarrow> file_io \<Rightarrow>
   string \<Rightarrow> string \<Rightarrow> files \<Rightarrow> ((string \<times> string) option \<times> files) outcome" where
  "InitFluxion api q io policy label fs =
     bind_outcome (CreateInClusterJGF api q io KubernetesJsonGraphFormat label fs) (\<lambda>(r, fs).
       case r of
         Inl e \<Rightarrow> Returns (None, fs)
       | Inr g \<Rightarrow>
           (case ReadFile io fs KubernetesJsonGraphFormat of
              Inl e \<Rightarrow> Returns (None, fs)
            | Inr jgf \<Rightarrow> Returns (Some (jgf, match_options policy), fs)))"

text \<open>\<open>Destroy\<close> is the library's release of a context.\<close>

definition Close :: "('cli \<Rightarrow> 'cli) \<Rightarrow> 'cli \<Rightarrow> 'cli" where
  "Close Destroy cli = Destroy cli"

section \<open>main\<close>

record service_flags =
  flag_policy :: string
  flag_label :: string
  flag_port :: string
  flag_external_service :: bool

definition defaultPort :: string where "defaultPort = '':4242''"
definition enableExternalService :: bool where "enableExternalService = False"

text \<open>The flags of a command line that gives none.\<close>

definition default_flags :: service_flags where
  "default_flags = \<lparr>flag_policy = [], flag_label = [], flag_port = defaultPort,
     flag_external_service = enableExternalService\<rparr>"

text \<open>Ensure our port starts with a colon; the arguments are in the order of the source.\<close>

definition server_port :: "string \<Rightarrow> string" where
  "server_port port = (if \<not> strings_HasPrefix '':'' port then '':'' @ port else port)"

record served =
  sv_address :: string
  sv_context :: "(string \<times> string) option"
  sv_external :: bool

text \<open>After an error of \<open>net.Listen\<close> the code goes on, and asks the nil listener for its address.\<close>

definition main ::
  "('p, 'q) cluster_client \<Rightarrow> 'q quantity_ops \<Rightarrow> file_io \<Rightarrow>
   (string \<Rightarrow> goerror option) \<Rightarrow> service_flags \<Rightarrow> files \<Rightarrow> (served \<times> files) outcome" where
  "main api q io listen flags fs =
     (let port = server_port (flag_port flags)
      in bind_outcome (InitFluxion api q io (flag_policy flags) (flag_label flags) fs) (\<lambda>(ctx, fs).
           if listen port \<noteq> None then Panics ''nil pointer dereference''
           else Returns (\<lparr>sv_address = port, sv_context = ctx, sv_external = flag_external_service flags\<rparr>, fs)))"

section \<open>The external service\<close>

definition GetGroup :: "string \<Rightarrow> goerror + string" where
  "GetGroup request = Inr []"

definition ListGroups :: "string \<Rightarrow> goerror + string" where
  "ListGroups request = Inr []"

text \<open>The response carries the graph; on an error it is the empty one.\<close>

definition GetResources :: "file_io \<Rightarrow> files \<Rightarrow> string \<times> goerror option" where
  "GetResources io fs =
     (case ReadFile io fs KubernetesJsonGraphFormat of Inl e \<Rightarrow> ([], Some e) | Inr jgf \<Rightarrow> (jgf, None))"

end
