(* ===== verification/EntryProps.thy ===== *)
theory EntryProps
  imports ServiceEntry ServiceProps
begin

text \<open>
  What the start of the Fluxion service guarantees: the library and the external service see the
  graph that was built, and where the start goes wrong without telling.
\<close>

lemma server_port_cases:
  "server_port port = (if port = [] \<or> port = '':'' then port else '':'' @ port)"
  by (cases port; cases "tl port") (auto simp: server_port_def)

text \<open>What \<open>net.Listen\<close> promises of addresses: a host without brackets has no colon.\<close>

definition listen_ok :: "(string \<Rightarrow> goerror option) \<Rightarrow> bool" where
  "listen_ok listen \<longleftrightarrow> (\<forall>rest. listen (''::'' @ rest) \<noteq> None)"

text \<open>The check of the port has its arguments swapped, so that every port gets one more colon: with
  the default flags, or any port that starts with a colon and a digit, the service does not come up.\<close>

theorem colon_port_is_refused:
  assumes "listen_ok listen" and "flag_port flags = CHR '':'' # d # rest"
  shows "\<exists>m. main api q io listen flags fs = Panics m"
proof (cases "InitFluxion api q io (flag_policy flags) (flag_label flags) fs")
  case (Returns ctx)
  have "server_port (flag_port flags) = ''::'' @ d # rest" using assms(2) by (simp add: server_port_cases)
  then show ?thesis using assms(1) Returns by (auto simp: main_def Let_def listen_ok_def split: prod.split)
qed (simp add: main_def Let_def)

definition ex_listen :: "string \<Rightarrow> goerror option" where
  "ex_listen a = (if take 2 a = ''::'' then Some (GoErr ''too many colons in address'') else None)"

theorem colon_port_is_refused_witness:
  "(\<exists>m. main ex_client ex_ops ex_output ex_listen default_flags Map.empty = Panics m) \<and>
   ex_listen '':4242'' = None"
  using colon_port_is_refused [of ex_listen default_flags "CHR ''4''" "''242''" ex_client ex_ops ex_output Map.empty]
  by (simp add: listen_ok_def ex_listen_def default_flags_def defaultPort_def)




end
