(* ===== verification/PodInformer.thy ===== *)
theory PodInformer
  imports QueueManager
begin

text \<open>
  The pod informer: what \<open>newPodInformer\<close> and \<open>NewInformerFactory\<close> of
  \<open>kubernetes/pkg/scheduler/scheduler.go\<close> ask the API machinery to watch, and the handlers that
  \<open>GetInformer\<close> of \<open>kubernetes/pkg/fluxnetes/queue.go\<close> registers, with \<open>UpdatePodEvent\<close> of
  \<open>events.go\<close>. The API server's reading of a field selector and the notifications of a watch are
  not under src/: they are the fields of \<open>machinery\<close>.
\<close>

section \<open>What is watched\<close>

definition PodSucceeded :: string where "PodSucceeded = ''Succeeded''"
definition PodFailed :: string where "PodFailed = ''Failed''"

record pod_informer =
  inf_namespace :: string
  inf_resync :: int
  inf_selector :: string

definition NamespaceAll :: string where "NamespaceAll = []"

definition newPodInformer :: "int \<Rightarrow> pod_informer" where
  "newPodInformer resyncPeriod =
     \<lparr>inf_namespace = NamespaceAll, inf_resync = resyncPeriod,
      inf_selector = ''status.phase!='' @ PodSucceeded @ '',status.phase!='' @ PodFailed\<rparr>"

text \<open>The transform of the informer: an object that has metadata loses its managed fields.\<close>

datatype ('m, 'o) api_object = WithMeta "'m list option" 'o | NoMeta 'o

fun trim :: "('m, 'o) api_object \<Rightarrow> ('m, 'o) api_object" where
  "trim (NoMeta x) = NoMeta x"
| "trim (WithMeta mf x) = (if mf \<noteq> None then WithMeta None x else WithMeta mf x)"

text \<open>The factory makes its pod informer with the function above.\<close>

definition NewInformerFactory :: "int \<Rightarrow> (string \<times> (int \<Rightarrow> pod_informer)) list" where
  "NewInformerFactory resyncPeriod = [(''Pod'', newPodInformer)]"

section \<open>Handlers\<close>

text \<open>What the cache hands to a delete handler: the pod, or a tombstone when the deletion itself was
  missed.\<close>

datatype cache_object = PodObject pod | Tombstone pod

datatype notification = PodAdded pod | PodUpdated pod pod | PodDeleted cache_object

text \<open>The line \<open>UpdatePodEvent\<close> logs. The default case gives four values to three verbs.\<close>

definition UpdatePodEvent :: "pod \<Rightarrow> pod \<Rightarrow> string" where
  "UpdatePodEvent p newPod =
     (let known = [''Pending'', ''Running'', PodSucceeded, PodFailed, ''Unknown'']
      in if Phase p \<in> set known
         then ''Received update event '' @ [CHR 0x27] @ Phase p @ [CHR 0x27] @ '' to '' @ [CHR 0x27] @ Phase newPod @ [CHR 0x27] @
              '' for pod '' @ Namespace p @ ''/'' @ Name p
         else ''Received unknown update event '' @ Phase newPod @ '' for pod '' @ Phase p @ ''/'' @ Namespace p @
              ''%!(EXTRA string='' @ Name p @ '')'')"

text \<open>The handlers of \<open>GetInformer\<close>: none for an added pod; the delete handler asserts that it is
  given a pod.\<close>

definition GetInformer ::
  "dbenv \<Rightarrow> codec \<Rightarrow> kube_api \<Rightarrow> flux_client \<Rightarrow> live_pods \<Rightarrow> notification \<Rightarrow> world \<Rightarrow> (string list \<times> world) outcome" where
  "GetInformer E C K F L n w =
     (case n of
        PodAdded p \<Rightarrow> Returns ([], w)
      | PodUpdated oldObj newObj \<Rightarrow> Returns ([UpdatePodEvent oldObj newObj], w)
      | PodDeleted (PodObject p) \<Rightarrow> Returns ([], DeletePodEvent E C K F L p w)
      | PodDeleted (Tombstone p) \<Rightarrow> Panics ''interface conversion'')"

fun notify_all ::
  "(notification \<Rightarrow> world \<Rightarrow> (string list \<times> world) outcome) \<Rightarrow> notification list \<Rightarrow> world \<Rightarrow> world outcome" where
  "notify_all handler [] w = Returns w"
| "notify_all handler (n # ns) w = bind_outcome (handler n w) (\<lambda>(log, w'). notify_all handler ns w')"

section \<open>The API machinery\<close>

text \<open>\<open>notifications\<close> are those of a watch with a selection for a pod that goes from one state to
  another, \<open>None\<close> for a pod that is not there; the documented behaviour of the two. A selector joins
  its conditions with commas, so that the values it compares with have none.\<close>

record machinery =
  field_select :: "string \<Rightarrow> pod \<Rightarrow> bool"
  notifications :: "(pod \<Rightarrow> bool) \<Rightarrow> pod option \<Rightarrow> pod option \<Rightarrow> notification list"

definition seen :: "(pod \<Rightarrow> bool) \<Rightarrow> pod option \<Rightarrow> pod option" where
  "seen sel p = (case p of None \<Rightarrow> None | Some x \<Rightarrow> if sel x then Some x else None)"

definition machinery_ok :: "machinery \<Rightarrow> bool" where
  "machinery_ok A \<longleftrightarrow>
     (\<forall>a b p. CHR '','' \<notin> set a \<union> set b \<longrightarrow>
        field_select A (''status.phase!='' @ a @ '',status.phase!='' @ b) p = (Phase p \<noteq> a \<and> Phase p \<noteq> b)) \<and>
     (\<forall>sel before after. notifications A sel before after =
        (case (seen sel before, seen sel after) of
           (None, None) \<Rightarrow> []
         | (None, Some p) \<Rightarrow> [PodAdded p]
         | (Some p, Some p') \<Rightarrow> [PodUpdated p p']
         | (Some p, None) \<Rightarrow> [PodDeleted (PodObject p)]))"

text \<open>A pod changes, and the informer of the queue tells its handlers.\<close>

definition pod_changes ::
  "machinery \<Rightarrow> dbenv \<Rightarrow> codec \<Rightarrow> kube_api \<Rightarrow> flux_client \<Rightarrow> live_pods \<Rightarrow> pod option \<Rightarrow> pod option \<Rightarrow>
   world \<Rightarrow> world outcome" where
  "pod_changes A E C K F L before after w =
     notify_all (GetInformer E C K F L)
       (notifications A (field_select A (inf_selector (newPodInformer 0))) before after) w"

definition terminal :: "pod \<Rightarrow> bool" where
  "terminal p \<longleftrightarrow> Phase p = PodSucceeded \<or> Phase p = PodFailed"

lemma informer_sees:
  assumes "machinery_ok A"
  shows "field_select A (inf_selector (newPodInformer n)) p \<longleftrightarrow> \<not> terminal p"
proof -
  have "CHR '','' \<notin> set PodSucceeded \<union> set PodFailed" by (simp add: PodSucceeded_def PodFailed_def)
  with assms have "field_select A (''status.phase!='' @ PodSucceeded @ '',status.phase!='' @ PodFailed) p =
      (Phase p \<noteq> PodSucceeded \<and> Phase p \<noteq> PodFailed)"
    unfolding machinery_ok_def by blast
  then show ?thesis by (simp only: newPodInformer_def pod_informer.simps terminal_def) simp
qed

text \<open>A pod that finishes is, for the handlers, a pod that is deleted.\<close>

lemma pod_changes_eq:
  assumes "machinery_ok A"
  shows "pod_changes A E C K F L before after w =
    (case before of
       Some p \<Rightarrow> if \<not> terminal p \<and> (case after of None \<Rightarrow> True | Some p' \<Rightarrow> terminal p')
                 then Returns (DeletePodEvent E C K F L p w) else Returns w
     | None \<Rightarrow> Returns w)"
proof -
  have "field_select A (inf_selector (newPodInformer 0)) = (\<lambda>p. \<not> terminal p)"
    using informer_sees [OF assms] by (simp add: fun_eq_iff)
  then show ?thesis
    using assms by (simp add: pod_changes_def machinery_ok_def seen_def GetInformer_def split: option.splits)
qed

end
