(* ===== verification/InformerProps.thy ===== *)
theory InformerProps
  imports PodInformer WorkerProps
begin

text \<open>
  The end of a job: what the informer makes of a change of a pod, and how the allocation of a group
  whose pods are all done goes back to Fluxion.
\<close>

section \<open>An allocation goes back\<close>

text \<open>C6: how an allocation goes back to Fluxion, when no call is lost: after a worker has
  recorded an allocation for a pending group (Fluxion allocated without a reservation, with an id that
  the column can hold; the podspec has a deadline if the job has a duration), a pod of the group that
  was running and then finishes or is removed reaches the delete handler of the queue. It sends
  exactly one cancel, for that allocation, if every stored pod of the group is over, and nothing
  otherwise; a pod that appears, changes while it runs, or had finished before, changes nothing. A
  stored pod is over if the API server has it in a terminal phase or cannot say; one that the server
  no longer has counts by the phase of the object the client returns with its error, and as long as
  that phase, the empty one, is not terminal, the removal of a pod gives nothing back.\<close>

theorem allocation_goes_back:
  assumes A: "machinery_ok A" and E: "scans_ok E"
    and work: "tape w = []" "unmarshal C (ja_Podspec a) = Inr p" "match_rpc F (request_of C a p) = Inr resp"
      "mp_Allocated resp" "\<not> mp_Reserved resp" "0 < ja_Duration a \<longrightarrow> ActiveDeadlineSeconds p \<noteq> None"
      "int4_range (uint (mp_FluxID resp))"
    and row: "row \<in> set (river_job (tables w))" "rj_id row = jobid" "rj_args row = encode_JobArgs a"
    and pending: "(ja_GroupName a, ja_Namespace a) \<in> pending_key ` set (pending_queue (tables w))"
  shows "\<exists>w1. Work now C F jobid a w = (Returns None, w1) \<and>
    (\<forall>before after. \<exists>w2. pod_changes A E C K F L before after w1 = Returns w2 \<and>
       (case before of
          None \<Rightarrow> w2 = w1
        | Some q \<Rightarrow>
            if terminal q \<or> (\<exists>q'. after = Some q' \<and> \<not> terminal q') then w2 = w1
            else (GetPodGroupName q, Namespace q) = (ja_GroupName a, ja_Namespace a) \<longrightarrow>
              sent w2 = sent w1 @
                (if \<forall>r \<in> set (pods_of (tables w) (ja_GroupName a, ja_Namespace a)). pod_over L r
                 then [SentCancel \<lparr>cr_FluxID = mp_FluxID resp, cr_NoExistOK = True\<rparr>] else [])))"
proof -
  let ?k = "(ja_GroupName a, ja_Namespace a)"
  obtain w1 where w1: "Work now C F jobid a w = (Returns None, w1)" "tape w1 = []"
    "pods_provisional (tables w1) = pods_provisional (tables w)"
    "row_of pending_key (pending_queue (tables w1)) = (row_of pending_key (pending_queue (tables w)))(?k :=
         map_option (\<lambda>r. r\<lparr>pq_flux_id := Some (uint (mp_FluxID resp))\<rparr>) (row_of pending_key (pending_queue (tables w)) ?k))"
    using allocation_recorded [OF work row, of now] by blast
  have "row_of pending_key (pending_queue (tables w)) ?k \<noteq> None"
    using pending unfolding row_of_None by (auto simp del: split_paired_All)
  then have id: "group_flux_id (tables w1) ?k = Some (uint (mp_FluxID resp))"
    using w1(4) by (auto simp: group_flux_id_def)
  have over: "group_over L ?k (tables w1) \<longleftrightarrow> (\<forall>r \<in> set (pods_of (tables w) ?k). pod_over L r)"
    using w1(3) by (auto simp: group_over_def pods_of_def)
  have "sent (DeletePodEvent E C K F L q w1) = sent w1 @
      (if \<forall>r \<in> set (pods_of (tables w) ?k). pod_over L r
       then [SentCancel \<lparr>cr_FluxID = mp_FluxID resp, cr_NoExistOK = True\<rparr>] else [])"
    if "(GetPodGroupName q, Namespace q) = ?k" for q
    using DeletePodEvent_sent [OF E w1(2), of C K F L q] unfolding that over id by simp
  then show ?thesis
    using w1(1) pod_changes_eq [OF A, of E C K F L _ _ w1]
    by (intro exI [of _ w1]) (auto split: option.splits)
qed

text \<open>A machinery that reads the conditions of a selector one by one.\<close>

definition ex_machinery :: machinery where
  "ex_machinery =
     \<lparr>field_select = (\<lambda>s p. list_all (\<lambda>c. take 14 c = ''status.phase!='' \<and> Phase p \<noteq> drop 14 c) (split_char (CHR '','') s)),
      notifications = (\<lambda>sel before after.
        case (seen sel before, seen sel after) of
          (None, None) \<Rightarrow> []
        | (None, Some p) \<Rightarrow> [PodAdded p]
        | (Some p, Some p') \<Rightarrow> [PodUpdated p p']
        | (Some p, None) \<Rightarrow> [PodDeleted (PodObject p)])\<rparr>"

lemma ex_machinery_ok: "machinery_ok ex_machinery"
proof -
  have "split_char (CHR '','') (''status.phase!='' @ a @ '',status.phase!='' @ b) = [''status.phase!='' @ a, ''status.phase!='' @ b]"
    if "CHR '','' \<notin> set a \<union> set b" for a b
    using that split_char_Join [of "[''status.phase!='' @ a, ''status.phase!='' @ b]" "CHR '',''"] by simp
  moreover have "take 14 (''status.phase!='' @ a) = ''status.phase!''  @ ''=''" "drop 14 (''status.phase!='' @ a) = a" for a
    by (simp_all add: numeral_eq_Suc)
  ultimately show ?thesis by (simp add: machinery_ok_def ex_machinery_def del: append_Cons)
qed

definition ex_ended :: "string \<Rightarrow> pod" where
  "ex_ended name = (ex_pod name)\<lparr>Phase := PodSucceeded\<rparr>"

text \<open>The last pod finishes; or it is removed, and the API server has it no more.\<close>

theorem allocation_goes_back_witness:
  "(\<exists>w1 w2. Work 0 ex_codec ex_flux 1 ex_unlimited (ex_world ex_queued) = (Returns None, w1) \<and>
     pod_changes ex_machinery ex_env ex_codec ex_kube ex_flux ex_finished (Some (ex_pod ''a'')) (Some (ex_ended ''a'')) w1 =
       Returns w2 \<and> sent w2 = sent w1 @ [ex_cancel]) \<and>
   (\<exists>w1 w2. Work 0 ex_codec ex_flux 1 ex_unlimited (ex_world ex_queued) = (Returns None, w1) \<and>
     pod_changes ex_machinery ex_env ex_codec ex_kube ex_flux ex_gone (Some (ex_pod ''a'')) None w1 =
       Returns w2 \<and> sent w2 = sent w1)"
proof -
  have spec2: "\<forall>x y. P x y \<Longrightarrow> P a b" for P :: "pod option \<Rightarrow> pod option \<Rightarrow> bool" and a b by blast
  let ?k = "(ja_GroupName ex_unlimited, ja_Namespace ex_unlimited)"
  have id: "uint (7 :: 64 word) = 7" by simp
  have work: "unmarshal ex_codec (ja_Podspec ex_unlimited) = Inr (ex_pod ''b'')" "match_rpc ex_flux r = Inr ex_response"
    "mp_Allocated ex_response" "\<not> mp_Reserved ex_response" "int4_range (uint (mp_FluxID ex_response))"
    "0 < ja_Duration ex_unlimited \<longrightarrow> ActiveDeadlineSeconds (ex_pod ''b'') \<noteq> None" "mp_FluxID ex_response = 7" for r
    by (simp_all add: ex_unlimited_def ex_job_def ex_unmarshal ex_flux_def ex_response_def int4_range_def id)
  have row: "hd (river_job ex_queued) \<in> set (river_job (tables (ex_world ex_queued)))" "rj_id (hd (river_job ex_queued)) = 1"
    "rj_args (hd (river_job ex_queued)) = encode_JobArgs ex_unlimited" by (simp_all add: ex_queued_def)
  have pending: "?k \<in> pending_key ` set (pending_queue (tables (ex_world ex_queued)))"
    by (simp add: ex_queued_def ex_moved_def ex_unlimited_def ex_job_def pending_key_def)
  have q: "\<not> terminal (ex_pod ''a'')" "terminal (ex_ended ''a'')"
    "GetPodGroupName (ex_pod ''a'') = ja_GroupName ex_unlimited" "Namespace (ex_pod ''a'') = ja_Namespace ex_unlimited"
    by (simp_all add: terminal_def ex_ended_def PodSucceeded_def PodFailed_def ex_fields ex_sizes ex_unlimited_def ex_job_def)
      (simp add: ex_pod_def)
  have "new_pod_row ''A'' (ex_pod ''a'') ex_group \<in> set (pods_of ex_queued ?k)"
    using ex_two_rows by (simp add: pods_of_def ex_queued_def ex_moved_def ex_unlimited_def ex_job_def new_pod_row_def
        ex_fields ex_group_def)
  moreover have "\<not> pod_over ex_gone (new_pod_row ''A'' (ex_pod ''a'') ex_group)"
    by (simp add: pod_over_def new_pod_row_def ex_fields ex_gone_def ex_finished_def ex_live_def)
  ultimately have gone: "\<not> (\<forall>r \<in> set (pods_of (tables (ex_world ex_queued)) ?k). pod_over ex_gone r)" by auto
  note returned = allocation_goes_back [OF ex_machinery_ok ex_scans ex_world_simps(2) work(1-4,6,5) row pending, of 0 ex_kube]
  have "\<exists>w1 w2. Work 0 ex_codec ex_flux 1 ex_unlimited (ex_world ex_queued) = (Returns None, w1) \<and>
     pod_changes ex_machinery ex_env ex_codec ex_kube ex_flux ex_finished (Some (ex_pod ''a'')) (Some (ex_ended ''a'')) w1 =
       Returns w2 \<and> sent w2 = sent w1 @ [ex_cancel]"
    using returned [of ex_finished] unfolding ex_cancel_def work(7) [symmetric]
    by - (elim exE conjE, drule spec2 [of _ "Some (ex_pod ''a'')" "Some (ex_ended ''a'')"],
      simp add: q ex_over)
  moreover have "\<exists>w1 w2. Work 0 ex_codec ex_flux 1 ex_unlimited (ex_world ex_queued) = (Returns None, w1) \<and>
     pod_changes ex_machinery ex_env ex_codec ex_kube ex_flux ex_gone (Some (ex_pod ''a'')) None w1 =
       Returns w2 \<and> sent w2 = sent w1"
    using returned [of ex_gone]
    by - (elim exE conjE, drule spec2 [of _ "Some (ex_pod ''a'')" None],
      simp only: option.case q gone simp_thms if_True if_False option.distinct append_Nil2, blast)
  ultimately show ?thesis by (rule conjI)
qed

end
