(* ===== verification/Gang.thy ===== *)
theory Gang
  imports Contract
begin

text \<open>
  Gang scheduling without a database: an abstract machine of groups that collect members, are counted
  and handed over when they are complete. The queue refines it: every step of its handlers, failing
  calls included, is a sequence of steps of the machine.
\<close>

section \<open>The machine\<close>

text \<open>The members a group has, the size it waits for with the number it has counted, and the size with
  which it was handed over.\<close>

record 'k gang =
  members :: "'k \<Rightarrow> string set"
  counting :: "'k \<rightharpoonup> int \<times> int"
  handed :: "'k \<rightharpoonup> int"

inductive gang_step :: "'k gang \<Rightarrow> 'k gang \<Rightarrow> bool" where
  arrives: "name \<notin> members s k \<Longrightarrow> gang_step s (s\<lparr>members := (members s)(k := insert name (members s k))\<rparr>)"
| opens: "counting s k = None \<Longrightarrow> members s k \<noteq> {} \<Longrightarrow> gang_step s (s\<lparr>counting := (counting s)(k \<mapsto> (n, 1))\<rparr>)"
| counts: "counting s k = Some (n, c) \<Longrightarrow> c < int (card (members s k)) \<Longrightarrow>
    gang_step s (s\<lparr>counting := (counting s)(k \<mapsto> (n, c + 1))\<rparr>)"
| hands: "counting s k = Some (n, c) \<Longrightarrow> n \<le> c \<Longrightarrow> handed s k = None \<Longrightarrow>
    gang_step s (s\<lparr>handed := (handed s)(k \<mapsto> n)\<rparr>)"
| releases: "\<forall>k \<in> K. \<exists>n c. counting s k = Some (n, c) \<and> n \<le> c \<and> handed s k \<noteq> None \<Longrightarrow>
    gang_step s (s\<lparr>counting := counting s |` (- K)\<rparr>)"

text \<open>What the machine promises: no group counts or is handed over with more members than it has.\<close>

definition gang_ok :: "'k gang \<Rightarrow> bool" where
  "gang_ok s \<longleftrightarrow> (\<forall>k. finite (members s k)) \<and>
     (\<forall>k n c. counting s k = Some (n, c) \<longrightarrow> c \<le> int (card (members s k))) \<and>
     (\<forall>k n. handed s k = Some n \<longrightarrow> n \<le> int (card (members s k)))"

lemma gang_step_ok: "gang_step s s' \<Longrightarrow> gang_ok s \<Longrightarrow> gang_ok s'"
proof (induction rule: gang_step.induct)
  case (arrives name s k)
  have up: "m \<le> 1 + int (card (members s k))" if "m \<le> int (card (members s k))" for m using that by linarith
  then show ?case using arrives by (simp add: gang_ok_def) (blast intro: up)
next
  case (opens s k n)
  then have "1 \<le> int (card (members s k))" by (simp add: gang_ok_def Suc_le_eq card_gt_0_iff)
  then show ?case using opens by (simp add: gang_ok_def)
next
  case (counts s k n c)
  then show ?case by (simp add: gang_ok_def)
next
  case (hands s k n c)
  then have "c \<le> int (card (members s k))" by (auto simp: gang_ok_def)
  then have "n \<le> int (card (members s k))" using hands(2) by linarith
  then show ?case using hands by (simp add: gang_ok_def)
next
  case (releases K s)
  then show ?case by (simp add: gang_ok_def restrict_map_def)
qed

lemma gang_steps_ok: "gang_step\<^sup>*\<^sup>* s s' \<Longrightarrow> gang_ok s \<Longrightarrow> gang_ok s'"
  by (induction rule: rtranclp_induct) (auto intro: gang_step_ok)

text \<open>No step takes a member away, or a group that was handed over.\<close>

lemma gang_steps_grow:
  "gang_step\<^sup>*\<^sup>* s s' \<Longrightarrow> members s k \<subseteq> members s' k \<and> handed s \<subseteq>\<^sub>m handed s'"
proof (induction rule: rtranclp_induct)
  case (step s' s'')
  have "members s' k \<subseteq> members s'' k \<and> handed s' \<subseteq>\<^sub>m handed s''"
    using step(2) by (induction rule: gang_step.induct) (auto simp: map_le_def)
  then show ?case using step(3) map_le_trans by blast
qed simp

section \<open>The tables as a state of the machine\<close>

definition abs_gang :: "tables \<Rightarrow> (string \<times> string) gang" where
  "abs_gang t =
     \<lparr>members = (\<lambda>k. pr_name ` set (pods_of t k)),
      counting = (\<lambda>k. map_option (\<lambda>r. (gr_group_size r, gr_current_size r)) (row_of group_key (groups_provisional t) k)),
      handed = (\<lambda>k. map_option pq_group_size (row_of pending_key (pending_queue t) k))\<rparr>"

lemma abs_gang_kept:
  assumes "provisional_kept t t'"
  shows "abs_gang t' = abs_gang t"
proof -
  have *: "map_option pq_group_size (row_of pending_key rs k) =
      map_of (map (\<lambda>r. (pending_key r, pq_group_size r)) rs) k" for rs k
    by (induction rs) (auto simp: row_of_def)
  show ?thesis
    using assms unfolding abs_gang_def provisional_kept_def by (simp add: * pods_of_def)
qed

section \<open>What the handlers do, as steps of the machine\<close>

lemma abs_gang_simps:
  "members (abs_gang t) k = pr_name ` set (pods_of t k)"
  "counting (abs_gang t) k = map_option (\<lambda>r. (gr_group_size r, gr_current_size r)) (row_of group_key (groups_provisional t) k)"
  "handed (abs_gang t) k = map_option pq_group_size (row_of pending_key (pending_queue t) k)"
  by (simp_all add: abs_gang_def)

text \<open>A group counts no more than it has members.\<close>

lemma counted_members:
  assumes "reach_inv E iter t" and "row_of group_key (groups_provisional t) k = Some r"
  shows "gr_current_size r \<le> int (card (members (abs_gang t) k))"
proof -
  have "distinct (map pr_name (pods_of t k))"
    using assms(1) by (cases k)
      (auto simp: reach_inv_def queue_inv_def tables_ok_def unique_pods_def pods_of_def distinct_map inj_on_def pod_key_def)
  then have "card (members (abs_gang t) k) = length (pods_of t k)" by (simp add: abs_gang_simps distinct_card flip: set_map)
  then show ?thesis
    using assms row_of_Some [OF assms(2)] by (auto simp: reach_inv_def count_ok_def)
qed

text \<open>An enqueue: a member arrives, and then its group counts it or is opened.\<close>

lemma abs_after_pod:
  assumes "fresh_pod p g t"
  shows "abs_gang (after_pod spec p g t) = (abs_gang t)\<lparr>members := (members (abs_gang t))
    ((pg_Name g, Namespace p) := insert (Name p) (members (abs_gang t) (pg_Name g, Namespace p)))\<rparr>"
  by (simp add: abs_gang_def fun_eq_iff pods_of_after_pod [OF assms] groups_after)
    (auto simp: after_pod_def new_pod_row_def)

lemma gang_after_pod:
  assumes "fresh_pod p g t"
  shows "gang_step (abs_gang t) (abs_gang (after_pod spec p g t))"
  unfolding abs_after_pod [OF assms]
  by (rule gang_step.arrives) (use assms in \<open>force simp: abs_gang_simps fresh_pod_def pods_of_def pod_key_def\<close>)

lemma abs_later:
  "abs_gang (after_increment spec p g t) = (abs_gang (after_pod spec p g t))\<lparr>counting := (counting (abs_gang t))
     ((pg_Name g, Namespace p) := map_option (\<lambda>(n, c). (n, c + 1)) (counting (abs_gang t) (pg_Name g, Namespace p)))\<rparr>"
  "abs_gang (after_request spec p g t) = (abs_gang (after_pod spec p g t))\<lparr>counting := (counting (abs_gang t))
     ((pg_Name g, Namespace p) \<mapsto> (case counting (abs_gang t) (pg_Name g, Namespace p) of
        None \<Rightarrow> (pg_Size g, 1) | Some (n, c) \<Rightarrow> (n, c + 1)))\<rparr>"
proof -
  have same: "pending_queue (after_increment spec p g t) = pending_queue t" "pending_queue (after_request spec p g t) = pending_queue t"
    "pending_queue (after_pod spec p g t) = pending_queue t"
    by (simp_all add: after_request_def after_increment_def after_pod_def)
  show "abs_gang (after_increment spec p g t) = (abs_gang (after_pod spec p g t))\<lparr>counting := (counting (abs_gang t))
     ((pg_Name g, Namespace p) := map_option (\<lambda>(n, c). (n, c + 1)) (counting (abs_gang t) (pg_Name g, Namespace p)))\<rparr>"
    by (simp add: abs_gang_def fun_eq_iff pods_of_later groups_after groupt.lookup_upd same option.map_comp comp_def)
  have row: "row_of group_key (insert_group (new_group_row spec p g) (increment_group (pg_Name g, Namespace p) (groups_provisional t))) =
      (row_of group_key (groups_provisional t))((pg_Name g, Namespace p) \<mapsto>
        (case row_of group_key (groups_provisional t) (pg_Name g, Namespace p) of
           None \<Rightarrow> new_group_row spec p g | Some r \<Rightarrow> r\<lparr>gr_current_size := gr_current_size r + 1\<rparr>))"
    using groupt.lookup_upd_ins [of "new_group_row spec p g" "groups_provisional t"] by simp
  show "abs_gang (after_request spec p g t) = (abs_gang (after_pod spec p g t))\<lparr>counting := (counting (abs_gang t))
     ((pg_Name g, Namespace p) \<mapsto> (case counting (abs_gang t) (pg_Name g, Namespace p) of
        None \<Rightarrow> (pg_Size g, 1) | Some (n, c) \<Rightarrow> (n, c + 1)))\<rparr>"
    by (simp add: abs_gang_def fun_eq_iff pods_of_later groups_after row same)
      (simp add: new_group_row_def split: option.splits)
qed

lemma gang_request:
  assumes ran: "ran_request spec p g t t'" and fresh: "fresh_pod p g t" and inv: "reach_inv E iter t"
  shows "gang_step\<^sup>*\<^sup>* (abs_gang t) (abs_gang t')"
proof -
  let ?k = "(pg_Name g, Namespace p)" and ?s = "abs_gang (after_pod spec p g t)"
  have s: "gang_step (abs_gang t) ?s" by (rule gang_after_pod [OF fresh])
  have c: "counting ?s ?k = counting (abs_gang t) ?k" "counting ?s = counting (abs_gang t)"
    by (simp_all add: abs_gang_def groups_after)
  have mem: "members ?s ?k = insert (Name p) (members (abs_gang t) ?k)" "finite (members (abs_gang t) ?k)"
    "Name p \<notin> members (abs_gang t) ?k"
    using fresh by (simp_all add: abs_after_pod [OF fresh] abs_gang_simps) (force simp: fresh_pod_def pods_of_def pod_key_def)
  have count: "gang_step ?s (?s\<lparr>counting := (counting (abs_gang t))(?k \<mapsto> (n, m + 1))\<rparr>)"
    if some: "counting (abs_gang t) ?k = Some (n, m)" for n m
  proof -
    have "m \<le> int (card (members (abs_gang t) ?k))" using some counted_members [OF inv, of ?k] by (auto simp: abs_gang_simps)
    then have "m < int (card (members ?s ?k))" unfolding mem(1) using mem(2,3) by simp
    then show ?thesis using gang_step.counts [of ?s ?k n m] some c by simp
  qed
  have inc: "gang_step\<^sup>*\<^sup>* ?s (abs_gang (after_increment spec p g t))"
  proof (cases "counting (abs_gang t) ?k")
    case None
    then have "(counting (abs_gang t))(?k := None) = counting ?s" using c by (simp add: fun_upd_idem)
    then show ?thesis using None unfolding abs_later by simp
  next
    case (Some nm)
    then show ?thesis using count [of "fst nm" "snd nm"] unfolding abs_later by (simp add: case_prod_unfold r_into_rtranclp)
  qed
  have req: "gang_step\<^sup>*\<^sup>* ?s (abs_gang (after_request spec p g t))"
  proof (cases "counting (abs_gang t) ?k")
    case None
    then show ?thesis using gang_step.opens [of ?s ?k "pg_Size g"] c mem(1) unfolding abs_later
      by (simp add: r_into_rtranclp)
  next
    case (Some nm)
    then show ?thesis using count [of "fst nm" "snd nm"] unfolding abs_later by (simp add: case_prod_unfold r_into_rtranclp)
  qed
  obtain i where "i \<le> 3" "run_all (take i (request_stmts spec p g)) t = Inr t'"
    using ran by (auto simp: ran_request_def)
  from run_request [OF this(2,1)] show ?thesis
    using s inc req by (auto intro: converse_rtranclp_into_rtranclp split: if_splits)
qed

text \<open>A cycle: each selected group is handed over once, and then all of them are released.\<close>

definition complete_in :: "tables \<Rightarrow> JobArgs \<Rightarrow> bool" where
  "complete_in t a \<longleftrightarrow> (\<exists>c. counting (abs_gang t) (job_key a) = Some (ja_GroupSize a, c) \<and> ja_GroupSize a \<le> c)"

lemma selected_complete_in:
  assumes "selected E t jobs" and "reach_inv E iter t" and "a \<in> set jobs"
  shows "complete_in t a"
proof -
  obtain m where m: "m \<in> set (ready_rows t)" "a = group_job E t m" using assms(1,3) by (auto simp: selected_def)
  have "distinct (map group_key (groups_provisional t))"
    using assms(2) by (simp add: reach_inv_def queue_inv_def tables_ok_def unique_groups_def)
  then have "row_of group_key (groups_provisional t) (group_key m) = Some m"
    using m(1) by (simp add: row_of_iff ready_rows_def)
  moreover have "ja_GroupSize a = gr_group_size m" unfolding m(2) by (simp add: group_job_def job_of_def)
  ultimately show ?thesis using m by (simp add: complete_in_def ready_rows_def abs_gang_simps)
qed

lemma gang_mark_pending:
  "\<forall>a \<in> set jobs. complete_in t a \<Longrightarrow>
   gang_step\<^sup>*\<^sup>* (abs_gang t) (abs_gang (mark_pending jobs t)) \<and>
   (\<forall>a \<in> set jobs. handed (abs_gang (mark_pending jobs t)) (job_key a) \<noteq> None)"
proof (induction jobs rule: rev_induct)
  case Nil
  then show ?case by (simp add: mark_pending_def)
next
  case (snoc a jobs)
  let ?t = "mark_pending jobs t"
  have t': "mark_pending (jobs @ [a]) t = ?t\<lparr>pending_queue := insert_pending (pending_of a) (pending_queue ?t)\<rparr>"
    by (simp add: mark_pending_def)
  have size: "pq_group_size (pending_of a) = ja_GroupSize a" by (simp add: pending_of_def)
  have h: "handed (abs_gang (mark_pending (jobs @ [a]) t)) = (case handed (abs_gang ?t) (job_key a) of
      None \<Rightarrow> (handed (abs_gang ?t))(job_key a \<mapsto> ja_GroupSize a) | Some _ \<Rightarrow> handed (abs_gang ?t))"
    unfolding t' using pendt.lookup_ins [of "pending_of a" "pending_queue ?t"]
    by (auto simp: abs_gang_simps fun_eq_iff size split: option.splits)
  have rest: "abs_gang (mark_pending (jobs @ [a]) t) = (abs_gang ?t)\<lparr>handed := handed (abs_gang (mark_pending (jobs @ [a]) t))\<rparr>"
    unfolding t' by (simp add: abs_gang_def pods_of_def)
  have "counting (abs_gang ?t) = counting (abs_gang t)" by (simp add: abs_gang_def mark_pending_def)
  then obtain c where c: "counting (abs_gang ?t) (job_key a) = Some (ja_GroupSize a, c)" "ja_GroupSize a \<le> c"
    using snoc.prems by (auto simp: complete_in_def)
  have "gang_step\<^sup>*\<^sup>* (abs_gang ?t) (abs_gang (mark_pending (jobs @ [a]) t))"
  proof (cases "handed (abs_gang ?t) (job_key a)")
    case None
    then show ?thesis using gang_step.hands [OF c None] rest h by (simp add: r_into_rtranclp)
  next
    case (Some n)
    then show ?thesis using rest h by simp
  qed
  moreover have "handed (abs_gang (mark_pending (jobs @ [a]) t)) (job_key b) \<noteq> None" if "b \<in> set (jobs @ [a])" for b
    using that snoc h by (auto split: option.splits)
  ultimately show ?case using snoc by (auto)
qed

lemma gang_move_groups:
  assumes sel: "selected E t jobs" and inv: "reach_inv E iter t"
  shows "gang_step\<^sup>*\<^sup>* (abs_gang t) (abs_gang (move_groups jobs t))"
proof -
  let ?t = "mark_pending jobs t"
  have complete: "\<forall>a \<in> set jobs. complete_in t a" using selected_complete_in [OF sel inv] by blast
  note mark = gang_mark_pending [OF this]
  have same: "counting (abs_gang ?t) = counting (abs_gang t)" by (simp add: abs_gang_def mark_pending_def)
  have "unique_groups (groups_provisional t)" using inv by (simp add: reach_inv_def queue_inv_def tables_ok_def)
  then have "row_of group_key (groups_provisional (move_groups jobs t)) =
      row_of group_key (groups_provisional t) |` (- (job_key ` set jobs))"
    by (simp add: move_groups_def groupt.lookup_del)
  then have "abs_gang (move_groups jobs t) = (abs_gang ?t)\<lparr>counting := counting (abs_gang ?t) |` (- (job_key ` set jobs))\<rparr>"
    unfolding same by (simp add: abs_gang_def fun_eq_iff restrict_map_def) (simp add: move_groups_def mark_pending_def pods_of_def)
  moreover have "gang_step (abs_gang ?t) ((abs_gang ?t)\<lparr>counting := counting (abs_gang ?t) |` (- (job_key ` set jobs))\<rparr>)"
    by (rule gang_step.releases) (use complete mark same in \<open>auto simp: complete_in_def\<close>)
  ultimately show ?thesis using mark by (metis rtranclp.rtrancl_into_rtrancl)
qed

end
