(* ===== verification/GangProps.thy ===== *)
theory GangProps
  imports Gang TypingProps
begin

text \<open>
  The queue refines gang scheduling: every step of the transition system of \<open>Reach\<close> is a sequence of
  steps of the machine of \<open>Gang\<close> on the state its tables stand for.
\<close>

lemma Queue_Schedule_gang:
  assumes "Queue_Schedule q w = (r, w')" and "q_Strategy q = EasyBackfill E C iter collect"
    and inv: "reach_inv E iter (tables w)"
  shows "gang_step\<^sup>*\<^sup>* (abs_gang (tables w)) (abs_gang (tables w'))"
proof -
  have env: "queue_inv E iter (tables w)" "scans_ok E" "iter_ok iter" "plain_groups (tables w)"
    using inv by (auto simp: reach_inv_def queue_inv_def strategy_env_def)
  obtain jobs err w1 where rj: "ReadyJobs E iter w = ((jobs, err), w1)" and kept: "provisional_kept (tables w1) (tables w')"
    by (rule Queue_Schedule_ReadyJobs [OF assms(1,2) env(1)])
  from rj env(2-4) have "gang_step\<^sup>*\<^sup>* (abs_gang (tables w)) (abs_gang (tables w1))"
  proof (cases rule: ReadyJobs_cases)
    case (marked ts e)
    then show ?thesis using gang_mark_pending selected_complete_in [OF _ inv] by auto
  next
    case (moved ts)
    then show ?thesis using gang_move_groups [OF _ inv] by simp
  qed simp
  then show ?thesis unfolding abs_gang_kept [OF kept] .
qed

lemma step_gang:
  assumes "queue_step E C iter collect K F L w w'" and inv: "reach_inv E iter (tables w)" and ar: "arity_checked E"
  shows "gang_step\<^sup>*\<^sup>* (abs_gang (tables w)) (abs_gang (tables w'))"
  using assms(1)
proof (cases rule: queue_step.cases)
  case (pod_created q now p r)
  from Queue_Enqueue_ran [OF this] show ?thesis using gang_request [OF _ _ inv] by auto
next
  case (schedule_cycle q r)
  then show ?thesis using Queue_Schedule_gang inv by blast
next
  case (job_worked now jobid a res)
  then show ?thesis using abs_gang_kept [OF Work_kept] by simp
next
  case (cleanup_worked ca err)
  then show ?thesis using Cleanup_tables [OF ar] by (auto simp: CleanupWorker_Work_def)
next
  case (unschedulable podspec g err)
  then show ?thesis using Cleanup_tables [OF ar] by (auto simp: Queue_Cleanup_def)
next
  case (pod_deleted p)
  then show ?thesis using DeletePodEvent_tables [OF ar] by simp
qed simp

text \<open>C2: as long as no pod is enqueued twice, and no value between quotes has a quote, the
  queue refines gang scheduling: from any state reached that way, an enqueue of a new pod, a schedule
  cycle, a worker, a cleanup or a pod event, whatever calls fail on the way, is a sequence of steps of
  the abstract machine. There a group collects members one by one, never counts more than it has, and
  enters the pending table at most once, with the size it had counted to by then; a group that forms
  again while it is pending leaves the counting again, and its job may be submitted again, but its
  pending entry stays the first. So the state is one the machine promises, no pending size is larger
  than the number of members, and no member and no pending group is ever taken back.\<close>

theorem queue_refines_gang:
  assumes reach: "queue_reach E C iter collect K F L w" and env: "strategy_env E iter" "arity_checked E"
    and step: "queue_step E C iter collect K F L w w'"
  shows "gang_step\<^sup>*\<^sup>* (abs_gang (tables w)) (abs_gang (tables w')) \<and> gang_ok (abs_gang (tables w')) \<and>
    (\<forall>k. members (abs_gang (tables w)) k \<subseteq> members (abs_gang (tables w')) k) \<and>
    handed (abs_gang (tables w)) \<subseteq>\<^sub>m handed (abs_gang (tables w'))"
proof -
  have steps: "gang_step\<^sup>*\<^sup>* (abs_gang (tables w)) (abs_gang (tables w'))"
    by (rule step_gang [OF step reach_reach_inv [OF reach env] env(2)])
  have "gang_ok (abs_gang (tables v))" if "queue_reach E C iter collect K F L v" for v
    using that
  proof (induction rule: queue_reach.induct)
    case (start w)
    then show ?case by (simp add: gang_ok_def abs_gang_simps row_of_def pods_of_def)
  next
    case (step w w')
    then show ?case using gang_steps_ok [OF step_gang [OF step(2) reach_reach_inv [OF step(1) env] env(2)]] by simp
  qed
  then have "gang_ok (abs_gang (tables w'))" using queue_reach.step [OF reach step] by blast
  then show ?thesis using steps gang_steps_grow [OF steps] by blast
qed

theorem queue_refines_gang_witness:
  "gang_step\<^sup>*\<^sup>* (abs_gang ex_two) (abs_gang ex_done) \<and> handed (abs_gang ex_done) (''lammps'', ''default'') = Some 2 \<and>
   counting (abs_gang ex_done) (''lammps'', ''default'') = None"
proof -
  have "queue_step ex_env ex_codec id ex_collect ex_kube ex_flux ex_live (ex_world ex_two) (ex_world ex_done)"
    by (rule queue_step.schedule_cycle [OF ex_cycle]) (simp add: ex_queue_def)
  from queue_refines_gang [OF ex_reach_two ex_env_ok(1,2) this] show ?thesis
    by (simp add: abs_gang_simps ex_done_def ex_moved_def row_of_def pending_key_def)
qed

end
