(* ===== verification/Spec2Isabelle.thy ===== *)
theory Spec2Isabelle
  imports EndToEnd RunLoop FilterProps SetupProps EntryProps InformerProps GangProps
begin

text \<open>
  Fluxnetes schedules groups of Kubernetes pods with the Flux graph scheduler. This library models its
  Go code and proves what the code does.

  The program. A patched Kubernetes scheduler (\<open>src/kubernetes/\<close>) takes pods from the scheduling
  queue in \<open>ScheduleOne\<close> and enqueues them in a PostgreSQL database. \<open>Enqueue\<close> stores the pod in
  \<open>pods_provisional\<close> and counts it in \<open>groups_provisional\<close>. A schedule cycle selects the groups that
  have counted their size, moves them to \<open>pending_queue\<close> and inserts one river job for each. A job
  worker sends the resource request of a pod of the group over gRPC to the Fluxion service
  (\<open>src/src/fluxnetes/\<close>), which makes a jobspec of it, asks the Fluxion library for an allocation in the
  resource graph it built from the cluster, and answers with a list of nodes; the worker writes the
  nodes into the arguments of its job and the flux id into the pending row. When river reports that
  the job is completed, the loop \<open>waitForJob\<close> reads nodes and pod names back from the arguments and
  binds a pod to each node through the scheduling and the binding cycle. Pod events and deadline
  cleanups cancel the allocation. The same scheduler carries the code of the upstream scheduler that
  filters and scores nodes (\<open>schedulePod\<close> and what it calls), which is modelled too.

  Where things are. A file name without a path is under \<open>src/kubernetes/pkg/fluxnetes/\<close>.

  \<^item> \<open>Prelude\<close>, \<open>GoStd\<close>, \<open>Kube\<close>: errors, panics (\<open>outcome\<close>), machine integers; the string functions of
    Go's library; the fields of Kubernetes objects that the code reads.
  \<^item> \<open>PodGroups\<close> (\<open>group/group.go\<close>, \<open>labels/labels.go\<close>, \<open>types/types.go\<close>): the group of a pod.
  \<^item> \<open>Tables\<close>, \<open>TableLaws\<close> (\<open>create-tables.sql\<close>, \<open>queries/queries.go\<close>): the database, its statements, and
    the contracts \<open>keyed_store\<close> and \<open>updatable_store\<close> of a table with a unique key.
  \<^item> \<open>JobTypes\<close> (\<open>fluxnetes.go\<close>, the argument structs of \<open>strategy/workers/\<close>): arguments of jobs as JSON.
  \<^item> \<open>Provisional\<close>, \<open>ProvisionalLaws\<close>, \<open>ReadyLaws\<close> (\<open>strategy/provisional/provisional.go\<close>): the
    provisional queue, its abstract specification, every way \<open>Enqueue\<close> and \<open>ReadyJobs\<close> can end.
  \<^item> \<open>Strategy\<close> (\<open>strategy/strategy.go\<close>, \<open>easy.go\<close>): the contract \<open>queue_strategy\<close>, kept by \<open>EasyBackfill\<close>.
  \<^item> \<open>Workers\<close> (\<open>strategy/workers/job.go\<close>, \<open>cleanup.go\<close>) and \<open>Resources\<close> (\<open>resources/resources.go\<close>).
  \<^item> \<open>QueueManager\<close> (\<open>queue.go\<close>, \<open>events.go\<close>) and \<open>PodInformer\<close> (\<open>GetInformer\<close>, \<open>UpdatePodEvent\<close>, and
    \<open>newPodInformer\<close> of \<open>scheduler/scheduler.go\<close>).
  \<^item> \<open>Reach\<close>, \<open>Contract\<close>, \<open>Typing\<close>, \<open>Gang\<close>: the whole queue as a transition system \<open>queue_step\<close> with the
    reachable states \<open>queue_reach\<close>; the contract \<open>table_contract\<close> of an invariant of the tables, which
    goes through all handlers once; the type of the database; the abstract gang scheduler.
  \<^item> \<open>Proto\<close>, \<open>Jobspec\<close>, \<open>Fluxion\<close>, \<open>JGF\<close>, \<open>Cluster\<close>, \<open>ServiceEntry\<close>
    (\<open>src/src/fluxnetes/pkg/fluxion-grpc\<close>, \<open>jobspec\<close>, \<open>fluxion\<close>, \<open>jgf\<close>, \<open>utils\<close>, \<open>service\<close>, and
    \<open>src/src/fluxnetes/cmd/main.go\<close>): the Fluxion service.
  \<^item> \<open>GoHeap\<close>, \<open>NodeSelection\<close>, \<open>HostSelection\<close>, \<open>FilterNodes\<close>, \<open>FilterLaws\<close>, \<open>Binding\<close>
    (\<open>src/kubernetes/pkg/scheduler/schedule_one.go\<close>): Go's heap behind the contract \<open>prio_queue\<close>; the
    search for feasible nodes, the scores, the choice of the host; assume, reserve, permit and bind.
  \<^item> \<open>EventLoop\<close>, \<open>RunLoop\<close>, \<open>SchedulerSetup\<close> (\<open>src/kubernetes/pkg/scheduler/scheduler.go\<close>): the loops,
    \<open>Run\<close> and the construction of the scheduler. \<open>SortPlugin\<close> (\<open>fluxnetes.go\<close> and the command
    \<open>src/kubernetes/cmd/kube-scheduler/scheduler.go\<close>): the queue-sort plugin.
  \<^item> \<open>Examples\<close>: the concrete parameters of the witnesses. \<open>QueueProps\<close>, \<open>CycleProps\<close>, \<open>WorkerProps\<close>,
    \<open>TypingProps\<close>, \<open>InformerProps\<close>, \<open>GangProps\<close>, \<open>ServiceProps\<close>, \<open>SchedProps\<close>, \<open>HostProps\<close>,
    \<open>FilterProps\<close>, \<open>SetupProps\<close>, \<open>EntryProps\<close>: the properties of each part. \<open>EndToEnd\<close> and this theory:
    the properties that span the parts.

  State. \<open>tables\<close> is the database, one list of rows per table and one for river's jobs. \<open>world\<close> holds the
  tables, \<open>sent\<close>, the cancels and deletions that reached Fluxion and the API server, in order and with
  their contents, granted or refused, and \<open>tape\<close>, the script of failures: each call over the network
  takes the next entry and is lost, without effect, when the entry is an error; the empty tape is a
  healthy network, on which the other end may still refuse. A handler takes the world and returns it with
  its result. A Go pair of a value and an error keeps that form; a panic is \<open>Panics\<close>. Integers that
  Go computes with at a fixed width are words or wrapped, the \<open>INTEGER\<close> columns reject what does not
  fit, and counters that cannot overflow in a memory are mathematical integers. The scheduler's
  effects on cache and plugins are traces of \<open>effect\<close>; a request to the cache to forget a pod is an
  effect only when the cache grants it. The Fluxion service keeps the contents of its files, \<open>files\<close>.

  Parameters, for code that is not under \<open>src/\<close>: \<open>dbenv\<close> (row order of a scan, command tags, the reading
  of a time, the effect of statements sent unformatted), \<open>codec\<close> (JSON of a pod), \<open>iter\<close> (the order of a Go map), \<open>collect\<close> (how
  pgx reads reservations), \<open>kube_api\<close>, \<open>live_pods\<close> and \<open>machinery\<close> (API server, pod phases, watches),
  \<open>flux_client\<close> (gRPC) and \<open>fluxcli\<close> (the Fluxion library), \<open>framework\<close> and \<open>status_ops\<close> (plugins of the
  scheduler), extenders, the snapshot of the nodes, the answers of \<open>rand.Intn\<close>, the errors of
  the file system (\<open>file_io\<close>) and \<open>net.Listen\<close>. What is assumed of them is documented behaviour and stands in the statements:
  \<open>scans_ok\<close> and \<open>iter_ok\<close> (an enumeration of the rows, in any order), \<open>clears_reservations\<close> (a truncate
  empties its table), together \<open>strategy_env\<close>; \<open>arity_checked\<close> (the driver refuses a wrong number of
  arguments); \<open>codec_ok\<close> (decoding gives back what was encoded); \<open>collect_typed\<close> (an \<open>int64\<close> is read);
  \<open>machinery_ok\<close> (a field selector and the notifications of its watch); \<open>service_answers\<close> with
  \<open>lists_nodes\<close> (the library answers with a graph that lists the cores of a node before the node, among
  vertices of any other type); \<open>no_slashes\<close> (names and zones of nodes). That no pod is enqueued twice is
  part of \<open>queue_reach\<close> (\<open>accepted_pod\<close>): the code does not check it, and \<open>duplicate_pod_counts_twice\<close>
  shows what goes wrong without it. Values between quotes in
  a statement have no quote of their own (\<open>lit_ok\<close>): without that the text has no meaning here.

  What is shown, by groups of lemmas.

  \<^item> The queue: every outcome of \<open>Enqueue\<close> and what it did to the tables (\<open>enqueue_outcomes\<close>), its
    refinement of an abstract map (\<open>enqueue_refines_spec\<close>), what a cycle selects and how groups move
    without loss (\<open>ready_jobs_selection\<close>, \<open>ready_jobs_conserve_groups\<close>), and over all runs with any
    failures: unique indexes and counts (\<open>reachable_counts\<close>), typed tables
    (\<open>reachable_tables_are_typed\<close>), complete groups only (\<open>scheduled_groups_are_complete\<close>,
    \<open>nothing_asks_for_missing_pods\<close>), and the refinement of gang scheduling (\<open>queue_refines_gang\<close>).
  \<^item> Progress on a healthy network: \<open>enqueue_succeeds\<close>, \<open>complete_groups_are_submitted\<close>,
    \<open>allocation_reaches_the_scheduler\<close>, \<open>complete_groups_are_bound\<close> (a complete group goes through the
    cycle, the worker, the Fluxion service and the event loop to its bindings) and
    \<open>allocation_goes_back\<close> (the end of the group's pods cancels that allocation).
  \<^item> The service: which tree the resource graph is (a subnet vertex for every schedulable node, also
    where nodes share a zone, although a comment of the source wants one for each zone), the request
    sums the containers, an allocation comes back node by node, and the service starts with the graph
    it built.
  \<^item> The scheduler: the invariant of the goroutines that filter nodes under every interleaving, the
    host is feasible, has the highest score and is chosen fairly, \<open>schedulePod\<close> with filter plugins
    never panics, an assumed pod is bound or forgotten unless the cache refuses to forget it,
    registered events are watched, a completed job binds the pods under its names.
  \<^item> What goes wrong: a failed insert strands groups, nothing leaves the pending table, a missing pod
    blocks the cancel, a pod enqueued twice counts twice, a cancelled job ends the loop, fewer names
    than nodes panic, \<open>Run\<close> never shuts down, a port with a colon is refused.

  Termination and bounds. Every loop is a total function, structural or with a measure; none has
  fuel. The parallel filter is any list of moves, one atomic action of one goroutine each, and then
  \<open>finishing\<close>, four actions of every goroutine, which is as many as it has: those that were done are
  done by then, and a list that was already complete is not changed (\<open>settled_finishing\<close>). \<open>select_loop\<close> and \<open>drain\<close> end by the length of the heap, \<open>heap_down\<close>
  by the distance of its index from the end.

  Not modelled: the generated protobuf and gRPC code beside the message structs; logging, metrics,
  events for users and tracing; \<open>ToJson\<close> and \<open>PrintOutput\<close>, which print; constants and types that
  the code never uses; the default values of the scheduler's options, which are those of
  Kubernetes; river's delivery of jobs to workers and PostgreSQL's concurrency (a handler's
  statements are single steps, but two handlers do not interleave); the goroutine of one binding
  against another (each is a trace of its own); the test for an overflow of an index in Go's heap.
\<close>

section \<open>From the queue to the nodes\<close>

text \<open>From the worker's request to what the scheduler binds: when the cores that Fluxion lists for
  the nodes hold as many pods of the request's cpus in all as the group asks for, then on a healthy
  network the job ends with success and the scheduler reads from its row one node per pod of the
  group, each node as often as it holds pods, in Fluxion's order.\<close>

theorem group_gets_its_nodes:
  assumes "tape w = []" and "unmarshal C (ja_Podspec a) = Inr p"
    and ans: "service_answers cli (request_of C a p) m vs" "lists_nodes vs hs"
    and slots: "slots = map (\<lambda>(host, n). (host, n div c)) hs"
    and m: "\<not> ml_reserved m" "int4_range (uint (ml_jobid m))"
    and c: "sint (ps_Cpu (PreparePodJobSpec p (ja_GroupName a))) = int c" "0 < c"
    and range: "\<forall>(host, n) \<in> set hs. int4_range (int n) \<and> CHR '','' \<notin> set host"
    and group: "int (sum_list (map snd slots)) = ja_GroupSize a" "0 < ja_GroupSize a"
    and deadline: "0 < ja_Duration a \<longrightarrow> ActiveDeadlineSeconds p \<noteq> None"
    and row: "row \<in> set (river_job (tables w))" "rj_id row = jobid" "rj_args row = encode_JobArgs a"
  shows "\<exists>w' row' r. Work now C (service_client cli) jobid a w = (Returns None, w') \<and>
    row' \<in> set (river_job (tables w')) \<and> rj_id row' = jobid \<and> decode_JobResult (rj_args row') = Inr r \<and>
    GetNodes r = concat (map (\<lambda>(host, k). replicate k host) slots) \<and>
    int (length (GetNodes r)) = ja_GroupSize a \<and> jr_Names r = ja_Names a"
proof -
  obtain w' row' r where "Work now C (service_client cli) jobid a w = (Returns None, w')"
    "row' \<in> set (river_job (tables w'))" "rj_id row' = jobid" "decode_JobResult (rj_args row') = Inr r"
    "GetNodes r = slot_nodes slots" "jr_Names r = ja_Names a"
    using slots_recorded [OF assms(1,2) ans slots [folded slots_of_def] m c range group deadline row, of now] by blast
  moreover have "int (length (slot_nodes slots)) = ja_GroupSize a" by (simp only: length_slot_nodes group(1))
  ultimately show ?thesis
    by (intro exI [of _ w'] exI [of _ row'] exI [of _ r]) (simp add: slot_nodes_def)
qed

text \<open>Two cores of the one node and three of the other, with vertices of other types around them.\<close>

definition ex_allocation :: "vertex list" where
  "ex_allocation =
     map (\<lambda>(ty, base). \<lparr>v_type = ty, v_name = base @ ''0'', v_basename = base\<rparr>)
       [(''core'', ''core''), (''memory'', ''memory''), (''core'', ''core''), (''node'', ''n1''), (''core'', ''core''),
        (''gpu'', ''gpu''), (''core'', ''core''), (''core'', ''core''), (''node'', ''n2''), (''cluster'', ''k8scluster'')]"

definition ex_service :: fluxcli where
  "ex_service = \<lparr>MatchAllocate = (\<lambda>r s. \<lparr>ml_reserved = False, ml_allocated = ''R'', ml_at = 0, ml_jobid = 7, ml_fluxerr = None\<rparr>),
     cli_Cancel = (\<lambda>_ _. None), yaml_marshal = (\<lambda>_. Inr ''spec''),
     json_parse = (\<lambda>s. if s = ''R'' then Some (graph_json ex_allocation) else None)\<rparr>"

definition ex_hosts :: "(string \<times> nat) list" where
  "ex_hosts = [(''n1'', 2), (''n2'', 3)]"

lemma ex_hosts_listed: "lists_nodes ex_allocation ex_hosts"
  by (simp add: ex_allocation_def ex_hosts_def)

lemma ex_slots: "[(''n1'', 1), (''n2'', 1)] = map (\<lambda>(host, n). (host, n div 2)) ex_hosts"
  by (simp add: ex_hosts_def)

theorem group_gets_its_nodes_witness:
  "\<exists>w' row' r. Work 0 ex_codec (service_client ex_service) 1 ex_unlimited (ex_world ex_queued) = (Returns None, w') \<and>
     row' \<in> set (river_job (tables w')) \<and> decode_JobResult (rj_args row') = Inr r \<and> GetNodes r = [''n1'', ''n2'']"
proof -
  let ?m = "\<lparr>ml_reserved = False, ml_allocated = ''R'', ml_at = 0, ml_jobid = 7, ml_fluxerr = None\<rparr> :: match_result"
  let ?slots = "[(''n1'', 1), (''n2'', 1)] :: (string \<times> nat) list"
  let ?row = "hd (river_job ex_queued)"
  have ans: "service_answers ex_service (request_of ex_codec ex_unlimited (ex_pod ''b'')) ?m ex_allocation"
    by (simp add: service_answers_def ex_service_def CreateJobSpecYaml_def graph_json_reads)
  have cpu: "sint (ps_Cpu (PreparePodJobSpec (ex_pod ''b'') g)) = int 2" for g
    by (simp add: PreparePodJobSpec_def Let_def ex_pod_def)
  have un: "unmarshal ex_codec (ja_Podspec ex_unlimited) = Inr (ex_pod ''b'')"
    by (simp add: ex_unlimited_def ex_job_def ex_unmarshal)
  have m: "\<not> ml_reserved ?m" "int4_range (uint (ml_jobid ?m))" by (simp_all add: int4_range_def)
  have range: "\<forall>(host, n) \<in> set ex_hosts. int4_range (int n) \<and> CHR '','' \<notin> set host"
    by (simp add: ex_hosts_def int4_range_def)
  have group: "int (sum_list (map snd ?slots)) = ja_GroupSize ex_unlimited" "0 < ja_GroupSize ex_unlimited"
    "0 < ja_Duration ex_unlimited \<longrightarrow> ActiveDeadlineSeconds (ex_pod ''b'') \<noteq> None"
    by (simp_all add: ex_unlimited_def ex_job_def)
  have row: "?row \<in> set (river_job (tables (ex_world ex_queued)))" "rj_id ?row = 1"
    "rj_args ?row = encode_JobArgs ex_unlimited" by (simp_all add: ex_queued_def)
  have "concat (map (\<lambda>(host, k). replicate k host) ?slots) = [''n1'', ''n2'']" by simp
  then show ?thesis
    using group_gets_its_nodes [OF ex_world_simps(2) un ans ex_hosts_listed ex_slots m cpu _ range group row, of 0] by auto
qed

section \<open>A whole run\<close>

text \<open>C1: a complete group is bound, pod by pod, to the nodes Fluxion chose. The program has
  reached a state by any run in which no pod is enqueued twice; no call is lost from now on; no other
  complete group has the same name and namespace joined by a dash; the job's podspec has a deadline if
  the job has a duration. Then a schedule cycle submits the job of the group. If the Fluxion service
  answers it with an allocation, without a reservation, whose nodes, each with the cores listed before
  it, hold in all as many pods of the request's cpus as the group asks for, then the worker ends with
  success, and the event of that job makes the loop bind distinct pods of the group, as many as the
  group asks for, one to each slot's node in the order of Fluxion's list, without a panic. (The
  group's size is positive; the job id of the allocation and the numbers of cores fit 32 bits; names
  of pods and hosts have no comma, and what was put between quotes no quote; every pod of the group
  has a profile of the scheduler.)\<close>

theorem complete_groups_are_bound:
  assumes reach: "queue_reach E C iter collect K F L w" and env: "strategy_env E iter" "arity_checked E" "collect_typed collect"
    and quiet: "tape w = []" and codec: "codec_ok C" and S: "q_Strategy q = EasyBackfill E C iter collect"
    and r: "r \<in> set (ready_rows (tables w))"
    and alone: "\<forall>r' \<in> set (ready_rows (tables w)). lookup_key r' = lookup_key r \<longrightarrow> r' = r"
    and a: "a = group_job E (tables w) r" "unmarshal C (ja_Podspec a) = Inr p" "0 < ja_Duration a \<longrightarrow> ActiveDeadlineSeconds p \<noteq> None"
    and ans: "service_answers cli (request_of C a p) m vs" "lists_nodes vs hs"
    and slots: "slots = map (\<lambda>(host, n). (host, n div c)) hs"
    and m: "\<not> ml_reserved m" "int4_range (uint (ml_jobid m))"
    and c: "sint (ps_Cpu (PreparePodJobSpec p (ja_GroupName a))) = int c" "0 < c"
    and range: "\<forall>(host, n) \<in> set hs. int4_range (int n) \<and> CHR '','' \<notin> set host"
    and group: "int (sum_list (map snd slots)) = gr_group_size r" "0 < gr_group_size r"
    and commas: "\<forall>row \<in> set (pods_of (tables w) (group_key r)). CHR '','' \<notin> set (pr_name row)"
    and prof: "\<forall>row \<in> set (pods_of (tables w) (group_key r)). \<forall>p. unmarshal C (pr_podspec row) = Inr p \<longrightarrow>
      Profiles sched (SchedulerName p) = Some fwk"
    and st: "st \<noteq> CancelledState"
  shows "\<exists>err w1 jobid w2 row pods cycles. Queue_Schedule q w = (err, w1) \<and>
    Work now C (service_client cli) jobid a w1 = (Returns None, w2) \<and>
    row \<in> set (river_job (tables w2)) \<and> rj_id row = jobid \<and> jobid \<notin> rj_id ` set (river_job (tables w)) \<and>
    waitForJob E C K F S sched lim msg [Some (finished_event st row)] [] [] w2 =
      \<lparr>lr_end = Waiting, lr_left = [], lr_cycles = cycles,
       lr_bindings = map (\<lambda>(node, p). bind_trace S fwk lim msg node (queued_pod S fwk p)) (zip (slot_nodes slots) pods),
       lr_world = w2\<rparr> \<and>
    distinct (map Name pods) \<and> Name ` set pods = pr_name ` set (pods_of (tables w) (group_key r)) \<and>
    int (length (slot_nodes slots)) = gr_group_size r \<and> length (slot_nodes slots) \<le> length pods"
proof -
  have inv: "reach_inv E iter (tables w)" by (rule reach_reach_inv [OF reach env(1,2)])
  obtain err w1 row1 where w1: "Queue_Schedule q w = (err, w1)" "tape w1 = []"
    "pods_provisional (tables w1) = pods_provisional (tables w)" "row1 \<in> set (river_job (tables w1))"
    "rj_id row1 \<notin> rj_id ` set (river_job (tables w))" "rj_kind row1 = JobArgs_Kind" "rj_args row1 = encode_JobArgs a"
    using group_submitted [OF reach env quiet S r alone] a(1) by blast
  have size: "ja_GroupSize a = gr_group_size r" "(ja_GroupName a, ja_Namespace a) = group_key r"
    by (simp_all add: a(1) group_job_def job_of_def group_key_def)
  obtain w2 row args where w2: "Work now C (service_client cli) (rj_id row1) a w1 = (Returns None, w2)" "tape w2 = []"
    "pods_provisional (tables w2) = pods_provisional (tables w1)" "row \<in> set (river_job (tables w2))"
    "rj_id row = rj_id row1" "rj_kind row = rj_kind row1" "decode_JobResult (rj_args row) = Inr args"
    "GetNodes args = slot_nodes slots" "jr_Names args = ja_Names a" "jr_Namespace args = ja_Namespace a"
    "jr_GroupName args = ja_GroupName a"
    using slots_recorded [OF w1(2) a(2) ans slots [folded slots_of_def] m c range _ _ a(3) w1(4) refl w1(7), of now] group unfolding size(1) by blast
  have pods: "pods_provisional (tables w2) = pods_provisional (tables w)" and kind: "rj_kind row = JobArgs_Kind"
    and names: "jr_Names args = ja_Names (group_job E (tables w) r)"
    and key: "(jr_GroupName args, jr_Namespace args) = group_key r"
    using w1(3,6) w2(3,6,9-11) a(1) size(2) by simp_all
  obtain pods cycles where "waitForJob E C K F S sched lim msg [Some (finished_event st row)] [] [] w2 =
      \<lparr>lr_end = Waiting, lr_left = [], lr_cycles = cycles,
       lr_bindings = map (\<lambda>(node, p). bind_trace S fwk lim msg node (queued_pod S fwk p)) (zip (slot_nodes slots) pods),
       lr_world = w2\<rparr>" "distinct (map Name pods)" "Name ` set pods = pr_name ` set (pods_of (tables w) (group_key r))"
    "int (length (slot_nodes slots)) = gr_group_size r" "length (slot_nodes slots) \<le> length pods"
    using ready_group_binds [OF inv reach_decodable [OF reach env(1,2)] codec r w2(2) pods w2(8) names key group commas prof
        kind w2(7) st] by blast
  then show ?thesis
    by (intro exI [of _ err] exI [of _ w1] exI [of _ "rj_id row1"] exI [of _ w2] exI [of _ row] exI [of _ pods] exI [of _ cycles])
      (use w1 w2 in simp)
qed

theorem complete_groups_are_bound_witness:
  "\<exists>w1 w2 row pods cycles. Queue_Schedule ex_queue (ex_world ex_two) = (None, w1) \<and>
    Work 0 ex_codec (service_client ex_service) (rj_id row) ex_job w1 = (Returns None, w2) \<and>
    row \<in> set (river_job (tables w2)) \<and>
    waitForJob ex_env ex_codec ex_kube ex_flux ex_status_ops ex_sched 1024 (\<lambda>_. []) [Some (finished_event ''completed'' row)] [] [] w2 =
      \<lparr>lr_end = Waiting, lr_left = [], lr_cycles = cycles,
       lr_bindings = map (\<lambda>(node, p). bind_trace ex_status_ops (ex_framework True) 1024 (\<lambda>_. []) node
         (queued_pod ex_status_ops (ex_framework True) p)) (zip [''n1'', ''n2''] pods), lr_world = w2\<rparr> \<and>
    Name ` set pods = {''a'', ''b''}"
proof -
  let ?m = "\<lparr>ml_reserved = False, ml_allocated = ''R'', ml_at = 0, ml_jobid = 7, ml_fluxerr = None\<rparr> :: match_result"
  let ?slots = "[(''n1'', 1), (''n2'', 1)] :: (string \<times> nat) list"
  let ?r = "(new_group_row ''A'' (ex_pod ''a'') ex_group)\<lparr>gr_current_size := 2\<rparr>"
  have q: "q_Strategy ex_queue = EasyBackfill ex_env ex_codec id ex_collect" by (simp add: ex_queue_def)
  have r: "?r \<in> set (ready_rows (tables (ex_world ex_two)))"
    "\<forall>r' \<in> set (ready_rows (tables (ex_world ex_two))). lookup_key r' = lookup_key ?r \<longrightarrow> r' = ?r"
    by (simp_all add: ex_ready_rows)
  have key: "group_key ?r = (''lammps'', ''default'')" by (simp add: group_key_def new_group_row_def ex_fields)
  have pods: "pods_of (tables (ex_world ex_two)) (group_key ?r) =
      [new_pod_row ''A'' (ex_pod ''a'') ex_group, new_pod_row ''B'' (ex_pod ''b'') ex_group]"
    unfolding key by (simp add: pods_of_def ex_two_def new_pod_row_def ex_fields)
  have a: "ex_job = group_job ex_env (tables (ex_world ex_two)) ?r"
    by (simp add: group_job_def group_pods_def job_of_def ex_two_def ex_env_def ex_job_def new_group_row_def new_pod_row_def ex_fields)
  have un: "unmarshal ex_codec (ja_Podspec ex_job) = Inr (ex_pod ''b'')" "0 < ja_Duration ex_job \<longrightarrow> ActiveDeadlineSeconds (ex_pod ''b'') \<noteq> None"
    by (simp_all add: ex_job_def ex_unmarshal) (simp add: ex_pod_def)
  have ans: "service_answers ex_service (request_of ex_codec ex_job (ex_pod ''b'')) ?m ex_allocation"
    by (simp add: service_answers_def ex_service_def CreateJobSpecYaml_def graph_json_reads)
  have m: "\<not> ml_reserved ?m" "int4_range (uint (ml_jobid ?m))" by (simp_all add: int4_range_def)
  have cpu: "sint (ps_Cpu (PreparePodJobSpec (ex_pod ''b'') g)) = int 2" for g
    by (simp add: PreparePodJobSpec_def Let_def ex_pod_def)
  have range: "\<forall>(host, n) \<in> set ex_hosts. int4_range (int n) \<and> CHR '','' \<notin> set host"
    by (simp add: ex_hosts_def int4_range_def)
  have group: "int (sum_list (map snd ?slots)) = gr_group_size ?r" "0 < gr_group_size ?r"
    by (simp_all add: new_group_row_def ex_fields)
  have commas: "\<forall>row \<in> set (pods_of (tables (ex_world ex_two)) (group_key ?r)). CHR '','' \<notin> set (pr_name row)"
    unfolding pods by (simp add: new_pod_row_def ex_fields)
  have prof: "\<forall>row \<in> set (pods_of (tables (ex_world ex_two)) (group_key ?r)). \<forall>p. unmarshal ex_codec (pr_podspec row) = Inr p \<longrightarrow>
      Profiles ex_sched (SchedulerName p) = Some (ex_framework True)"
  proof -
    have "SchedulerName (ex_pod n) = ''fluxnetes''" for n by (simp add: ex_pod_def)
    then show ?thesis by (auto simp: ex_codec_def ex_sched_def split: if_splits)
  qed
  have st: "''completed'' \<noteq> CancelledState" by (simp add: CancelledState_def)
  obtain err w1 jobid w2 row pods cycles where run: "Queue_Schedule ex_queue (ex_world ex_two) = (err, w1)"
    "Work 0 ex_codec (service_client ex_service) jobid ex_job w1 = (Returns None, w2)"
    "row \<in> set (river_job (tables w2))" "rj_id row = jobid"
    "waitForJob ex_env ex_codec ex_kube ex_flux ex_status_ops ex_sched 1024 (\<lambda>_. []) [Some (finished_event ''completed'' row)] [] [] w2 =
      \<lparr>lr_end = Waiting, lr_left = [], lr_cycles = cycles,
       lr_bindings = map (\<lambda>(node, p). bind_trace ex_status_ops (ex_framework True) 1024 (\<lambda>_. []) node
         (queued_pod ex_status_ops (ex_framework True) p)) (zip (slot_nodes ?slots) pods), lr_world = w2\<rparr>"
    "Name ` set pods = pr_name ` set (pods_of (tables (ex_world ex_two)) (group_key ?r))"
    using complete_groups_are_bound [OF ex_reach_two ex_env_ok(1,2) ex_collect_typed ex_world_simps(2) ex_codec_ok q r a un ans
        ex_hosts_listed ex_slots m cpu _ range group commas prof st, where now = 0 and S = ex_status_ops and lim = 1024 and msg = "\<lambda>_. []"] by auto
  moreover have "err = None" using run(1) ex_cycle by simp
  moreover have "slot_nodes ?slots = [''n1'', ''n2'']" by (simp add: slot_nodes_def)
  moreover have "pr_name ` set (pods_of (tables (ex_world ex_two)) (group_key ?r)) = {''a'', ''b''}"
    unfolding pods by (simp add: new_pod_row_def ex_fields)
  ultimately show ?thesis by metis
qed

end
